(* ===== verification/Prelude.thy ===== *)
theory Prelude
  imports Main "HOL-Library.Word"
begin

text \<open>
  What every component of the simulator's model shares: names for the fixed-width integers of
  the C++ sources, exceptions as values of a sum type, the collections of rewrite rules the
  component theories fill, and generic lemmas on words and on lists updated by index.
\<close>

unbundle bit_operations_syntax

section \<open>Machine integers\<close>

text \<open>
  \<open>uint8_t\<close> .. \<open>uint64_t\<close> are words of that width. \<open>int32_t\<close> is a 32-bit word as well, read
  as two's complement by \<open>sint\<close>: the sources only convert it, mask it and compare it with
  constants, and \<open>static_cast\<close> between \<open>int32_t\<close> and \<open>uint32_t\<close> keeps the bits.
  \<open>std::size_t\<close> values (sizes of vectors and indices into them) are natural numbers.
\<close>

type_synonym u8 = "8 word"
type_synonym u16 = "16 word"
type_synonym u32 = "32 word"
type_synonym u64 = "64 word"
type_synonym i32 = "32 word"

section \<open>Exceptions as values\<close>

text \<open>
  The exceptions the sources throw, with their messages. A computation that may throw returns
  \<open>Inl\<close> of the exception or \<open>Inr\<close> of its result; \<open>res_bind\<close> is sequencing, which stops at
  the first exception as unwinding does.
\<close>

datatype cpp_exception =
    Out_of_range string
  | Runtime_error string
  | Invalid_argument string

text \<open>The message of an exception, \<open>std::exception::what\<close>.\<close>

fun what :: "cpp_exception \<Rightarrow> string" where
  "what (Out_of_range m) = m"
| "what (Runtime_error m) = m"
| "what (Invalid_argument m) = m"

type_synonym 'a result = "cpp_exception + 'a"

definition res_bind :: "'a result \<Rightarrow> ('a \<Rightarrow> 'b result) \<Rightarrow> 'b result" where
  "res_bind m f = (case m of Inl e \<Rightarrow> Inl e | Inr x \<Rightarrow> f x)"

lemma res_bind_simps [simp]:
  "res_bind (Inl e) f = Inl e"
  "res_bind (Inr x) f = f x"
  by (simp_all add: res_bind_def)

lemma res_bind_eq_Inr:
  "res_bind m f = Inr y \<longleftrightarrow> (\<exists>x. m = Inr x \<and> f x = Inr y)"
  by (cases m) auto

lemma res_bind_eq_Inl:
  "res_bind m f = Inl e \<longleftrightarrow> m = Inl e \<or> (\<exists>x. m = Inr x \<and> f x = Inl e)"
  by (cases m) auto

lemma res_bind_assoc:
  "res_bind (res_bind m f) g = res_bind m (\<lambda>x. res_bind (f x) g)"
  by (cases m) auto

lemma res_bind_Inr_right [simp]: "res_bind m Inr = m"
  by (cases m) auto

lemma res_bind_if:
  "res_bind (if b then m else n) f = (if b then res_bind m f else res_bind n f)"
  by simp

text \<open>A loop over a list whose body may throw.\<close>

primrec res_fold :: "('a \<Rightarrow> 's \<Rightarrow> 's result) \<Rightarrow> 'a list \<Rightarrow> 's \<Rightarrow> 's result" where
  "res_fold f [] s = Inr s"
| "res_fold f (x # xs) s = res_bind (f x s) (res_fold f xs)"

lemma res_fold_append:
  "res_fold f (xs @ ys) s = res_bind (res_fold f xs s) (res_fold f ys)"
  by (induction xs arbitrary: s) (auto simp: res_bind_def split: sum.splits)

lemma res_fold_total:
  "(\<And>x s. x \<in> set xs \<Longrightarrow> f x s = Inr (g x s)) \<Longrightarrow> res_fold f xs s = Inr (fold g xs s)"
  by (induction xs arbitrary: s) simp_all

lemma res_fold_succeeds:
  "(\<And>x s. x \<in> set xs \<Longrightarrow> \<exists>s'. f x s = Inr s') \<Longrightarrow> \<exists>s'. res_fold f xs s = Inr s'"
proof (induction xs arbitrary: s)
  case Nil
  then show ?case by simp
next
  case (Cons x xs)
  then obtain s1 where "f x s = Inr s1" by (meson list.set_intros(1))
  moreover obtain s2 where "res_fold f xs s1 = Inr s2" using Cons by (meson list.set_intros(2))
  ultimately show ?case by simp
qed

text \<open>
  A computation that may also run forever: \<open>None\<close> if it does, otherwise \<open>Some\<close> of its result.
\<close>

type_synonym 'a outcome = "'a result option"

definition out_bind :: "'a outcome \<Rightarrow> ('a \<Rightarrow> 'b outcome) \<Rightarrow> 'b outcome" where
  "out_bind m f = (case m of None \<Rightarrow> None | Some (Inl e) \<Rightarrow> Some (Inl e) | Some (Inr x) \<Rightarrow> f x)"

lemma out_bind_simps [simp]:
  "out_bind None f = None" "out_bind (Some (Inl e)) f = Some (Inl e)"
  "out_bind (Some (Inr x)) f = f x"
  by (simp_all add: out_bind_def)

section \<open>Collections\<close>

text \<open>
  \<open>decode_fields\<close> collects what is known of the fields the decoder extracts,
  \<open>cpu_frame\<close> which fields of the CPU an operation leaves alone, and \<open>latch_defs\<close> the
  definitions to unfold when a stage is executed symbolically.
\<close>

named_theorems decode_fields
named_theorems cpu_frame
named_theorems latch_defs

section \<open>Words\<close>

lemma mask_shift_eq: "push_bit n (1 :: 'a::len word) - 1 = mask n"
  by (simp add: mask_eq_exp_minus_1 push_bit_eq_mult)

lemma unat_ucast_less:
  fixes w :: "'a::len word"
  assumes "unat w < 2 ^ LENGTH('b)"
  shows "unat (ucast w :: 'b::len word) = unat w"
  using assms by (simp add: unsigned_ucast_eq take_bit_nat_eq_self)

lemma unat_add_no_wrap:
  fixes a b :: "'a::len word"
  assumes "unat a + unat b < 2 ^ LENGTH('a)"
  shows "unat (a + b) = unat a + unat b"
  using assms by (simp add: unat_word_ariths)

lemma unat_add_numeral32:
  fixes a :: u32
  assumes "unat a + n < 2 ^ 32"
  shows "unat (a + of_nat n) = unat a + n"
proof -
  have "unat (of_nat n :: u32) = n"
    using assms by (simp add: unsigned_of_nat take_bit_nat_eq_self)
  then show ?thesis
    using assms by (simp add: unat_add_no_wrap)
qed

section \<open>Lists updated by index\<close>

lemma nth_list_update_if:
  "i < length xs \<Longrightarrow> xs[i := x] ! j = (if i = j then x else xs ! j)"
  by (cases "j = i") simp_all

lemma list_all_update:
  "list_all P xs \<Longrightarrow> P x \<Longrightarrow> list_all P (xs[i := x])"
  using set_update_subset_insert[of xs i x] by (auto simp: list_all_iff)

section \<open>Overwriting a segment of a list\<close>

definition splice_at :: "'a list \<Rightarrow> nat \<Rightarrow> 'a list \<Rightarrow> 'a list" where
  "splice_at xs a ys = take a xs @ ys @ drop (a + length ys) xs"

lemma splice_at_Nil [simp]: "splice_at xs a [] = xs"
  by (simp add: splice_at_def)

lemma length_splice_at [simp]:
  "a + length ys \<le> length xs \<Longrightarrow> length (splice_at xs a ys) = length xs"
  by (simp add: splice_at_def)

lemma nth_splice_at:
  assumes "a + length ys \<le> length xs" and "i < length xs"
  shows "splice_at xs a ys ! i =
     (if a \<le> i \<and> i < a + length ys then ys ! (i - a) else xs ! i)"
  using assms by (auto simp: splice_at_def nth_append min_def)

lemma splice_at_Cons:
  assumes "a + length (y # ys) \<le> length xs"
  shows "splice_at xs a (y # ys) = splice_at (xs[a := y]) (Suc a) ys"
proof (rule nth_equalityI)
  show len: "length (splice_at xs a (y # ys)) = length (splice_at (xs[a := y]) (Suc a) ys)"
    using assms by simp
  fix i assume "i < length (splice_at xs a (y # ys))"
  then have i: "i < length xs" using assms by simp
  have right: "splice_at (xs[a := y]) (Suc a) ys ! i =
      (if Suc a \<le> i \<and> i < Suc a + length ys then ys ! (i - Suc a) else xs[a := y] ! i)"
    using assms i by (subst nth_splice_at) simp_all
  have left: "splice_at xs a (y # ys) ! i =
      (if a \<le> i \<and> i < a + length (y # ys) then (y # ys) ! (i - a) else xs ! i)"
    using assms i by (subst nth_splice_at) simp_all
  show "splice_at xs a (y # ys) ! i = splice_at (xs[a := y]) (Suc a) ys ! i"
    unfolding left right using i by (cases "i = a") (auto simp: nth_Cons')
qed

lemma take_drop_splice_same:
  "a + length ys \<le> length xs \<Longrightarrow> take (length ys) (drop a (splice_at xs a ys)) = ys"
  by (simp add: splice_at_def)

lemma take_drop_splice_other:
  assumes "a + length ys \<le> length xs" and "b + n \<le> a \<or> a + length ys \<le> b"
  shows "take n (drop b (splice_at xs a ys)) = take n (drop b xs)"
proof (rule nth_equalityI)
  show "length (take n (drop b (splice_at xs a ys))) = length (take n (drop b xs))"
    using assms(1) by simp
  fix i assume "i < length (take n (drop b (splice_at xs a ys)))"
  then have "i < n" and "b + i < length xs" using assms(1) by auto
  then show "take n (drop b (splice_at xs a ys)) ! i = take n (drop b xs) ! i"
    using assms by (auto simp: nth_splice_at)
qed

section \<open>Little-endian bytes\<close>

primrec le_value :: "u8 list \<Rightarrow> 'a::len word" where
  "le_value [] = 0"
| "le_value (b # bs) = ucast b OR push_bit 8 (le_value bs)"

primrec le_bytes :: "nat \<Rightarrow> 'a::len word \<Rightarrow> u8 list" where
  "le_bytes 0 w = []"
| "le_bytes (Suc n) w = ucast w # le_bytes n (drop_bit 8 w)"

lemma length_le_bytes [simp]: "length (le_bytes n w) = n"
  by (induction n arbitrary: w) simp_all

lemma le_value_le_bytes: "le_value (le_bytes n w) = take_bit (8 * n) w"
proof (induction n arbitrary: w)
  case 0
  then show ?case by simp
next
  case (Suc n)
  have "ucast (ucast w :: u8) OR push_bit 8 (take_bit (8 * n) (drop_bit 8 w))
      = take_bit (8 * Suc n) w"
    by (rule bit_word_eqI) (auto simp: bit_simps)
  then show ?case by (simp add: Suc.IH)
qed

lemma le_value_le_bytes_full:
  fixes w :: "'a::len word"
  shows "8 * n = LENGTH('a) \<Longrightarrow> le_value (le_bytes n w) = w"
  by (simp add: le_value_le_bytes take_bit_word_eq_self)

lemma bit_le_value:
  "bit (le_value bs :: 'a::len word) n \<longleftrightarrow>
     n < LENGTH('a) \<and> n div 8 < length bs \<and> bit (bs ! (n div 8)) (n mod 8)"
proof (induction bs arbitrary: n)
  case Nil
  then show ?case by simp
next
  case (Cons b bs)
  show ?case
  proof (cases "n < 8")
    case True
    then show ?thesis by (auto simp: bit_simps)
  next
    case False
    then have "n div 8 = Suc ((n - 8) div 8)" and "(n - 8) mod 8 = n mod 8"
      by (simp_all add: le_div_geq le_mod_geq)
    moreover have "\<not> bit b n"
      using False bit_imp_le_length[of b n] by auto
    ultimately show ?thesis
      using False by (auto simp: bit_simps Cons.IH)
  qed
qed

lemma le_bytes_le_value:
  fixes bs :: "u8 list"
  assumes "8 * length bs \<le> LENGTH('a::len)"
  shows "le_bytes (length bs) (le_value bs :: 'a word) = bs"
  using assms
proof (induction bs)
  case Nil
  then show ?case by simp
next
  case (Cons b bs)
  have "ucast (le_value (b # bs) :: 'a word) = b"
    using Cons.prems by (intro bit_word_eqI) (auto simp: bit_simps)
  moreover have "drop_bit 8 (le_value (b # bs) :: 'a word) = le_value bs"
  proof (rule bit_word_eqI)
    fix n assume "n < LENGTH('a)"
    have "bit (le_value bs :: 'a word) n \<Longrightarrow> 8 + n < LENGTH('a)"
      using Cons.prems unfolding bit_le_value by (auto simp: div_less_iff_less_mult)
    then show "bit (drop_bit 8 (le_value (b # bs) :: 'a word)) n = bit (le_value bs :: 'a word) n"
      by (auto simp: bit_simps dest: bit_imp_le_length)
  qed
  ultimately show ?case
    using Cons by simp
qed

end
