(* ===== verification/Branch_Predictor.thy ===== *)
theory Branch_Predictor
  imports Prelude
begin

text \<open>
  \<open>include/config.hpp\<close>, \<open>include/branch_predictor.hpp\<close> and \<open>src/branch_predictor.cpp\<close>: the run
  configuration and the predictor of conditional branches, two static policies and a table of
  64 two-bit saturating counters indexed by the branch's address.
\<close>

unbundle bit_operations_syntax

section \<open>Configuration\<close>

datatype BranchPredictorType = AlwaysNotTaken | AlwaysTaken | TwoBitSaturating

record Config =
  enable_forwarding :: bool
  branch_predictor_type :: BranchPredictorType

text \<open>The default member initialisers.\<close>

definition default_Config :: Config where
  "default_Config = \<lparr>enable_forwarding = True, branch_predictor_type = TwoBitSaturating\<rparr>"

section \<open>Counter states\<close>

datatype SaturatingCounterState =
  StronglyNotTaken | WeaklyNotTaken | WeaklyTaken | StronglyTaken

fun counter_code :: "SaturatingCounterState \<Rightarrow> u8" where
  "counter_code StronglyNotTaken = 0"
| "counter_code WeaklyNotTaken = 1"
| "counter_code WeaklyTaken = 2"
| "counter_code StronglyTaken = 3"

text \<open>
  The enumerators are ordered as their codes are: from the strongest "not taken" to the
  strongest "taken".
\<close>

instantiation SaturatingCounterState :: linorder
begin

definition less_eq_SaturatingCounterState ::
  "SaturatingCounterState \<Rightarrow> SaturatingCounterState \<Rightarrow> bool" where
  "s \<le> t \<longleftrightarrow> counter_code s \<le> counter_code t"

definition less_SaturatingCounterState ::
  "SaturatingCounterState \<Rightarrow> SaturatingCounterState \<Rightarrow> bool" where
  "s < t \<longleftrightarrow> counter_code s < counter_code t"

instance
proof
  fix x y z :: SaturatingCounterState
  have inj: "counter_code x = counter_code y \<Longrightarrow> x = y"
    by (cases x; cases y) simp_all
  show "x < y \<longleftrightarrow> x \<le> y \<and> \<not> y \<le> x"
    unfolding less_eq_SaturatingCounterState_def less_SaturatingCounterState_def by auto
  show "x \<le> x" unfolding less_eq_SaturatingCounterState_def by simp
  show "x \<le> y \<Longrightarrow> y \<le> z \<Longrightarrow> x \<le> z"
    unfolding less_eq_SaturatingCounterState_def by simp
  show "x \<le> y \<Longrightarrow> y \<le> x \<Longrightarrow> x = y"
    unfolding less_eq_SaturatingCounterState_def using inj by simp
  show "x \<le> y \<or> y \<le> x"
    unfolding less_eq_SaturatingCounterState_def by (rule linear)
qed

end

text \<open>
  \<open>static_cast<SaturatingCounterState>\<close> of a stored byte; the bytes in the table are at most 3
  (lemma \<open>update_bounded\<close>), so the last case stands for the value 3 only.
\<close>

definition counter_of_code :: "u8 \<Rightarrow> SaturatingCounterState" where
  "counter_of_code c =
     (if c = 0 then StronglyNotTaken else if c = 1 then WeaklyNotTaken
      else if c = 2 then WeaklyTaken else StronglyTaken)"

definition kWeaklyNotTaken :: u8 where "kWeaklyNotTaken = counter_code WeaklyNotTaken"
definition kWeaklyTaken :: u8 where "kWeaklyTaken = counter_code WeaklyTaken"
definition kStronglyTaken :: u8 where "kStronglyTaken = counter_code StronglyTaken"

section \<open>The predictor\<close>

definition kEntryCount :: nat where "kEntryCount = 64"

record BranchPredictor =
  counters :: "u8 list"

definition reset_predictor :: "BranchPredictor \<Rightarrow> BranchPredictor" where
  "reset_predictor bp = bp\<lparr>counters := replicate kEntryCount kWeaklyNotTaken\<rparr>"

text \<open>The constructor value-initialises the array, then resets it.\<close>

definition new_predictor :: BranchPredictor where
  "new_predictor = reset_predictor \<lparr>counters = replicate kEntryCount 0\<rparr>"

definition index_for :: "u32 \<Rightarrow> nat" where
  "index_for branch_pc = unat (drop_bit 2 branch_pc) mod kEntryCount"

fun predict :: "BranchPredictor \<Rightarrow> u32 \<Rightarrow> BranchPredictorType \<Rightarrow> bool" where
  "predict bp branch_pc AlwaysNotTaken = False"
| "predict bp branch_pc AlwaysTaken = True"
| "predict bp branch_pc TwoBitSaturating =
     (counters bp ! index_for branch_pc \<ge> kWeaklyTaken)"

definition update_predictor ::
  "BranchPredictor \<Rightarrow> u32 \<Rightarrow> bool \<Rightarrow> BranchPredictorType \<Rightarrow> BranchPredictor" where
  "update_predictor bp branch_pc actual_taken type =
     (if type \<noteq> TwoBitSaturating then bp
      else let i = index_for branch_pc; counter = counters bp ! i in
        if actual_taken then
          (if counter < kStronglyTaken then bp\<lparr>counters := (counters bp)[i := counter + 1]\<rparr> else bp)
        else if counter > 0 then bp\<lparr>counters := (counters bp)[i := counter - 1]\<rparr> else bp)"

definition counter_state :: "BranchPredictor \<Rightarrow> u32 \<Rightarrow> SaturatingCounterState" where
  "counter_state bp branch_pc = counter_of_code (counters bp ! index_for branch_pc)"

fun branch_predictor_type_name :: "BranchPredictorType \<Rightarrow> string" where
  "branch_predictor_type_name AlwaysNotTaken = ''always-not-taken''"
| "branch_predictor_type_name AlwaysTaken = ''always-taken''"
| "branch_predictor_type_name TwoBitSaturating = ''two-bit''"

lemma taken_side [simp]:
  "WeaklyTaken \<le> s \<longleftrightarrow> s = WeaklyTaken \<or> s = StronglyTaken"
  by (cases s) (simp_all add: less_eq_SaturatingCounterState_def word_le_nat_alt)

section \<open>The abstract counter and its interface\<close>

text \<open>
  What one slot of the table promises: a four-state machine that moves one state towards each
  outcome and saturates.
\<close>

fun train :: "SaturatingCounterState \<Rightarrow> bool \<Rightarrow> SaturatingCounterState" where
  "train StronglyNotTaken taken = (if taken then WeaklyNotTaken else StronglyNotTaken)"
| "train WeaklyNotTaken taken = (if taken then WeaklyTaken else StronglyNotTaken)"
| "train WeaklyTaken taken = (if taken then StronglyTaken else WeaklyNotTaken)"
| "train StronglyTaken taken = (if taken then StronglyTaken else WeaklyTaken)"

text \<open>
  The interface the pipeline relies on: a predictor state seen through the counter of each
  branch address, trained through the slot the address shares.
\<close>

locale counter_table =
  fixes inv :: "'p \<Rightarrow> bool"
    and look :: "'p \<Rightarrow> u32 \<Rightarrow> SaturatingCounterState"
    and pred :: "'p \<Rightarrow> u32 \<Rightarrow> bool"
    and upd :: "'p \<Rightarrow> u32 \<Rightarrow> bool \<Rightarrow> 'p"
    and slot :: "u32 \<Rightarrow> nat"
  assumes inv_upd: "inv p \<Longrightarrow> inv (upd p a t)"
    and look_upd: "inv p \<Longrightarrow>
          look (upd p a t) b = (if slot b = slot a then train (look p a) t else look p b)"
    and pred_look: "inv p \<Longrightarrow> pred p a \<longleftrightarrow> WeaklyTaken \<le> look p a"
begin

text \<open>Running one branch through a list of outcomes, and counting the wrong predictions.\<close>

primrec trained :: "'p \<Rightarrow> u32 \<Rightarrow> bool list \<Rightarrow> 'p" where
  "trained p a [] = p"
| "trained p a (t # ts) = trained (upd p a t) a ts"

primrec misses :: "'p \<Rightarrow> u32 \<Rightarrow> bool list \<Rightarrow> nat" where
  "misses p a [] = 0"
| "misses p a (t # ts) = (if pred p a = t then 0 else 1) + misses (upd p a t) a ts"

lemma inv_trained: "inv p \<Longrightarrow> inv (trained p a ts)"
  by (induction ts arbitrary: p) (simp_all add: inv_upd)

lemma look_trained: "inv p \<Longrightarrow> look (trained p a ts) a = foldl train (look p a) ts"
  by (induction ts arbitrary: p) (simp_all add: inv_upd look_upd)

lemma misses_append:
  "misses p a (ts @ us) = misses p a ts + misses (trained p a ts) a us"
  by (induction ts arbitrary: p) simp_all

lemma other_slot_kept:
  "inv p \<Longrightarrow> slot b \<noteq> slot a \<Longrightarrow> look (trained p a ts) b = look p b"
  by (induction ts arbitrary: p) (simp_all add: inv_upd look_upd)

text \<open>From a counter that predicts a direction, outcomes in that direction are all right.\<close>

lemma steady_misses:
  assumes "inv p" and "pred p a = t"
  shows "misses p a (replicate n t) = 0"
  using assms
proof (induction n arbitrary: p)
  case 0
  then show ?case by simp
next
  case (Suc n)
  have "pred (upd p a t) a = t"
    using Suc.prems pred_look[OF Suc.prems(1)] pred_look[OF inv_upd[OF Suc.prems(1)]]
      look_upd[OF Suc.prems(1)]
    by (cases "look p a"; cases t) auto
  with Suc show ?case by (simp add: inv_upd)
qed

text \<open>A constant direction is learnt after at most two wrong predictions.\<close>

lemma learning_misses:
  assumes "inv p"
  shows "misses p a (replicate n t) \<le> 2"
proof -
  have two: "pred (upd (upd p a t) a t) a = t"
    using assms pred_look[OF inv_upd[OF inv_upd[OF assms]]]
      look_upd[OF assms] look_upd[OF inv_upd[OF assms]]
    by (cases "look p a"; cases t) auto
  show ?thesis
  proof (cases "n < 2")
    case True
    then have "n = 0 \<or> n = 1" by auto
    then show ?thesis by auto
  next
    case False
    then obtain m where n: "n = Suc (Suc m)"
      by (metis add_2_eq_Suc le_add_diff_inverse not_less)
    have "misses (upd (upd p a t) a t) a (replicate m t) = 0"
      by (rule steady_misses) (simp_all add: two inv_upd assms)
    then show ?thesis by (simp add: n)
  qed
qed

text \<open>
  A loop branch, taken at least once and then left: after the pass the counter is still on the
  taken side, so every later pass costs one wrong prediction again.
\<close>

lemma train_taken_side:
  assumes "WeaklyTaken \<le> s" "0 < n"
  shows "foldl train s (replicate n True) = StronglyTaken"
proof -
  have "foldl train StronglyTaken (replicate m True) = StronglyTaken" for m
    by (induction m) simp_all
  moreover have "train s True = StronglyTaken" using assms(1) by auto
  ultimately show ?thesis using assms(2) by (cases n) simp_all
qed

lemma loop_pass:
  assumes "inv p" "WeaklyTaken \<le> look p a" "0 < n"
  shows "misses p a (replicate n True @ [False]) = 1"
    "WeaklyTaken \<le> look (trained p a (replicate n True @ [False])) a"
proof -
  have strong: "look (trained p a (replicate n True)) a = StronglyTaken"
    using train_taken_side[OF assms(2,3)] by (simp add: look_trained assms(1))
  have "misses p a (replicate n True) = 0"
    using assms(1,2) by (intro steady_misses) (simp_all only: pred_look)
  then show "misses p a (replicate n True @ [False]) = 1"
    using strong assms(1) by (simp add: misses_append inv_trained pred_look)
  show "WeaklyTaken \<le> look (trained p a (replicate n True @ [False])) a"
    using train_taken_side[OF assms(2,3)] by (simp add: look_trained assms(1))
qed

lemma trained_append: "trained p a (ts @ us) = trained (trained p a ts) a us"
  by (induction ts arbitrary: p) simp_all

lemma loop_passes:
  assumes "inv p" "WeaklyTaken \<le> look p a" "0 \<notin> set ns"
  shows "misses p a (concat (map (\<lambda>n. replicate n True @ [False]) ns)) = length ns"
    "WeaklyTaken \<le> look (trained p a (concat (map (\<lambda>n. replicate n True @ [False]) ns))) a"
proof -
  have "misses p a (concat (map (\<lambda>n. replicate n True @ [False]) ns)) = length ns \<and>
      WeaklyTaken \<le> look (trained p a (concat (map (\<lambda>n. replicate n True @ [False]) ns))) a"
    using assms
  proof (induction ns arbitrary: p)
    case Nil
    then show ?case by simp
  next
    case (Cons n ns)
    let ?pass = "replicate n True @ [False]"
    have n: "0 < n" using Cons.prems(3) by (cases n) auto
    note pass = loop_pass[OF Cons.prems(1,2) n]
    have "misses (trained p a ?pass) a (concat (map (\<lambda>n. replicate n True @ [False]) ns)) = length ns \<and>
        WeaklyTaken \<le> look (trained (trained p a ?pass) a
          (concat (map (\<lambda>n. replicate n True @ [False]) ns))) a"
      using Cons.prems(3) by (intro Cons.IH inv_trained Cons.prems(1) pass(2)) simp
    then show ?case
      using pass(1) by (simp only: list.map concat.simps misses_append[of p a ?pass]
          trained_append[of p a ?pass] length_Cons) simp
  qed
  then show "misses p a (concat (map (\<lambda>n. replicate n True @ [False]) ns)) = length ns"
    "WeaklyTaken \<le> look (trained p a (concat (map (\<lambda>n. replicate n True @ [False]) ns))) a"
    by blast+
qed

end

section \<open>The table provides the interface\<close>

definition predictor_ok :: "BranchPredictor \<Rightarrow> bool" where
  "predictor_ok bp \<longleftrightarrow> length (counters bp) = kEntryCount \<and> list_all (\<lambda>c. c \<le> 3) (counters bp)"

lemma index_for_less [simp]: "index_for pc < 64"
  by (simp add: index_for_def kEntryCount_def)

lemma predictor_ok_nth:
  "predictor_ok bp \<Longrightarrow> counters bp ! index_for pc \<le> 3"
  by (simp add: predictor_ok_def kEntryCount_def list_all_length)

lemma counter_cases:
  fixes c :: u8
  assumes "c \<le> 3"
  shows "c = 0 \<or> c = 1 \<or> c = 2 \<or> c = 3"
proof -
  have "unat c \<le> 3"
    using assms by (simp add: word_le_nat_alt)
  then have "unat c = 0 \<or> unat c = 1 \<or> unat c = 2 \<or> unat c = 3"
    by linarith
  then show ?thesis
    by (auto simp: word_unat_eq_iff)
qed

lemma new_predictor_ok: "predictor_ok new_predictor"
  by (simp add: predictor_ok_def new_predictor_def reset_predictor_def kEntryCount_def
      kWeaklyNotTaken_def list_all_length word_le_nat_alt)

lemma reset_predictor_ok: "predictor_ok (reset_predictor bp)"
  by (simp add: predictor_ok_def reset_predictor_def kEntryCount_def kWeaklyNotTaken_def
      list_all_length word_le_nat_alt)

lemma update_bounded:
  assumes "predictor_ok bp"
  shows "predictor_ok (update_predictor bp pc t ty)"
proof -
  let ?c = "counters bp ! index_for pc"
  consider "?c = 0" | "?c = 1" | "?c = 2" | "?c = 3"
    using counter_cases[OF predictor_ok_nth[OF assms]] by blast
  then show ?thesis
    using assms
    by cases (simp_all add: predictor_ok_def update_predictor_def Let_def kStronglyTaken_def
        list_all_update word_le_nat_alt)
qed

lemma counter_state_update:
  assumes "predictor_ok bp"
  shows "counter_state (update_predictor bp a t TwoBitSaturating) b =
     (if index_for b = index_for a then train (counter_state bp a) t else counter_state bp b)"
proof -
  let ?c = "counters bp ! index_for a"
  have len: "length (counters bp) = 64"
    using assms by (simp add: predictor_ok_def kEntryCount_def)
  consider "?c = 0" | "?c = 1" | "?c = 2" | "?c = 3"
    using counter_cases[OF predictor_ok_nth[OF assms]] by blast
  then show ?thesis
    by cases (simp_all add: update_predictor_def Let_def kStronglyTaken_def counter_state_def
        counter_of_code_def nth_list_update_if len)
qed

lemma predict_counter_state:
  assumes "predictor_ok bp"
  shows "predict bp pc TwoBitSaturating \<longleftrightarrow> WeaklyTaken \<le> counter_state bp pc"
  using counter_cases[OF predictor_ok_nth[OF assms, of pc]]
  by (auto simp: counter_state_def counter_of_code_def kWeaklyTaken_def word_le_nat_alt)

interpretation two_bit: counter_table predictor_ok counter_state
  "\<lambda>bp pc. predict bp pc TwoBitSaturating"
  "\<lambda>bp pc t. update_predictor bp pc t TwoBitSaturating" index_for
  by unfold_locales
    (simp_all only: update_bounded counter_state_update predict_counter_state)

end
