(* ===== verification/Decoder.thy ===== *)
theory Decoder
  imports Prelude
begin

text \<open>
  \<open>include/decoder.hpp\<close> and \<open>src/decoder.cpp\<close>: extraction of the fields of an instruction word
  and sign extension, then what the extracted fields are bit for bit and which values they can
  take.
\<close>

unbundle bit_operations_syntax

section \<open>Fields of the six formats\<close>

record RTypeFields =
  r_opcode :: u8
  r_rd :: u8
  r_funct3 :: u8
  r_rs1 :: u8
  r_rs2 :: u8
  r_funct7 :: u8

record ITypeFields =
  i_opcode :: u8
  i_rd :: u8
  i_funct3 :: u8
  i_rs1 :: u8
  i_imm :: i32

record STypeFields =
  s_opcode :: u8
  s_funct3 :: u8
  s_rs1 :: u8
  s_rs2 :: u8
  s_imm :: i32

record BTypeFields =
  b_opcode :: u8
  b_funct3 :: u8
  b_rs1 :: u8
  b_rs2 :: u8
  b_imm :: i32

record UTypeFields =
  u_opcode :: u8
  u_rd :: u8
  u_imm :: u32

record JTypeFields =
  j_opcode :: u8
  j_rd :: u8
  j_imm :: i32

section \<open>Extraction\<close>

text \<open>
  \<open>bits\<close> is called with \<open>low_bit \<le> high_bit < 32\<close> and a width below 32 only, so no shift
  reaches the width of the word (which C++ leaves undefined).
\<close>

definition bits :: "u32 \<Rightarrow> nat \<Rightarrow> nat \<Rightarrow> u32" where
  "bits value high_bit low_bit =
     (let width = high_bit - low_bit + 1;
          mask = push_bit width 1 - 1
      in drop_bit low_bit value AND mask)"

definition extract_opcode :: "u32 \<Rightarrow> u8" where
  "extract_opcode instruction = ucast (bits instruction 6 0)"

definition extract_rd :: "u32 \<Rightarrow> u8" where
  "extract_rd instruction = ucast (bits instruction 11 7)"

definition extract_funct3 :: "u32 \<Rightarrow> u8" where
  "extract_funct3 instruction = ucast (bits instruction 14 12)"

definition extract_rs1 :: "u32 \<Rightarrow> u8" where
  "extract_rs1 instruction = ucast (bits instruction 19 15)"

definition extract_rs2 :: "u32 \<Rightarrow> u8" where
  "extract_rs2 instruction = ucast (bits instruction 24 20)"

definition extract_funct7 :: "u32 \<Rightarrow> u8" where
  "extract_funct7 instruction = ucast (bits instruction 31 25)"

definition sign_extend :: "u32 \<Rightarrow> nat \<Rightarrow> i32" where
  "sign_extend value bit_count =
     (let sign_bit = push_bit (bit_count - 1) 1;
          mask = push_bit bit_count 1 - 1;
          value = value AND mask
      in if value AND sign_bit = 0 then value else value OR NOT mask)"

definition decode_r_type :: "u32 \<Rightarrow> RTypeFields" where
  "decode_r_type instruction =
     \<lparr>r_opcode = extract_opcode instruction,
      r_rd = extract_rd instruction,
      r_funct3 = extract_funct3 instruction,
      r_rs1 = extract_rs1 instruction,
      r_rs2 = extract_rs2 instruction,
      r_funct7 = extract_funct7 instruction\<rparr>"

definition decode_i_type :: "u32 \<Rightarrow> ITypeFields" where
  "decode_i_type instruction =
     (let imm = bits instruction 31 20 in
     \<lparr>i_opcode = extract_opcode instruction,
      i_rd = extract_rd instruction,
      i_funct3 = extract_funct3 instruction,
      i_rs1 = extract_rs1 instruction,
      i_imm = sign_extend imm 12\<rparr>)"

definition decode_s_type :: "u32 \<Rightarrow> STypeFields" where
  "decode_s_type instruction =
     (let imm = push_bit 5 (bits instruction 31 25) OR bits instruction 11 7 in
     \<lparr>s_opcode = extract_opcode instruction,
      s_funct3 = extract_funct3 instruction,
      s_rs1 = extract_rs1 instruction,
      s_rs2 = extract_rs2 instruction,
      s_imm = sign_extend imm 12\<rparr>)"

definition decode_b_type :: "u32 \<Rightarrow> BTypeFields" where
  "decode_b_type instruction =
     (let imm = push_bit 12 (bits instruction 31 31) OR push_bit 11 (bits instruction 7 7) OR
                push_bit 5 (bits instruction 30 25) OR push_bit 1 (bits instruction 11 8) in
     \<lparr>b_opcode = extract_opcode instruction,
      b_funct3 = extract_funct3 instruction,
      b_rs1 = extract_rs1 instruction,
      b_rs2 = extract_rs2 instruction,
      b_imm = sign_extend imm 13\<rparr>)"

definition decode_u_type :: "u32 \<Rightarrow> UTypeFields" where
  "decode_u_type instruction =
     \<lparr>u_opcode = extract_opcode instruction,
      u_rd = extract_rd instruction,
      u_imm = instruction AND 0xFFFFF000\<rparr>"

definition decode_j_type :: "u32 \<Rightarrow> JTypeFields" where
  "decode_j_type instruction =
     (let imm = push_bit 20 (bits instruction 31 31) OR push_bit 12 (bits instruction 19 12) OR
                push_bit 11 (bits instruction 20 20) OR push_bit 1 (bits instruction 30 21) in
     \<lparr>j_opcode = extract_opcode instruction,
      j_rd = extract_rd instruction,
      j_imm = sign_extend imm 21\<rparr>)"

section \<open>What the fields are\<close>

lemma bits_take_drop:
  "bits value hi lo = take_bit (hi - lo + 1) (drop_bit lo value)"
  unfolding bits_def Let_def mask_shift_eq by (rule take_bit_eq_mask [symmetric])

lemma bit_bits [bit_simps]:
  "bit (bits value hi lo) n \<longleftrightarrow> n < hi - lo + 1 \<and> bit value (lo + n)"
  by (auto simp: bits_take_drop bit_simps)

lemma unat_bits_less: "hi - lo < 31 \<Longrightarrow> unat (bits value hi lo) < 2 ^ (hi - lo + 1)"
  by (simp only: bits_take_drop unsigned_take_bit_eq take_bit_nat_less_exp)

lemma sign_extend_signed_take_bit:
  assumes "0 < n" and "n < 32"
  shows "sign_extend value n = signed_take_bit (n - 1) value"
proof -
  have sign: "(value AND mask n) AND push_bit (n - 1) 1 = 0 \<longleftrightarrow> \<not> bit value (n - 1)"
  proof
    assume "(value AND mask n) AND push_bit (n - 1) 1 = 0"
    then have "\<not> bit ((value AND mask n) AND push_bit (n - 1) 1) (n - 1)" by simp
    then show "\<not> bit value (n - 1)"
      using assms by (auto simp: bit_simps)
  next
    assume "\<not> bit value (n - 1)"
    then show "(value AND mask n) AND push_bit (n - 1) 1 = 0"
      by (intro bit_word_eqI) (auto simp: bit_simps)
  qed
  have "sign_extend value n =
      (if bit value (n - 1) then (value AND mask n) OR NOT (mask n) else value AND mask n)"
    unfolding sign_extend_def Let_def mask_shift_eq sign by simp
  also have "\<dots> = signed_take_bit (n - 1) value"
  proof (rule bit_word_eqI)
    fix i assume "i < LENGTH(32)"
    show "bit (if bit value (n - 1) then (value AND mask n) OR NOT (mask n)
                else value AND mask n) i \<longleftrightarrow> bit (signed_take_bit (n - 1) value) i"
      using assms \<open>i < LENGTH(32)\<close>
      by (cases "i < n - 1"; cases "i = n - 1") (auto simp: bit_simps min_def)
  qed
  finally show ?thesis .
qed

lemma unat_extract [decode_fields, simp]:
  "unat (extract_opcode i) < 128"
  "unat (extract_rd i) < 32"
  "unat (extract_funct3 i) < 8"
  "unat (extract_rs1 i) < 32"
  "unat (extract_rs2 i) < 32"
  "unat (extract_funct7 i) < 128"
proof -
  have field: "unat (ucast (bits i hi lo) :: u8) < 2 ^ (hi - lo + 1)" if "hi - lo < 7" for hi lo
  proof -
    have "unat (bits i hi lo) < 2 ^ (hi - lo + 1)"
      using that by (intro unat_bits_less) simp
    moreover have "(2::nat) ^ (hi - lo + 1) \<le> 2 ^ 8"
      using that by (intro power_increasing) simp_all
    ultimately show ?thesis
      by (subst unat_ucast_less) simp_all
  qed
  show "unat (extract_opcode i) < 128" using field[of 6 0] by (simp add: extract_opcode_def)
  show "unat (extract_rd i) < 32" using field[of 11 7] by (simp add: extract_rd_def)
  show "unat (extract_funct3 i) < 8" using field[of 14 12] by (simp add: extract_funct3_def)
  show "unat (extract_rs1 i) < 32" using field[of 19 15] by (simp add: extract_rs1_def)
  show "unat (extract_rs2 i) < 32" using field[of 24 20] by (simp add: extract_rs2_def)
  show "unat (extract_funct7 i) < 128" using field[of 31 25] by (simp add: extract_funct7_def)
qed

text \<open>The fields as slices of the word.\<close>

lemma bits_slice: "bits i hi lo = drop_bit lo i AND mask (hi - lo + 1)"
  by (simp add: bits_take_drop take_bit_eq_mask)

lemma extract_fields:
  "extract_opcode i = ucast (i AND 0x7F)"
  "extract_rd i = ucast (drop_bit 7 i AND 0x1F)"
  "extract_funct3 i = ucast (drop_bit 12 i AND 0x7)"
  "extract_rs1 i = ucast (drop_bit 15 i AND 0x1F)"
  "extract_rs2 i = ucast (drop_bit 20 i AND 0x1F)"
  "extract_funct7 i = ucast (drop_bit 25 i AND 0x7F)"
  by (simp_all add: extract_opcode_def extract_rd_def extract_funct3_def extract_rs1_def
      extract_rs2_def extract_funct7_def bits_slice mask_eq_exp_minus_1)

text \<open>The immediates as two's-complement values.\<close>

lemma sint_sign_extend:
  assumes "0 < n" and "n < 32"
  shows "sint (sign_extend value n) = signed_take_bit (n - 1) (uint value)"
proof -
  have "sint (signed_take_bit (n - 1) value) = signed_take_bit (n - 1) (uint value)"
  proof (rule bit_eqI)
    fix k
    show "bit (sint (signed_take_bit (n - 1) value)) k
        \<longleftrightarrow> bit (signed_take_bit (n - 1) (uint value)) k"
      using assms by (auto simp: bit_simps bit_sint_iff bit_uint_iff min_def)
  qed
  then show ?thesis
    using assms by (simp add: sign_extend_signed_take_bit)
qed

lemma sint_sign_extend_bounds:
  assumes "0 < n" and "n < 32"
  shows "- (2 ^ (n - 1)) \<le> sint (sign_extend value n)"
    and "sint (sign_extend value n) < 2 ^ (n - 1)"
  using assms
  by (simp_all add: sint_sign_extend signed_take_bit_int_greater_eq_minus_exp
      signed_take_bit_int_less_exp)

lemma i_imm_bounds:
  "- 2048 \<le> sint (i_imm (decode_i_type i))" "sint (i_imm (decode_i_type i)) < 2048"
  using sint_sign_extend_bounds[of 12 "bits i 31 20"]
  by (simp_all add: decode_i_type_def Let_def)

lemma s_imm_bounds:
  "- 2048 \<le> sint (s_imm (decode_s_type i))" "sint (s_imm (decode_s_type i)) < 2048"
  using sint_sign_extend_bounds[of 12]
  by (simp_all add: decode_s_type_def Let_def)

lemma b_imm_bounds:
  "- 4096 \<le> sint (b_imm (decode_b_type i))" "sint (b_imm (decode_b_type i)) < 4096"
  using sint_sign_extend_bounds[of 13]
  by (simp_all add: decode_b_type_def Let_def)

lemma j_imm_bounds:
  "- 1048576 \<le> sint (j_imm (decode_j_type i))" "sint (j_imm (decode_j_type i)) < 1048576"
  using sint_sign_extend_bounds[of 21]
  by (simp_all add: decode_j_type_def Let_def)

text \<open>Branch and jump offsets are even; upper immediates have their low twelve bits clear.\<close>

lemma sign_extend_low_bit:
  assumes "1 < n" and "n < 32"
  shows "bit (sign_extend value n) 0 \<longleftrightarrow> bit value 0"
  using assms by (simp add: sign_extend_signed_take_bit bit_simps min_def)

lemma b_imm_even: "\<not> bit (b_imm (decode_b_type i)) 0"
  by (simp add: decode_b_type_def Let_def sign_extend_low_bit) (simp add: bit_0 even_or_iff even_push_bit_iff)

lemma j_imm_even: "\<not> bit (j_imm (decode_j_type i)) 0"
  by (simp add: decode_j_type_def Let_def sign_extend_low_bit) (simp add: bit_0 even_or_iff even_push_bit_iff)

lemma u_imm_low_clear: "n < 12 \<Longrightarrow> \<not> bit (u_imm (decode_u_type i)) n"
  by (auto simp: decode_u_type_def bit_simps less_Suc_eq numeral_eq_Suc)

lemma u_imm_take_low: "take_bit 12 (u_imm (decode_u_type i)) = 0"
  by (rule bit_word_eqI) (auto simp: bit_take_bit_iff u_imm_low_clear)

section \<open>Fields of a concatenation\<close>

text \<open>
  An instruction word is a disjunction of shifted fields that do not overlap. \<open>bits\<close> distributes
  over the disjunction, vanishes on the fields outside its range and returns the one inside it.
\<close>

lemma bits_or: "bits (x OR y) hi lo = bits x hi lo OR bits y hi lo"
  by (rule bit_word_eqI) (auto simp: bit_simps)

lemma bits_push_above: "hi < k \<Longrightarrow> lo \<le> hi \<Longrightarrow> bits (push_bit k w) hi lo = 0"
  by (rule bit_word_eqI) (auto simp: bit_simps)

lemma bits_push_below:
  assumes "k \<le> lo" and "take_bit (lo - k) w = w"
  shows "bits (push_bit k w) hi lo = 0"
proof (rule bit_word_eqI)
  fix n
  have "\<not> bit w (lo + n - k)"
    using assms by (metis add.commute bit_take_bit_iff diff_add_assoc2 le_add2 not_le)
  then show "bit (bits (push_bit k w) hi lo) n = bit (0 :: u32) n"
    using assms by (auto simp: bit_simps)
qed

lemma bits_push_same:
  assumes "lo \<le> hi" and "hi < 32" and "take_bit (hi - lo + 1) w = w"
  shows "bits (push_bit lo w) hi lo = w"
proof (rule bit_word_eqI)
  fix n
  have "bit w n \<longleftrightarrow> n < hi - lo + 1 \<and> bit w n"
    using assms(3) by (metis bit_take_bit_iff)
  then show "bit (bits (push_bit lo w) hi lo) n = bit w n"
    using assms(1,2) by (auto simp: bit_simps)
qed

lemma bits_low_same: "take_bit (hi + 1) w = w \<Longrightarrow> bits w hi 0 = w"
  by (simp add: bits_take_drop)

lemma bits_low_below: "take_bit lo w = w \<Longrightarrow> bits w hi lo = 0"
  using bits_push_below[of 0 lo w hi] by simp

lemma bits_match:
  assumes "lo \<le> hi" "hi < 32" "take_bit (hi - lo + 1) c = c"
  shows "bits i hi lo = c \<longleftrightarrow> i AND push_bit lo (mask (hi - lo + 1)) = push_bit lo c"
proof
  assume "bits i hi lo = c"
  then show "i AND push_bit lo (mask (hi - lo + 1)) = push_bit lo c"
    by (intro bit_word_eqI) (auto simp: bit_simps)
next
  assume eq: "i AND push_bit lo (mask (hi - lo + 1)) = push_bit lo c"
  have "bits i hi lo = bits (i AND push_bit lo (mask (hi - lo + 1))) hi lo"
    using assms(1,2) by (intro bit_word_eqI) (auto simp: bit_simps)
  also have "\<dots> = c"
    unfolding eq using assms by (rule bits_push_same)
  finally show "bits i hi lo = c" .
qed

lemma bits_eq_ucast:
  fixes c :: u8
  assumes "hi - lo < 8"
  shows "ucast (bits i hi lo) = c \<longleftrightarrow> bits i hi lo = ucast c"
proof
  assume "ucast (bits i hi lo) = c"
  then show "bits i hi lo = ucast c"
    using assms by (intro bit_word_eqI) (auto simp: bit_simps)
next
  assume "bits i hi lo = ucast c"
  then show "ucast (bits i hi lo) = c"
    by simp (rule bit_word_eqI, simp add: bit_simps)
qed

text \<open>An immediate within its signed range survives sign extension of its low bits.\<close>

lemma signed_take_bit_same:
  fixes w :: u32
  assumes "n < 31" and "- (2 ^ n) \<le> sint w" and "sint w < 2 ^ n"
  shows "signed_take_bit n w = w"
proof -
  have "sint (signed_take_bit n w) = signed_take_bit n (sint w)"
    using assms(1) by (intro bit_eqI) (auto simp: bit_simps bit_sint_iff min_def)
  also have "\<dots> = sint w"
    using assms(2,3) by (rule signed_take_bit_int_eq_self)
  finally show ?thesis by (rule signed_word_eqI)
qed

lemma sign_extend_take_bit:
  assumes "0 < n" and "n < 31" and "take_bit n v = take_bit n w"
    and "- (2 ^ (n - 1)) \<le> sint w" and "sint w < 2 ^ (n - 1)"
  shows "sign_extend v n = w"
proof -
  have "signed_take_bit (n - 1) v = signed_take_bit (n - 1) w"
    using assms(1,3) by (metis signed_take_bit_eq_iff_take_bit_eq Suc_pred')
  then show ?thesis
    using assms by (simp add: sign_extend_signed_take_bit signed_take_bit_same)
qed

lemma take_bit_sign_extend:
  assumes "0 < n" and "n < 32"
  shows "take_bit n (sign_extend v n) = take_bit n v"
proof -
  obtain m where "n = Suc m" using assms(1) by (cases n) simp_all
  then show ?thesis
    using assms by (simp add: sign_extend_signed_take_bit take_bit_signed_take_bit)
qed

text \<open>Sign extension keeps the low bits and copies the sign bit above them.\<close>

lemma sign_extend_two_complement:
  assumes "0 < n" "n < 32"
  shows "sint (sign_extend v n) = signed_take_bit (n - 1) (uint v) \<and>
    - (2 ^ (n - 1)) \<le> sint (sign_extend v n) \<and> sint (sign_extend v n) < 2 ^ (n - 1)"
  using sint_sign_extend[OF assms] sint_sign_extend_bounds[OF assms] by blast

text \<open>
  The immediates of the six formats lie in their ranges; branch and jump offsets are even, upper
  immediates have their low twelve bits clear.
\<close>

lemma immediate_ranges:
  "- 2048 \<le> sint (i_imm (decode_i_type i)) \<and> sint (i_imm (decode_i_type i)) < 2048 \<and>
   - 2048 \<le> sint (s_imm (decode_s_type i)) \<and> sint (s_imm (decode_s_type i)) < 2048 \<and>
   - 4096 \<le> sint (b_imm (decode_b_type i)) \<and> sint (b_imm (decode_b_type i)) < 4096 \<and>
   - 1048576 \<le> sint (j_imm (decode_j_type i)) \<and> sint (j_imm (decode_j_type i)) < 1048576 \<and>
   \<not> bit (b_imm (decode_b_type i)) 0 \<and> \<not> bit (j_imm (decode_j_type i)) 0 \<and>
   take_bit 12 (u_imm (decode_u_type i)) = 0"
  using i_imm_bounds s_imm_bounds b_imm_bounds j_imm_bounds b_imm_even j_imm_even
  by (simp add: u_imm_take_low)

end
