(* ===== verification/Pipeline_Registers.thy ===== *)
theory Pipeline_Registers
  imports Prelude
begin

text \<open>
  \<open>include/pipeline_registers.hpp\<close>: the enumerations and control signals an instruction carries
  down the pipeline, the four latches between the stages and the register file of latches with
  its current and next values.
\<close>

section \<open>Enumerations\<close>

datatype InstructionFormat =
  Fmt_Unknown | Fmt_R | Fmt_I | Fmt_S | Fmt_B | Fmt_U | Fmt_J

datatype ALUOp =
  ALU_None | ALU_Add | ALU_Sub | ALU_And | ALU_Or | ALU_Xor | ALU_Sll | ALU_Srl | ALU_Sra
| ALU_Slt | ALU_Sltu

datatype WritebackSource =
  WB_None | WB_ALU | WB_Memory | WB_PCPlus4 | WB_Immediate

datatype BranchCondition =
  BC_None | BC_Equal | BC_NotEqual | BC_LessThan | BC_GreaterOrEqual
| BC_LessThanUnsigned | BC_GreaterOrEqualUnsigned

datatype MemoryAccessWidth =
  MW_None | MW_Byte | MW_HalfWord | MW_Word

section \<open>Control signals\<close>

record ControlSignals =
  reg_write :: bool
  mem_read :: bool
  mem_write :: bool
  branch :: bool
  jump :: bool
  alu_src_pc :: bool
  alu_src_imm :: bool
  mem_unsigned :: bool
  halt_signal :: bool
  alu_op :: ALUOp
  writeback_source :: WritebackSource
  branch_condition :: BranchCondition
  memory_width :: MemoryAccessWidth

definition no_signals :: ControlSignals where
  "no_signals =
     \<lparr>reg_write = False, mem_read = False, mem_write = False, branch = False, jump = False,
      alu_src_pc = False, alu_src_imm = False, mem_unsigned = False, halt_signal = False,
      alu_op = ALU_None, writeback_source = WB_None, branch_condition = BC_None,
      memory_width = MW_None\<rparr>"

section \<open>Latches\<close>

record IFIDRegister =
  ifid_valid :: bool
  ifid_pc :: u32
  ifid_instruction :: u32
  ifid_predicted_taken :: bool
  ifid_predicted_next_pc :: u32

definition empty_IFID :: IFIDRegister where
  "empty_IFID =
     \<lparr>ifid_valid = False, ifid_pc = 0, ifid_instruction = 0, ifid_predicted_taken = False,
      ifid_predicted_next_pc = 0\<rparr>"

record IDEXRegister =
  idex_valid :: bool
  idex_pc :: u32
  idex_instruction :: u32
  idex_predicted_taken :: bool
  idex_predicted_next_pc :: u32
  idex_format :: InstructionFormat
  idex_rd :: u8
  idex_rs1 :: u8
  idex_rs2 :: u8
  idex_funct3 :: u8
  idex_funct7 :: u8
  idex_immediate :: i32
  idex_rs1_value :: u32
  idex_rs2_value :: u32
  idex_control :: ControlSignals

definition empty_IDEX :: IDEXRegister where
  "empty_IDEX =
     \<lparr>idex_valid = False, idex_pc = 0, idex_instruction = 0, idex_predicted_taken = False,
      idex_predicted_next_pc = 0, idex_format = Fmt_Unknown, idex_rd = 0, idex_rs1 = 0,
      idex_rs2 = 0, idex_funct3 = 0, idex_funct7 = 0, idex_immediate = 0, idex_rs1_value = 0,
      idex_rs2_value = 0, idex_control = no_signals\<rparr>"

record EXMEMRegister =
  exmem_valid :: bool
  exmem_pc :: u32
  exmem_instruction :: u32
  exmem_rd :: u8
  exmem_alu_result :: u32
  exmem_store_value :: u32
  exmem_pc_plus_4 :: u32
  exmem_immediate :: u32
  exmem_branch_target :: u32
  exmem_branch_taken :: bool
  exmem_control :: ControlSignals

definition empty_EXMEM :: EXMEMRegister where
  "empty_EXMEM =
     \<lparr>exmem_valid = False, exmem_pc = 0, exmem_instruction = 0, exmem_rd = 0,
      exmem_alu_result = 0, exmem_store_value = 0, exmem_pc_plus_4 = 0, exmem_immediate = 0,
      exmem_branch_target = 0, exmem_branch_taken = False, exmem_control = no_signals\<rparr>"

record MEMWBRegister =
  memwb_valid :: bool
  memwb_pc :: u32
  memwb_instruction :: u32
  memwb_rd :: u8
  memwb_alu_result :: u32
  memwb_memory_data :: u32
  memwb_pc_plus_4 :: u32
  memwb_immediate :: u32
  memwb_control :: ControlSignals

definition empty_MEMWB :: MEMWBRegister where
  "empty_MEMWB =
     \<lparr>memwb_valid = False, memwb_pc = 0, memwb_instruction = 0, memwb_rd = 0,
      memwb_alu_result = 0, memwb_memory_data = 0, memwb_pc_plus_4 = 0, memwb_immediate = 0,
      memwb_control = no_signals\<rparr>"

record PipelineRegisters =
  if_id :: IFIDRegister
  id_ex :: IDEXRegister
  ex_mem :: EXMEMRegister
  mem_wb :: MEMWBRegister
  next_if_id :: IFIDRegister
  next_id_ex :: IDEXRegister
  next_ex_mem :: EXMEMRegister
  next_mem_wb :: MEMWBRegister

definition commit :: "PipelineRegisters \<Rightarrow> PipelineRegisters" where
  "commit p = p\<lparr>if_id := next_if_id p, id_ex := next_id_ex p,
                ex_mem := next_ex_mem p, mem_wb := next_mem_wb p\<rparr>"

definition clear_next :: "PipelineRegisters \<Rightarrow> PipelineRegisters" where
  "clear_next p = p\<lparr>next_if_id := empty_IFID, next_id_ex := empty_IDEX,
                    next_ex_mem := empty_EXMEM, next_mem_wb := empty_MEMWB\<rparr>"

definition clear_all :: "PipelineRegisters \<Rightarrow> PipelineRegisters" where
  "clear_all p = clear_next (p\<lparr>if_id := empty_IFID, id_ex := empty_IDEX,
                               ex_mem := empty_EXMEM, mem_wb := empty_MEMWB\<rparr>)"

text \<open>A value-initialised \<open>PipelineRegisters{}\<close>.\<close>

definition empty_pipeline :: PipelineRegisters where
  "empty_pipeline =
     \<lparr>if_id = empty_IFID, id_ex = empty_IDEX, ex_mem = empty_EXMEM, mem_wb = empty_MEMWB,
      next_if_id = empty_IFID, next_id_ex = empty_IDEX, next_ex_mem = empty_EXMEM,
      next_mem_wb = empty_MEMWB\<rparr>"

lemma clear_all_empty: "clear_all p = empty_pipeline"
  by (cases p) (simp add: clear_all_def clear_next_def empty_pipeline_def)

lemma empty_latches_invalid [simp]:
  "\<not> ifid_valid empty_IFID" "\<not> idex_valid empty_IDEX"
  "\<not> exmem_valid empty_EXMEM" "\<not> memwb_valid empty_MEMWB"
  by (simp_all add: empty_IFID_def empty_IDEX_def empty_EXMEM_def empty_MEMWB_def)

lemmas empty_latch_defs = empty_IFID_def empty_IDEX_def empty_EXMEM_def empty_MEMWB_def

end
