(* ===== verification/Instruction.thy ===== *)
theory Instruction
  imports Decoder Pipeline_Registers
begin

text \<open>
  \<open>include/instruction.hpp\<close> and \<open>src/instruction.cpp\<close>: classification of an instruction word
  into one of the 39 kinds (or \<open>Invalid\<close>) and the control signals that steer it through the
  pipeline. One definition per case of the switch on the opcode.
\<close>

unbundle bit_operations_syntax

section \<open>Instruction kinds\<close>

datatype InstructionKind =
  K_Invalid | K_Add | K_Sub | K_Sll | K_Slt | K_Sltu | K_Xor | K_Srl | K_Sra | K_Or | K_And
| K_Addi | K_Slti | K_Sltiu | K_Xori | K_Ori | K_Andi | K_Slli | K_Srli | K_Srai
| K_Lb | K_Lh | K_Lw | K_Lbu | K_Lhu | K_Sb | K_Sh | K_Sw
| K_Beq | K_Bne | K_Blt | K_Bge | K_Bltu | K_Bgeu
| K_Lui | K_Auipc | K_Jal | K_Jalr | K_Ecall | K_Ebreak

record DecodedInstruction =
  d_kind :: InstructionKind
  d_format :: InstructionFormat
  d_raw :: u32
  d_opcode :: u8
  d_rd :: u8
  d_rs1 :: u8
  d_rs2 :: u8
  d_funct3 :: u8
  d_funct7 :: u8
  d_immediate :: i32
  d_control :: ControlSignals

definition kOpcodeLoad :: u8 where "kOpcodeLoad = 0x03"
definition kOpcodeImm :: u8 where "kOpcodeImm = 0x13"
definition kOpcodeAuipc :: u8 where "kOpcodeAuipc = 0x17"
definition kOpcodeStore :: u8 where "kOpcodeStore = 0x23"
definition kOpcodeReg :: u8 where "kOpcodeReg = 0x33"
definition kOpcodeLui :: u8 where "kOpcodeLui = 0x37"
definition kOpcodeBranch :: u8 where "kOpcodeBranch = 0x63"
definition kOpcodeJalr :: u8 where "kOpcodeJalr = 0x67"
definition kOpcodeJal :: u8 where "kOpcodeJal = 0x6F"
definition kOpcodeSystem :: u8 where "kOpcodeSystem = 0x73"

lemmas opcode_defs = kOpcodeLoad_def kOpcodeImm_def kOpcodeAuipc_def kOpcodeStore_def
  kOpcodeReg_def kOpcodeLui_def kOpcodeBranch_def kOpcodeJalr_def kOpcodeJal_def
  kOpcodeSystem_def

section \<open>Decoding\<close>

definition base_decoded :: "u32 \<Rightarrow> DecodedInstruction" where
  "base_decoded instruction =
     \<lparr>d_kind = K_Invalid, d_format = Fmt_Unknown, d_raw = instruction,
      d_opcode = extract_opcode instruction,
      d_rd = extract_rd instruction,
      d_rs1 = extract_rs1 instruction,
      d_rs2 = extract_rs2 instruction,
      d_funct3 = extract_funct3 instruction,
      d_funct7 = extract_funct7 instruction,
      d_immediate = 0, d_control = no_signals\<rparr>"

definition alu_reg_control :: "ALUOp \<Rightarrow> ControlSignals" where
  "alu_reg_control op =
     no_signals\<lparr>reg_write := True, alu_op := op, writeback_source := WB_ALU\<rparr>"

definition alu_imm_control :: "ALUOp \<Rightarrow> ControlSignals" where
  "alu_imm_control op = (alu_reg_control op)\<lparr>alu_src_imm := True\<rparr>"

definition set_memory_width :: "ControlSignals \<Rightarrow> u8 \<Rightarrow> ControlSignals" where
  "set_memory_width control funct3 =
     (let control =
        (if funct3 = 0x0 \<or> funct3 = 0x4 then control\<lparr>memory_width := MW_Byte\<rparr>
         else if funct3 = 0x1 \<or> funct3 = 0x5 then control\<lparr>memory_width := MW_HalfWord\<rparr>
         else if funct3 = 0x2 then control\<lparr>memory_width := MW_Word\<rparr>
         else control\<lparr>memory_width := MW_None\<rparr>)
      in control\<lparr>mem_unsigned := (funct3 = 0x4 \<or> funct3 = 0x5)\<rparr>)"

text \<open>\<open>case kOpcodeReg\<close>\<close>

definition decode_reg :: "u32 \<Rightarrow> DecodedInstruction \<Rightarrow> DecodedInstruction" where
  "decode_reg instruction decoded =
     (let fields = decode_r_type instruction;
          f3 = r_funct3 fields; f7 = r_funct7 fields;
          decoded = decoded\<lparr>d_format := Fmt_R\<rparr> in
      if f3 = 0x0 \<and> f7 = 0x00 then
        decoded\<lparr>d_kind := K_Add, d_control := alu_reg_control ALU_Add\<rparr>
      else if f3 = 0x0 \<and> f7 = 0x20 then
        decoded\<lparr>d_kind := K_Sub, d_control := alu_reg_control ALU_Sub\<rparr>
      else if f3 = 0x1 \<and> f7 = 0x00 then
        decoded\<lparr>d_kind := K_Sll, d_control := alu_reg_control ALU_Sll\<rparr>
      else if f3 = 0x2 \<and> f7 = 0x00 then
        decoded\<lparr>d_kind := K_Slt, d_control := alu_reg_control ALU_Slt\<rparr>
      else if f3 = 0x3 \<and> f7 = 0x00 then
        decoded\<lparr>d_kind := K_Sltu, d_control := alu_reg_control ALU_Sltu\<rparr>
      else if f3 = 0x4 \<and> f7 = 0x00 then
        decoded\<lparr>d_kind := K_Xor, d_control := alu_reg_control ALU_Xor\<rparr>
      else if f3 = 0x5 \<and> f7 = 0x00 then
        decoded\<lparr>d_kind := K_Srl, d_control := alu_reg_control ALU_Srl\<rparr>
      else if f3 = 0x5 \<and> f7 = 0x20 then
        decoded\<lparr>d_kind := K_Sra, d_control := alu_reg_control ALU_Sra\<rparr>
      else if f3 = 0x6 \<and> f7 = 0x00 then
        decoded\<lparr>d_kind := K_Or, d_control := alu_reg_control ALU_Or\<rparr>
      else if f3 = 0x7 \<and> f7 = 0x00 then
        decoded\<lparr>d_kind := K_And, d_control := alu_reg_control ALU_And\<rparr>
      else decoded)"

text \<open>\<open>case kOpcodeImm\<close>\<close>

definition decode_imm :: "u32 \<Rightarrow> DecodedInstruction \<Rightarrow> DecodedInstruction" where
  "decode_imm instruction decoded =
     (let fields = decode_i_type instruction;
          f3 = i_funct3 fields;
          decoded = decoded\<lparr>d_format := Fmt_I, d_immediate := i_imm fields\<rparr> in
      if f3 = 0x0 then
        decoded\<lparr>d_kind := K_Addi, d_control := alu_imm_control ALU_Add\<rparr>
      else if f3 = 0x2 then
        decoded\<lparr>d_kind := K_Slti, d_control := alu_imm_control ALU_Slt\<rparr>
      else if f3 = 0x3 then
        decoded\<lparr>d_kind := K_Sltiu, d_control := alu_imm_control ALU_Sltu\<rparr>
      else if f3 = 0x4 then
        decoded\<lparr>d_kind := K_Xori, d_control := alu_imm_control ALU_Xor\<rparr>
      else if f3 = 0x6 then
        decoded\<lparr>d_kind := K_Ori, d_control := alu_imm_control ALU_Or\<rparr>
      else if f3 = 0x7 then
        decoded\<lparr>d_kind := K_Andi, d_control := alu_imm_control ALU_And\<rparr>
      else if f3 = 0x1 \<and> d_funct7 decoded = 0x00 then
        decoded\<lparr>d_kind := K_Slli, d_control := alu_imm_control ALU_Sll,
                d_immediate := d_immediate decoded AND 0x1F\<rparr>
      else if f3 = 0x5 \<and> d_funct7 decoded = 0x00 then
        decoded\<lparr>d_kind := K_Srli, d_control := alu_imm_control ALU_Srl,
                d_immediate := d_immediate decoded AND 0x1F\<rparr>
      else if f3 = 0x5 \<and> d_funct7 decoded = 0x20 then
        decoded\<lparr>d_kind := K_Srai, d_control := alu_imm_control ALU_Sra,
                d_immediate := d_immediate decoded AND 0x1F\<rparr>
      else decoded)"

text \<open>\<open>case kOpcodeLoad\<close>\<close>

definition decode_load :: "u32 \<Rightarrow> DecodedInstruction \<Rightarrow> DecodedInstruction" where
  "decode_load instruction decoded =
     (let fields = decode_i_type instruction;
          f3 = i_funct3 fields;
          decoded = decoded\<lparr>d_format := Fmt_I, d_immediate := i_imm fields\<rparr>;
          control = no_signals\<lparr>reg_write := True, mem_read := True, alu_src_imm := True,
            alu_op := ALU_Add, writeback_source := WB_Memory\<rparr>;
          control = set_memory_width control f3;
          decoded =
            (if f3 = 0x0 then decoded\<lparr>d_kind := K_Lb\<rparr>
             else if f3 = 0x1 then decoded\<lparr>d_kind := K_Lh\<rparr>
             else if f3 = 0x2 then decoded\<lparr>d_kind := K_Lw\<rparr>
             else if f3 = 0x4 then decoded\<lparr>d_kind := K_Lbu\<rparr>
             else if f3 = 0x5 then decoded\<lparr>d_kind := K_Lhu\<rparr>
             else decoded)
      in if d_kind decoded \<noteq> K_Invalid then decoded\<lparr>d_control := control\<rparr> else decoded)"

text \<open>\<open>case kOpcodeStore\<close>\<close>

definition decode_store :: "u32 \<Rightarrow> DecodedInstruction \<Rightarrow> DecodedInstruction" where
  "decode_store instruction decoded =
     (let fields = decode_s_type instruction;
          f3 = s_funct3 fields;
          decoded = decoded\<lparr>d_format := Fmt_S, d_immediate := s_imm fields\<rparr>;
          control = no_signals\<lparr>mem_write := True, alu_src_imm := True, alu_op := ALU_Add\<rparr>;
          control = (set_memory_width control f3)\<lparr>mem_unsigned := False\<rparr>;
          decoded =
            (if f3 = 0x0 then decoded\<lparr>d_kind := K_Sb\<rparr>
             else if f3 = 0x1 then decoded\<lparr>d_kind := K_Sh\<rparr>
             else if f3 = 0x2 then decoded\<lparr>d_kind := K_Sw\<rparr>
             else decoded)
      in if d_kind decoded \<noteq> K_Invalid then decoded\<lparr>d_control := control\<rparr> else decoded)"

text \<open>\<open>case kOpcodeBranch\<close>\<close>

definition decode_branch :: "u32 \<Rightarrow> DecodedInstruction \<Rightarrow> DecodedInstruction" where
  "decode_branch instruction decoded =
     (let fields = decode_b_type instruction;
          f3 = b_funct3 fields;
          decoded = decoded\<lparr>d_format := Fmt_B, d_immediate := b_imm fields\<rparr>;
          control = no_signals\<lparr>branch := True, alu_op := ALU_Sub\<rparr>;
          (decoded, control) =
            (if f3 = 0x0 then
               (decoded\<lparr>d_kind := K_Beq\<rparr>, control\<lparr>branch_condition := BC_Equal\<rparr>)
             else if f3 = 0x1 then
               (decoded\<lparr>d_kind := K_Bne\<rparr>, control\<lparr>branch_condition := BC_NotEqual\<rparr>)
             else if f3 = 0x4 then
               (decoded\<lparr>d_kind := K_Blt\<rparr>, control\<lparr>branch_condition := BC_LessThan\<rparr>)
             else if f3 = 0x5 then
               (decoded\<lparr>d_kind := K_Bge\<rparr>, control\<lparr>branch_condition := BC_GreaterOrEqual\<rparr>)
             else if f3 = 0x6 then
               (decoded\<lparr>d_kind := K_Bltu\<rparr>, control\<lparr>branch_condition := BC_LessThanUnsigned\<rparr>)
             else if f3 = 0x7 then
               (decoded\<lparr>d_kind := K_Bgeu\<rparr>,
                control\<lparr>branch_condition := BC_GreaterOrEqualUnsigned\<rparr>)
             else (decoded, control))
      in if d_kind decoded \<noteq> K_Invalid then decoded\<lparr>d_control := control\<rparr> else decoded)"

text \<open>\<open>case kOpcodeLui\<close>\<close>

definition decode_lui :: "u32 \<Rightarrow> DecodedInstruction \<Rightarrow> DecodedInstruction" where
  "decode_lui instruction decoded =
     (let fields = decode_u_type instruction in
      decoded\<lparr>d_format := Fmt_U, d_immediate := u_imm fields, d_kind := K_Lui,
        d_control := (d_control decoded)\<lparr>reg_write := True, writeback_source := WB_Immediate\<rparr>\<rparr>)"

text \<open>\<open>case kOpcodeAuipc\<close>\<close>

definition decode_auipc :: "u32 \<Rightarrow> DecodedInstruction \<Rightarrow> DecodedInstruction" where
  "decode_auipc instruction decoded =
     (let fields = decode_u_type instruction in
      decoded\<lparr>d_format := Fmt_U, d_immediate := u_imm fields, d_kind := K_Auipc,
        d_control := (d_control decoded)\<lparr>reg_write := True, alu_src_pc := True,
          alu_src_imm := True, alu_op := ALU_Add, writeback_source := WB_ALU\<rparr>\<rparr>)"

text \<open>\<open>case kOpcodeJal\<close>\<close>

definition decode_jal :: "u32 \<Rightarrow> DecodedInstruction \<Rightarrow> DecodedInstruction" where
  "decode_jal instruction decoded =
     (let fields = decode_j_type instruction in
      decoded\<lparr>d_format := Fmt_J, d_immediate := j_imm fields, d_kind := K_Jal,
        d_control := (d_control decoded)\<lparr>reg_write := True, jump := True, alu_src_pc := True,
          alu_src_imm := True, alu_op := ALU_Add, writeback_source := WB_PCPlus4\<rparr>\<rparr>)"

text \<open>\<open>case kOpcodeJalr\<close>\<close>

definition decode_jalr :: "u32 \<Rightarrow> DecodedInstruction \<Rightarrow> DecodedInstruction" where
  "decode_jalr instruction decoded =
     (let fields = decode_i_type instruction;
          decoded = decoded\<lparr>d_format := Fmt_I, d_immediate := i_imm fields\<rparr> in
      if i_funct3 fields = 0x0 then
        decoded\<lparr>d_kind := K_Jalr,
          d_control := (d_control decoded)\<lparr>reg_write := True, jump := True,
            alu_src_imm := True, alu_op := ALU_Add, writeback_source := WB_PCPlus4\<rparr>\<rparr>
      else decoded)"

text \<open>\<open>case kOpcodeSystem\<close>\<close>

definition decode_system :: "u32 \<Rightarrow> DecodedInstruction \<Rightarrow> DecodedInstruction" where
  "decode_system instruction decoded =
     (let fields = decode_i_type instruction;
          decoded = decoded\<lparr>d_format := Fmt_I, d_immediate := i_imm fields\<rparr> in
      if i_funct3 fields = 0x0 \<and> i_imm fields = 0 then
        decoded\<lparr>d_kind := K_Ecall, d_control := (d_control decoded)\<lparr>halt_signal := True\<rparr>\<rparr>
      else if i_funct3 fields = 0x0 \<and> i_imm fields = 1 then
        decoded\<lparr>d_kind := K_Ebreak, d_control := (d_control decoded)\<lparr>halt_signal := True\<rparr>\<rparr>
      else decoded)"

definition decode_instruction :: "u32 \<Rightarrow> DecodedInstruction" where
  "decode_instruction instruction =
     (let decoded = base_decoded instruction; opcode = d_opcode decoded in
      if opcode = kOpcodeReg then decode_reg instruction decoded
      else if opcode = kOpcodeImm then decode_imm instruction decoded
      else if opcode = kOpcodeLoad then decode_load instruction decoded
      else if opcode = kOpcodeStore then decode_store instruction decoded
      else if opcode = kOpcodeBranch then decode_branch instruction decoded
      else if opcode = kOpcodeLui then decode_lui instruction decoded
      else if opcode = kOpcodeAuipc then decode_auipc instruction decoded
      else if opcode = kOpcodeJal then decode_jal instruction decoded
      else if opcode = kOpcodeJalr then decode_jalr instruction decoded
      else if opcode = kOpcodeSystem then decode_system instruction decoded
      else decoded)"

fun instruction_kind_name :: "InstructionKind \<Rightarrow> string" where
  "instruction_kind_name K_Add = ''add''"
| "instruction_kind_name K_Sub = ''sub''"
| "instruction_kind_name K_Sll = ''sll''"
| "instruction_kind_name K_Slt = ''slt''"
| "instruction_kind_name K_Sltu = ''sltu''"
| "instruction_kind_name K_Xor = ''xor''"
| "instruction_kind_name K_Srl = ''srl''"
| "instruction_kind_name K_Sra = ''sra''"
| "instruction_kind_name K_Or = ''or''"
| "instruction_kind_name K_And = ''and''"
| "instruction_kind_name K_Addi = ''addi''"
| "instruction_kind_name K_Slti = ''slti''"
| "instruction_kind_name K_Sltiu = ''sltiu''"
| "instruction_kind_name K_Xori = ''xori''"
| "instruction_kind_name K_Ori = ''ori''"
| "instruction_kind_name K_Andi = ''andi''"
| "instruction_kind_name K_Slli = ''slli''"
| "instruction_kind_name K_Srli = ''srli''"
| "instruction_kind_name K_Srai = ''srai''"
| "instruction_kind_name K_Lb = ''lb''"
| "instruction_kind_name K_Lh = ''lh''"
| "instruction_kind_name K_Lw = ''lw''"
| "instruction_kind_name K_Lbu = ''lbu''"
| "instruction_kind_name K_Lhu = ''lhu''"
| "instruction_kind_name K_Sb = ''sb''"
| "instruction_kind_name K_Sh = ''sh''"
| "instruction_kind_name K_Sw = ''sw''"
| "instruction_kind_name K_Beq = ''beq''"
| "instruction_kind_name K_Bne = ''bne''"
| "instruction_kind_name K_Blt = ''blt''"
| "instruction_kind_name K_Bge = ''bge''"
| "instruction_kind_name K_Bltu = ''bltu''"
| "instruction_kind_name K_Bgeu = ''bgeu''"
| "instruction_kind_name K_Lui = ''lui''"
| "instruction_kind_name K_Auipc = ''auipc''"
| "instruction_kind_name K_Jal = ''jal''"
| "instruction_kind_name K_Jalr = ''jalr''"
| "instruction_kind_name K_Ecall = ''ecall''"
| "instruction_kind_name K_Ebreak = ''ebreak''"
| "instruction_kind_name K_Invalid = ''invalid''"

definition is_valid_instruction :: "DecodedInstruction \<Rightarrow> bool" where
  "is_valid_instruction instruction \<longleftrightarrow> d_kind instruction \<noteq> K_Invalid"

section \<open>Control signals by kind\<close>

text \<open>
  The signals each kind of instruction carries, as one table: the specification of the decoder's
  second output. It is written out from the record of signals alone and uses nothing the decoder
  is made of.
\<close>

definition silent :: ControlSignals where
  "silent =
     \<lparr>reg_write = False, mem_read = False, mem_write = False, branch = False, jump = False,
      alu_src_pc = False, alu_src_imm = False, mem_unsigned = False, halt_signal = False,
      alu_op = ALU_None, writeback_source = WB_None, branch_condition = BC_None,
      memory_width = MW_None\<rparr>"

definition reg_reg_control :: "ALUOp \<Rightarrow> ControlSignals" where
  "reg_reg_control op = silent\<lparr>reg_write := True, alu_op := op, writeback_source := WB_ALU\<rparr>"

definition reg_imm_control :: "ALUOp \<Rightarrow> ControlSignals" where
  "reg_imm_control op = silent\<lparr>reg_write := True, alu_src_imm := True, alu_op := op,
     writeback_source := WB_ALU\<rparr>"

definition load_control :: "MemoryAccessWidth \<Rightarrow> bool \<Rightarrow> ControlSignals" where
  "load_control width zero_extend = silent\<lparr>reg_write := True, mem_read := True,
     alu_src_imm := True, alu_op := ALU_Add, writeback_source := WB_Memory,
     memory_width := width, mem_unsigned := zero_extend\<rparr>"

definition store_control :: "MemoryAccessWidth \<Rightarrow> ControlSignals" where
  "store_control width = silent\<lparr>mem_write := True, alu_src_imm := True, alu_op := ALU_Add,
     memory_width := width\<rparr>"

definition branch_control :: "BranchCondition \<Rightarrow> ControlSignals" where
  "branch_control condition = silent\<lparr>branch := True, alu_op := ALU_Sub,
     branch_condition := condition\<rparr>"

fun control_of :: "InstructionKind \<Rightarrow> ControlSignals" where
  "control_of K_Invalid = silent"
| "control_of K_Add = reg_reg_control ALU_Add"
| "control_of K_Sub = reg_reg_control ALU_Sub"
| "control_of K_Sll = reg_reg_control ALU_Sll"
| "control_of K_Slt = reg_reg_control ALU_Slt"
| "control_of K_Sltu = reg_reg_control ALU_Sltu"
| "control_of K_Xor = reg_reg_control ALU_Xor"
| "control_of K_Srl = reg_reg_control ALU_Srl"
| "control_of K_Sra = reg_reg_control ALU_Sra"
| "control_of K_Or = reg_reg_control ALU_Or"
| "control_of K_And = reg_reg_control ALU_And"
| "control_of K_Addi = reg_imm_control ALU_Add"
| "control_of K_Slti = reg_imm_control ALU_Slt"
| "control_of K_Sltiu = reg_imm_control ALU_Sltu"
| "control_of K_Xori = reg_imm_control ALU_Xor"
| "control_of K_Ori = reg_imm_control ALU_Or"
| "control_of K_Andi = reg_imm_control ALU_And"
| "control_of K_Slli = reg_imm_control ALU_Sll"
| "control_of K_Srli = reg_imm_control ALU_Srl"
| "control_of K_Srai = reg_imm_control ALU_Sra"
| "control_of K_Lb = load_control MW_Byte False"
| "control_of K_Lh = load_control MW_HalfWord False"
| "control_of K_Lw = load_control MW_Word False"
| "control_of K_Lbu = load_control MW_Byte True"
| "control_of K_Lhu = load_control MW_HalfWord True"
| "control_of K_Sb = store_control MW_Byte"
| "control_of K_Sh = store_control MW_HalfWord"
| "control_of K_Sw = store_control MW_Word"
| "control_of K_Beq = branch_control BC_Equal"
| "control_of K_Bne = branch_control BC_NotEqual"
| "control_of K_Blt = branch_control BC_LessThan"
| "control_of K_Bge = branch_control BC_GreaterOrEqual"
| "control_of K_Bltu = branch_control BC_LessThanUnsigned"
| "control_of K_Bgeu = branch_control BC_GreaterOrEqualUnsigned"
| "control_of K_Lui = silent\<lparr>reg_write := True, writeback_source := WB_Immediate\<rparr>"
| "control_of K_Auipc = silent\<lparr>reg_write := True, alu_src_pc := True, alu_src_imm := True,
     alu_op := ALU_Add, writeback_source := WB_ALU\<rparr>"
| "control_of K_Jal = silent\<lparr>reg_write := True, jump := True, alu_src_pc := True,
     alu_src_imm := True, alu_op := ALU_Add, writeback_source := WB_PCPlus4\<rparr>"
| "control_of K_Jalr = silent\<lparr>reg_write := True, jump := True,
     alu_src_imm := True, alu_op := ALU_Add, writeback_source := WB_PCPlus4\<rparr>"
| "control_of K_Ecall = silent\<lparr>halt_signal := True\<rparr>"
| "control_of K_Ebreak = silent\<lparr>halt_signal := True\<rparr>"

lemmas control_of_defs = silent_def reg_reg_control_def reg_imm_control_def load_control_def
  store_control_def branch_control_def

lemma base_decoded_simps [simp]:
  "d_kind (base_decoded i) = K_Invalid" "d_format (base_decoded i) = Fmt_Unknown"
  "d_raw (base_decoded i) = i" "d_opcode (base_decoded i) = extract_opcode i"
  "d_rd (base_decoded i) = extract_rd i" "d_rs1 (base_decoded i) = extract_rs1 i"
  "d_rs2 (base_decoded i) = extract_rs2 i" "d_funct3 (base_decoded i) = extract_funct3 i"
  "d_funct7 (base_decoded i) = extract_funct7 i" "d_immediate (base_decoded i) = 0"
  "d_control (base_decoded i) = no_signals"
  by (simp_all add: base_decoded_def)

lemmas decode_case_defs = decode_reg_def decode_imm_def decode_load_def decode_store_def
  decode_branch_def decode_lui_def decode_auipc_def decode_jal_def decode_jalr_def
  decode_system_def

lemma case_control:
  "d_control (decode_reg i (base_decoded i)) =
     control_of (d_kind (decode_reg i (base_decoded i)))"
  "d_control (decode_imm i (base_decoded i)) =
     control_of (d_kind (decode_imm i (base_decoded i)))"
  "d_control (decode_load i (base_decoded i)) =
     control_of (d_kind (decode_load i (base_decoded i)))"
  "d_control (decode_store i (base_decoded i)) =
     control_of (d_kind (decode_store i (base_decoded i)))"
  "d_control (decode_branch i (base_decoded i)) =
     control_of (d_kind (decode_branch i (base_decoded i)))"
  "d_control (decode_lui i (base_decoded i)) =
     control_of (d_kind (decode_lui i (base_decoded i)))"
  "d_control (decode_auipc i (base_decoded i)) =
     control_of (d_kind (decode_auipc i (base_decoded i)))"
  "d_control (decode_jal i (base_decoded i)) =
     control_of (d_kind (decode_jal i (base_decoded i)))"
  "d_control (decode_jalr i (base_decoded i)) =
     control_of (d_kind (decode_jalr i (base_decoded i)))"
  "d_control (decode_system i (base_decoded i)) =
     control_of (d_kind (decode_system i (base_decoded i)))"
  by (simp_all add: decode_case_defs Let_def set_memory_width_def alu_imm_control_def
      alu_reg_control_def no_signals_def control_of_defs)

lemma decode_control [decode_fields]:
  "d_control (decode_instruction i) = control_of (d_kind (decode_instruction i))"
  unfolding decode_instruction_def Let_def
  by (simp add: case_control no_signals_def silent_def)

lemma case_fields:
  "f \<in> {decode_reg, decode_imm, decode_load, decode_store, decode_branch, decode_lui,
    decode_auipc, decode_jal, decode_jalr, decode_system} \<Longrightarrow>
   d_raw (f i b) = d_raw b \<and> d_opcode (f i b) = d_opcode b \<and> d_rd (f i b) = d_rd b \<and>
   d_rs1 (f i b) = d_rs1 b \<and> d_rs2 (f i b) = d_rs2 b \<and> d_funct3 (f i b) = d_funct3 b \<and>
   d_funct7 (f i b) = d_funct7 b"
  by (elim insertE; simp add: decode_case_defs Let_def)

lemma decode_extracted [decode_fields]:
  "d_raw (decode_instruction i) = i"
  "d_opcode (decode_instruction i) = extract_opcode i"
  "d_rd (decode_instruction i) = extract_rd i"
  "d_rs1 (decode_instruction i) = extract_rs1 i"
  "d_rs2 (decode_instruction i) = extract_rs2 i"
  "d_funct3 (decode_instruction i) = extract_funct3 i"
  "d_funct7 (decode_instruction i) = extract_funct7 i"
  unfolding decode_instruction_def Let_def by (simp_all add: case_fields)

lemma i_type_fields [simp]:
  "i_funct3 (decode_i_type i) = extract_funct3 i"
  "s_funct3 (decode_s_type i) = extract_funct3 i"
  "b_funct3 (decode_b_type i) = extract_funct3 i"
  "r_funct3 (decode_r_type i) = extract_funct3 i"
  "r_funct7 (decode_r_type i) = extract_funct7 i"
  by (simp_all add: decode_i_type_def decode_s_type_def decode_b_type_def decode_r_type_def Let_def)

end
