(* ===== verification/Instruction_Table.thy ===== *)
theory Instruction_Table
  imports Instruction
begin

text \<open>
  The RV32I encodings as mask and match constants, those of the manual but for ECALL and EBREAK,
  whose rd and rs1 the code does not check, and the proof that \<open>decode_instruction\<close>
  recognises exactly these words.
\<close>

unbundle bit_operations_syntax

fun rv32i_match :: "InstructionKind \<Rightarrow> u32 \<times> u32" where
  "rv32i_match K_Add = (0xFE00707F, 0x00000033)"
| "rv32i_match K_Sub = (0xFE00707F, 0x40000033)"
| "rv32i_match K_Sll = (0xFE00707F, 0x00001033)"
| "rv32i_match K_Slt = (0xFE00707F, 0x00002033)"
| "rv32i_match K_Sltu = (0xFE00707F, 0x00003033)"
| "rv32i_match K_Xor = (0xFE00707F, 0x00004033)"
| "rv32i_match K_Srl = (0xFE00707F, 0x00005033)"
| "rv32i_match K_Sra = (0xFE00707F, 0x40005033)"
| "rv32i_match K_Or = (0xFE00707F, 0x00006033)"
| "rv32i_match K_And = (0xFE00707F, 0x00007033)"
| "rv32i_match K_Addi = (0x0000707F, 0x00000013)"
| "rv32i_match K_Slti = (0x0000707F, 0x00002013)"
| "rv32i_match K_Sltiu = (0x0000707F, 0x00003013)"
| "rv32i_match K_Xori = (0x0000707F, 0x00004013)"
| "rv32i_match K_Ori = (0x0000707F, 0x00006013)"
| "rv32i_match K_Andi = (0x0000707F, 0x00007013)"
| "rv32i_match K_Slli = (0xFE00707F, 0x00001013)"
| "rv32i_match K_Srli = (0xFE00707F, 0x00005013)"
| "rv32i_match K_Srai = (0xFE00707F, 0x40005013)"
| "rv32i_match K_Lb = (0x0000707F, 0x00000003)"
| "rv32i_match K_Lh = (0x0000707F, 0x00001003)"
| "rv32i_match K_Lw = (0x0000707F, 0x00002003)"
| "rv32i_match K_Lbu = (0x0000707F, 0x00004003)"
| "rv32i_match K_Lhu = (0x0000707F, 0x00005003)"
| "rv32i_match K_Sb = (0x0000707F, 0x00000023)"
| "rv32i_match K_Sh = (0x0000707F, 0x00001023)"
| "rv32i_match K_Sw = (0x0000707F, 0x00002023)"
| "rv32i_match K_Beq = (0x0000707F, 0x00000063)"
| "rv32i_match K_Bne = (0x0000707F, 0x00001063)"
| "rv32i_match K_Blt = (0x0000707F, 0x00004063)"
| "rv32i_match K_Bge = (0x0000707F, 0x00005063)"
| "rv32i_match K_Bltu = (0x0000707F, 0x00006063)"
| "rv32i_match K_Bgeu = (0x0000707F, 0x00007063)"
| "rv32i_match K_Lui = (0x0000007F, 0x00000037)"
| "rv32i_match K_Auipc = (0x0000007F, 0x00000017)"
| "rv32i_match K_Jal = (0x0000007F, 0x0000006F)"
| "rv32i_match K_Jalr = (0x0000707F, 0x00000067)"
| "rv32i_match K_Ecall = (0xFFF0707F, 0x00000073)"
| "rv32i_match K_Ebreak = (0xFFF0707F, 0x00100073)"
| "rv32i_match K_Invalid = (0, 1)"

lemma and_or_split:
  fixes i :: u32
  assumes "x AND a = x" and "y AND b = y" and "a AND b = 0"
  shows "i AND (a OR b) = x OR y \<longleftrightarrow> i AND a = x \<and> i AND b = y"
proof
  assume eq: "i AND (a OR b) = x OR y"
  have "y AND a = (y AND b) AND a" using assms(2) by simp
  also have "\<dots> = y AND (a AND b)" by (simp only: ac_simps)
  finally have ya: "y AND a = 0" using assms(3) by simp
  have "x AND b = (x AND a) AND b" using assms(1) by simp
  also have "\<dots> = x AND (a AND b)" by (simp only: ac_simps)
  finally have xb: "x AND b = 0" using assms(3) by simp
  have "i AND a = (i AND (a OR b)) AND a"
    by (rule bit_word_eqI) (auto simp: bit_simps)
  moreover have "i AND b = (i AND (a OR b)) AND b"
    by (rule bit_word_eqI) (auto simp: bit_simps)
  ultimately show "i AND a = x \<and> i AND b = y"
    unfolding eq using assms(1,2) ya xb by (simp add: bit.conj_disj_distrib2)
qed (simp add: bit.conj_disj_distrib)

lemma opcode_match:
  "extract_opcode i = c \<longleftrightarrow> i AND 0x7F = ucast c" if "take_bit 7 (ucast c :: u32) = ucast c"
proof -
  have "push_bit 0 (mask (6 - 0 + 1)) = (0x7F :: u32)" by (simp add: mask_eq_exp_minus_1)
  then show ?thesis
    using bits_match[of 0 6 "ucast c" i] that by (simp add: extract_opcode_def bits_eq_ucast)
qed

lemma funct3_match:
  "extract_funct3 i = c \<longleftrightarrow> i AND 0x7000 = push_bit 12 (ucast c)"
  if "take_bit 3 (ucast c :: u32) = ucast c"
proof -
  have "push_bit 12 (mask (14 - 12 + 1)) = (0x7000 :: u32)" by (simp add: mask_eq_exp_minus_1)
  then show ?thesis
    using bits_match[of 12 14 "ucast c" i] that by (simp add: extract_funct3_def bits_eq_ucast)
qed

lemma funct7_match:
  "extract_funct7 i = c \<longleftrightarrow> i AND 0xFE000000 = push_bit 25 (ucast c)"
  if "take_bit 7 (ucast c :: u32) = ucast c"
proof -
  have "push_bit 25 (mask (31 - 25 + 1)) = (0xFE000000 :: u32)" by (simp add: mask_eq_exp_minus_1)
  then show ?thesis
    using bits_match[of 25 31 "ucast c" i] that by (simp add: extract_funct7_def bits_eq_ucast)
qed

lemma match_7_3:
  "i AND 0x707F = x OR y \<longleftrightarrow> i AND 0x7F = x \<and> i AND 0x7000 = y"
  if "x AND 0x7F = x" "y AND 0x7000 = y" for i :: u32
  using and_or_split[OF that, of i] by simp
lemma mask_split:
  fixes i :: u32
  assumes "m AND (a OR b) = m" and "a AND b = 0"
  shows "i AND (a OR b) = m \<longleftrightarrow> i AND a = m AND a \<and> i AND b = m AND b"
proof -
  have m: "m = (m AND a) OR (m AND b)"
    using assms(1) by (simp add: bit.conj_disj_distrib)
  have "i AND (a OR b) = (m AND a) OR (m AND b) \<longleftrightarrow> i AND a = m AND a \<and> i AND b = m AND b"
    using assms(2) by (intro and_or_split) (simp_all add: and.assoc)
  then show ?thesis
    using m by simp
qed

text \<open>
  The three kinds of mask: opcode and \<open>funct3\<close>, with \<open>funct7\<close>, with the twelve immediate bits.
\<close>

lemma mask_funct3:
  "m AND 0x707F = m \<Longrightarrow>
   i AND 0x707F = m \<longleftrightarrow> i AND 0x7F = m AND 0x7F \<and> i AND 0x7000 = m AND 0x7000"
  for i m :: u32
  using mask_split[of m "0x7F" "0x7000" i] by simp

lemma mask_funct7:
  "m AND 0xFE00707F = m \<Longrightarrow> i AND 0xFE00707F = m \<longleftrightarrow>
     i AND 0x707F = m AND 0x707F \<and> i AND 0xFE000000 = m AND 0xFE000000"
  for i m :: u32
  using mask_split[of m "0x707F" "0xFE000000" i] by simp

lemma mask_imm:
  "m AND 0xFFF0707F = m \<Longrightarrow> i AND 0xFFF0707F = m \<longleftrightarrow>
     i AND 0x707F = m AND 0x707F \<and> i AND 0xFFF00000 = m AND 0xFFF00000"
  for i m :: u32
  using mask_split[of m "0x707F" "0xFFF00000" i] by simp

lemma imm_match:
  assumes "take_bit 12 c = c" and "sint c < 2048" and "0 \<le> sint c"
  shows "i_imm (decode_i_type i) = c \<longleftrightarrow> i AND 0xFFF00000 = push_bit 20 c"
proof -
  have "i_imm (decode_i_type i) = sign_extend (bits i 31 20) 12"
    by (simp add: decode_i_type_def Let_def)
  moreover have "sign_extend (bits i 31 20) 12 = c \<longleftrightarrow> bits i 31 20 = c"
  proof
    assume "sign_extend (bits i 31 20) 12 = c"
    then have "take_bit 12 (bits i 31 20) = take_bit 12 c"
      using take_bit_sign_extend[of 12 "bits i 31 20"] by simp
    then show "bits i 31 20 = c"
      using assms(1) by (simp add: bits_take_drop)
  next
    assume "bits i 31 20 = c"
    then show "sign_extend (bits i 31 20) 12 = c"
      using assms by (intro sign_extend_take_bit) simp_all
  qed
  moreover have "push_bit 20 (mask (31 - 20 + 1)) = (0xFFF00000 :: u32)"
    by (simp add: mask_eq_exp_minus_1)
  ultimately show ?thesis
    using bits_match[of 20 31 c i] assms(1) by simp
qed

lemma case_kind:
  "d_kind (decode_reg i (base_decoded i)) =
     (let f3 = extract_funct3 i; f7 = extract_funct7 i in
      if f3 = 0 \<and> f7 = 0 then K_Add else if f3 = 0 \<and> f7 = 0x20 then K_Sub
      else if f3 = 1 \<and> f7 = 0 then K_Sll else if f3 = 2 \<and> f7 = 0 then K_Slt
      else if f3 = 3 \<and> f7 = 0 then K_Sltu else if f3 = 4 \<and> f7 = 0 then K_Xor
      else if f3 = 5 \<and> f7 = 0 then K_Srl else if f3 = 5 \<and> f7 = 0x20 then K_Sra
      else if f3 = 6 \<and> f7 = 0 then K_Or else if f3 = 7 \<and> f7 = 0 then K_And else K_Invalid)"
  "d_kind (decode_imm i (base_decoded i)) =
     (let f3 = extract_funct3 i; f7 = extract_funct7 i in
      if f3 = 0 then K_Addi else if f3 = 2 then K_Slti else if f3 = 3 then K_Sltiu
      else if f3 = 4 then K_Xori else if f3 = 6 then K_Ori else if f3 = 7 then K_Andi
      else if f3 = 1 \<and> f7 = 0 then K_Slli else if f3 = 5 \<and> f7 = 0 then K_Srli
      else if f3 = 5 \<and> f7 = 0x20 then K_Srai else K_Invalid)"
  "d_kind (decode_load i (base_decoded i)) =
     (let f3 = extract_funct3 i in
      if f3 = 0 then K_Lb else if f3 = 1 then K_Lh else if f3 = 2 then K_Lw
      else if f3 = 4 then K_Lbu else if f3 = 5 then K_Lhu else K_Invalid)"
  "d_kind (decode_store i (base_decoded i)) =
     (let f3 = extract_funct3 i in
      if f3 = 0 then K_Sb else if f3 = 1 then K_Sh else if f3 = 2 then K_Sw else K_Invalid)"
  "d_kind (decode_branch i (base_decoded i)) =
     (let f3 = extract_funct3 i in
      if f3 = 0 then K_Beq else if f3 = 1 then K_Bne else if f3 = 4 then K_Blt
      else if f3 = 5 then K_Bge else if f3 = 6 then K_Bltu else if f3 = 7 then K_Bgeu
      else K_Invalid)"
  "d_kind (decode_lui i (base_decoded i)) = K_Lui"
  "d_kind (decode_auipc i (base_decoded i)) = K_Auipc"
  "d_kind (decode_jal i (base_decoded i)) = K_Jal"
  "d_kind (decode_jalr i (base_decoded i)) = (if extract_funct3 i = 0 then K_Jalr else K_Invalid)"
  "d_kind (decode_system i (base_decoded i)) =
     (if extract_funct3 i = 0 \<and> i_imm (decode_i_type i) = 0 then K_Ecall
      else if extract_funct3 i = 0 \<and> i_imm (decode_i_type i) = 1 then K_Ebreak else K_Invalid)"
  by (simp_all add: decode_case_defs Let_def)

lemma decode_kind:
  "d_kind (decode_instruction i) =
     (let op = extract_opcode i in
      if op = 0x33 then d_kind (decode_reg i (base_decoded i))
      else if op = 0x13 then d_kind (decode_imm i (base_decoded i))
      else if op = 0x03 then d_kind (decode_load i (base_decoded i))
      else if op = 0x23 then d_kind (decode_store i (base_decoded i))
      else if op = 0x63 then d_kind (decode_branch i (base_decoded i))
      else if op = 0x37 then K_Lui
      else if op = 0x17 then K_Auipc
      else if op = 0x6F then K_Jal
      else if op = 0x67 then d_kind (decode_jalr i (base_decoded i))
      else if op = 0x73 then d_kind (decode_system i (base_decoded i))
      else K_Invalid)"
  by (simp add: decode_instruction_def opcode_defs Let_def case_kind(6-8))

text \<open>The opcode a kind belongs to decides which case of the switch made it.\<close>

fun kind_opcode :: "InstructionKind \<Rightarrow> u8" where
  "kind_opcode K_Add = 0x33"
| "kind_opcode K_Sub = 0x33"
| "kind_opcode K_Sll = 0x33"
| "kind_opcode K_Slt = 0x33"
| "kind_opcode K_Sltu = 0x33"
| "kind_opcode K_Xor = 0x33"
| "kind_opcode K_Srl = 0x33"
| "kind_opcode K_Sra = 0x33"
| "kind_opcode K_Or = 0x33"
| "kind_opcode K_And = 0x33"
| "kind_opcode K_Addi = 0x13"
| "kind_opcode K_Slti = 0x13"
| "kind_opcode K_Sltiu = 0x13"
| "kind_opcode K_Xori = 0x13"
| "kind_opcode K_Ori = 0x13"
| "kind_opcode K_Andi = 0x13"
| "kind_opcode K_Slli = 0x13"
| "kind_opcode K_Srli = 0x13"
| "kind_opcode K_Srai = 0x13"
| "kind_opcode K_Lb = 0x03"
| "kind_opcode K_Lh = 0x03"
| "kind_opcode K_Lw = 0x03"
| "kind_opcode K_Lbu = 0x03"
| "kind_opcode K_Lhu = 0x03"
| "kind_opcode K_Sb = 0x23"
| "kind_opcode K_Sh = 0x23"
| "kind_opcode K_Sw = 0x23"
| "kind_opcode K_Beq = 0x63"
| "kind_opcode K_Bne = 0x63"
| "kind_opcode K_Blt = 0x63"
| "kind_opcode K_Bge = 0x63"
| "kind_opcode K_Bltu = 0x63"
| "kind_opcode K_Bgeu = 0x63"
| "kind_opcode K_Lui = 0x37"
| "kind_opcode K_Auipc = 0x17"
| "kind_opcode K_Jal = 0x6F"
| "kind_opcode K_Jalr = 0x67"
| "kind_opcode K_Ecall = 0x73"
| "kind_opcode K_Ebreak = 0x73"
| "kind_opcode K_Invalid = 0"

lemma kind_opcode_fits: "take_bit 7 (ucast (kind_opcode k) :: u32) = ucast (kind_opcode k)"
  by (cases k) simp_all

lemma case_opcode:
  "d_kind (decode_reg i (base_decoded i)) = k \<Longrightarrow> k \<noteq> K_Invalid \<Longrightarrow> kind_opcode k = 0x33"
  "d_kind (decode_imm i (base_decoded i)) = k \<Longrightarrow> k \<noteq> K_Invalid \<Longrightarrow> kind_opcode k = 0x13"
  "d_kind (decode_load i (base_decoded i)) = k \<Longrightarrow> k \<noteq> K_Invalid \<Longrightarrow> kind_opcode k = 0x03"
  "d_kind (decode_store i (base_decoded i)) = k \<Longrightarrow> k \<noteq> K_Invalid \<Longrightarrow> kind_opcode k = 0x23"
  "d_kind (decode_branch i (base_decoded i)) = k \<Longrightarrow> k \<noteq> K_Invalid \<Longrightarrow> kind_opcode k = 0x63"
  "d_kind (decode_jalr i (base_decoded i)) = k \<Longrightarrow> k \<noteq> K_Invalid \<Longrightarrow> kind_opcode k = 0x67"
  "d_kind (decode_system i (base_decoded i)) = k \<Longrightarrow> k \<noteq> K_Invalid \<Longrightarrow> kind_opcode k = 0x73"
  by (auto simp: case_kind Let_def split: if_splits)

lemma decode_kind_opcode:
  assumes "k \<noteq> K_Invalid" and "d_kind (decode_instruction i) = k"
  shows "extract_opcode i = kind_opcode k"
  using assms case_opcode[of i k]
  unfolding decode_kind Let_def by (auto split: if_splits)

lemma kind_at_opcode:
  "extract_opcode i = 0x33 \<Longrightarrow>
     d_kind (decode_instruction i) = d_kind (decode_reg i (base_decoded i))"
  "extract_opcode i = 0x13 \<Longrightarrow>
     d_kind (decode_instruction i) = d_kind (decode_imm i (base_decoded i))"
  "extract_opcode i = 0x03 \<Longrightarrow>
     d_kind (decode_instruction i) = d_kind (decode_load i (base_decoded i))"
  "extract_opcode i = 0x23 \<Longrightarrow>
     d_kind (decode_instruction i) = d_kind (decode_store i (base_decoded i))"
  "extract_opcode i = 0x63 \<Longrightarrow>
     d_kind (decode_instruction i) = d_kind (decode_branch i (base_decoded i))"
  "extract_opcode i = 0x37 \<Longrightarrow>
     d_kind (decode_instruction i) = d_kind (decode_lui i (base_decoded i))"
  "extract_opcode i = 0x17 \<Longrightarrow>
     d_kind (decode_instruction i) = d_kind (decode_auipc i (base_decoded i))"
  "extract_opcode i = 0x6F \<Longrightarrow>
     d_kind (decode_instruction i) = d_kind (decode_jal i (base_decoded i))"
  "extract_opcode i = 0x67 \<Longrightarrow>
     d_kind (decode_instruction i) = d_kind (decode_jalr i (base_decoded i))"
  "extract_opcode i = 0x73 \<Longrightarrow>
     d_kind (decode_instruction i) = d_kind (decode_system i (base_decoded i))"
  by (simp_all add: decode_kind case_kind(6-8))

text \<open>Which case of the switch decides whether a word has kind \<open>k\<close>.\<close>

lemma decode_kind_case:
  assumes "k \<noteq> K_Invalid"
  shows "kind_opcode k = 0x33 \<Longrightarrow> d_kind (decode_instruction i) = k \<longleftrightarrow>
           extract_opcode i = 0x33 \<and> d_kind (decode_reg i (base_decoded i)) = k"
    and "kind_opcode k = 0x13 \<Longrightarrow> d_kind (decode_instruction i) = k \<longleftrightarrow>
           extract_opcode i = 0x13 \<and> d_kind (decode_imm i (base_decoded i)) = k"
    and "kind_opcode k = 0x03 \<Longrightarrow> d_kind (decode_instruction i) = k \<longleftrightarrow>
           extract_opcode i = 0x03 \<and> d_kind (decode_load i (base_decoded i)) = k"
    and "kind_opcode k = 0x23 \<Longrightarrow> d_kind (decode_instruction i) = k \<longleftrightarrow>
           extract_opcode i = 0x23 \<and> d_kind (decode_store i (base_decoded i)) = k"
    and "kind_opcode k = 0x63 \<Longrightarrow> d_kind (decode_instruction i) = k \<longleftrightarrow>
           extract_opcode i = 0x63 \<and> d_kind (decode_branch i (base_decoded i)) = k"
    and "kind_opcode k = 0x37 \<Longrightarrow> d_kind (decode_instruction i) = k \<longleftrightarrow>
           extract_opcode i = 0x37 \<and> d_kind (decode_lui i (base_decoded i)) = k"
    and "kind_opcode k = 0x17 \<Longrightarrow> d_kind (decode_instruction i) = k \<longleftrightarrow>
           extract_opcode i = 0x17 \<and> d_kind (decode_auipc i (base_decoded i)) = k"
    and "kind_opcode k = 0x6F \<Longrightarrow> d_kind (decode_instruction i) = k \<longleftrightarrow>
           extract_opcode i = 0x6F \<and> d_kind (decode_jal i (base_decoded i)) = k"
    and "kind_opcode k = 0x67 \<Longrightarrow> d_kind (decode_instruction i) = k \<longleftrightarrow>
           extract_opcode i = 0x67 \<and> d_kind (decode_jalr i (base_decoded i)) = k"
    and "kind_opcode k = 0x73 \<Longrightarrow> d_kind (decode_instruction i) = k \<longleftrightarrow>
           extract_opcode i = 0x73 \<and> d_kind (decode_system i (base_decoded i)) = k"
  using decode_kind_opcode[OF assms] kind_at_opcode by metis+

text \<open>
  The words \<open>decode_instruction\<close> gives kind \<open>k\<close> are those that match the encoding of \<open>k\<close>,
  opcode by opcode.
\<close>

lemma match_reg_kinds:
  "k \<in> {K_Add, K_Sub, K_Sll, K_Slt, K_Sltu, K_Xor, K_Srl, K_Sra, K_Or, K_And} \<Longrightarrow>
   d_kind (decode_instruction i) = k \<longleftrightarrow> i AND fst (rv32i_match k) = snd (rv32i_match k)"
  by (elim insertE emptyE; simp add: decode_kind_case case_kind Let_def opcode_match
      funct3_match funct7_match imm_match mask_funct3 mask_funct7 mask_imm)

lemma match_imm_kinds:
  "k \<in> {K_Addi, K_Slti, K_Sltiu, K_Xori, K_Ori, K_Andi, K_Slli, K_Srli, K_Srai} \<Longrightarrow>
   d_kind (decode_instruction i) = k \<longleftrightarrow> i AND fst (rv32i_match k) = snd (rv32i_match k)"
  by (elim insertE emptyE; simp add: decode_kind_case case_kind Let_def opcode_match
      funct3_match funct7_match imm_match mask_funct3 mask_funct7 mask_imm)

lemma match_load_kinds:
  "k \<in> {K_Lb, K_Lh, K_Lw, K_Lbu, K_Lhu} \<Longrightarrow>
   d_kind (decode_instruction i) = k \<longleftrightarrow> i AND fst (rv32i_match k) = snd (rv32i_match k)"
  by (elim insertE emptyE; simp add: decode_kind_case case_kind Let_def opcode_match
      funct3_match funct7_match imm_match mask_funct3 mask_funct7 mask_imm)

lemma match_store_kinds:
  "k \<in> {K_Sb, K_Sh, K_Sw} \<Longrightarrow>
   d_kind (decode_instruction i) = k \<longleftrightarrow> i AND fst (rv32i_match k) = snd (rv32i_match k)"
  by (elim insertE emptyE; simp add: decode_kind_case case_kind Let_def opcode_match
      funct3_match funct7_match imm_match mask_funct3 mask_funct7 mask_imm)

lemma match_branch_kinds:
  "k \<in> {K_Beq, K_Bne, K_Blt, K_Bge, K_Bltu, K_Bgeu} \<Longrightarrow>
   d_kind (decode_instruction i) = k \<longleftrightarrow> i AND fst (rv32i_match k) = snd (rv32i_match k)"
  by (elim insertE emptyE; simp add: decode_kind_case case_kind Let_def opcode_match
      funct3_match funct7_match imm_match mask_funct3 mask_funct7 mask_imm)

lemma match_other_kinds:
  "k \<in> {K_Lui, K_Auipc, K_Jal, K_Jalr, K_Ecall, K_Ebreak} \<Longrightarrow>
   d_kind (decode_instruction i) = k \<longleftrightarrow> i AND fst (rv32i_match k) = snd (rv32i_match k)"
  by (elim insertE emptyE; simp add: decode_kind_case case_kind Let_def opcode_match
      funct3_match funct7_match imm_match mask_funct3 mask_funct7 mask_imm)

lemma decode_kind_iff_match:
  assumes "k \<noteq> K_Invalid"
  shows "d_kind (decode_instruction i) = k \<longleftrightarrow> i AND fst (rv32i_match k) = snd (rv32i_match k)"
  using assms match_reg_kinds[of k i] match_imm_kinds[of k i] match_load_kinds[of k i]
    match_store_kinds[of k i] match_branch_kinds[of k i] match_other_kinds[of k i]
  by (cases k) simp_all

section \<open>Formats and immediates\<close>

text \<open>
  The format of each kind, and bit \<open>n\<close> of the immediate of each format as the manual draws it:
  the bit of the word it is taken from, bit 31 for the sign.
\<close>

fun kind_format :: "InstructionKind \<Rightarrow> InstructionFormat" where
  "kind_format k =
     (if k \<in> {K_Add, K_Sub, K_Sll, K_Slt, K_Sltu, K_Xor, K_Srl, K_Sra, K_Or, K_And} then Fmt_R
      else if k \<in> {K_Sb, K_Sh, K_Sw} then Fmt_S
      else if k \<in> {K_Beq, K_Bne, K_Blt, K_Bge, K_Bltu, K_Bgeu} then Fmt_B
      else if k \<in> {K_Lui, K_Auipc} then Fmt_U
      else if k = K_Jal then Fmt_J
      else if k = K_Invalid then Fmt_Unknown
      else Fmt_I)"

fun format_bit :: "InstructionFormat \<Rightarrow> u32 \<Rightarrow> nat \<Rightarrow> bool" where
  "format_bit Fmt_R i n = False"
| "format_bit Fmt_I i n = bit i (if n < 11 then 20 + n else 31)"
| "format_bit Fmt_S i n = bit i (if n < 5 then 7 + n else if n < 11 then 20 + n else 31)"
| "format_bit Fmt_B i n = (n \<noteq> 0 \<and>
     bit i (if n < 5 then 7 + n else if n < 11 then 20 + n else if n = 11 then 7 else 31))"
| "format_bit Fmt_U i n = (12 \<le> n \<and> bit i n)"
| "format_bit Fmt_J i n = (n \<noteq> 0 \<and>
     bit i (if n < 11 then 20 + n else if n = 11 then 20 else if n < 20 then n else 31))"
| "format_bit Fmt_Unknown i n = False"

text \<open>The shifts by a constant keep the five bits of the amount only.\<close>

definition immediate_bit :: "InstructionKind \<Rightarrow> u32 \<Rightarrow> nat \<Rightarrow> bool" where
  "immediate_bit k i n =
     (if k \<in> {K_Slli, K_Srli, K_Srai} then n < 5 \<and> bit i (20 + n)
      else format_bit (kind_format k) i n)"

lemma sign_extend_bit:
  assumes "0 < m" "m < 32" "n < 32"
  shows "bit (sign_extend v m) n \<longleftrightarrow> bit v (min n (m - 1))"
  using assms by (simp add: sign_extend_signed_take_bit bit_simps min.commute)

lemma bit_twice: "bit (w * 2 :: u32) n \<longleftrightarrow> n \<noteq> 0 \<and> n < 32 \<and> bit w (n - 1)"
  by (cases n) (auto simp: mult.commute[of w] bit_double_iff possible_bit_def)

lemma u_mask_bit:
  assumes "n < 32"
  shows "bit (0xFFFFF000 :: u32) n \<longleftrightarrow> 12 \<le> n"
proof -
  have eq: "(0xFFFFF000 :: u32) = push_bit 12 (mask 20)" by (simp add: mask_eq_exp_minus_1)
  show ?thesis unfolding eq using assms by (auto simp: bit_push_bit_iff bit_mask_iff)
qed

lemma format_immediates:
  assumes "n < 32"
  shows "bit (i_imm (decode_i_type i)) n = format_bit Fmt_I i n"
    "bit (s_imm (decode_s_type i)) n = format_bit Fmt_S i n"
    "bit (b_imm (decode_b_type i)) n = format_bit Fmt_B i n"
    "bit (u_imm (decode_u_type i)) n = format_bit Fmt_U i n"
    "bit (j_imm (decode_j_type i)) n = format_bit Fmt_J i n"
proof -
  have small: "n < 11 \<Longrightarrow> min n 11 = n" "n < 12 \<Longrightarrow> min n 12 = n" "n < 20 \<Longrightarrow> min n 20 = n"
    "\<not> n < 11 \<Longrightarrow> min n 11 = 11" "\<not> n < 12 \<Longrightarrow> min n 12 = 12" "\<not> n < 20 \<Longrightarrow> min n 20 = 20"
    by simp_all
  show "bit (i_imm (decode_i_type i)) n = format_bit Fmt_I i n"
    using assms small by (cases "n < 11") (simp_all add: decode_i_type_def Let_def sign_extend_bit bit_simps)
  show "bit (s_imm (decode_s_type i)) n = format_bit Fmt_S i n"
    using assms small
    by (cases "n < 11") (auto simp: decode_s_type_def Let_def sign_extend_bit bit_simps)
  show "bit (b_imm (decode_b_type i)) n = format_bit Fmt_B i n"
    using assms small
    by (cases "n < 12") (auto simp: decode_b_type_def Let_def sign_extend_bit bit_simps bit_twice)
  show "bit (u_imm (decode_u_type i)) n = format_bit Fmt_U i n"
    using u_mask_bit[OF assms] by (auto simp: decode_u_type_def bit_and_iff)
  show "bit (j_imm (decode_j_type i)) n = format_bit Fmt_J i n"
    using assms small
    by (cases "n < 20") (auto simp: decode_j_type_def Let_def sign_extend_bit bit_simps bit_twice)
qed

text \<open>What each case of the switch stores, for the words it gives a kind.\<close>

lemma and_31_bit: "bit (w AND 0x1F :: u32) n \<longleftrightarrow> n < 5 \<and> bit w n"
proof -
  have eq: "(0x1F :: u32) = mask 5" by (simp add: mask_eq_exp_minus_1)
  show ?thesis unfolding eq by (auto simp: bit_and_iff bit_mask_iff dest: bit_imp_le_length)
qed

lemma case_format:
  "k = d_kind (decode_reg i (base_decoded i)) \<Longrightarrow> k \<noteq> K_Invalid \<Longrightarrow> n < 32 \<Longrightarrow>
     d_format (decode_reg i (base_decoded i)) = kind_format k \<and>
     bit (d_immediate (decode_reg i (base_decoded i))) n = immediate_bit k i n"
  "k = d_kind (decode_imm i (base_decoded i)) \<Longrightarrow> k \<noteq> K_Invalid \<Longrightarrow> n < 32 \<Longrightarrow>
     d_format (decode_imm i (base_decoded i)) = kind_format k \<and>
     bit (d_immediate (decode_imm i (base_decoded i))) n = immediate_bit k i n"
  "k = d_kind (decode_load i (base_decoded i)) \<Longrightarrow> k \<noteq> K_Invalid \<Longrightarrow> n < 32 \<Longrightarrow>
     d_format (decode_load i (base_decoded i)) = kind_format k \<and>
     bit (d_immediate (decode_load i (base_decoded i))) n = immediate_bit k i n"
  "k = d_kind (decode_store i (base_decoded i)) \<Longrightarrow> k \<noteq> K_Invalid \<Longrightarrow> n < 32 \<Longrightarrow>
     d_format (decode_store i (base_decoded i)) = kind_format k \<and>
     bit (d_immediate (decode_store i (base_decoded i))) n = immediate_bit k i n"
  "k = d_kind (decode_branch i (base_decoded i)) \<Longrightarrow> k \<noteq> K_Invalid \<Longrightarrow> n < 32 \<Longrightarrow>
     d_format (decode_branch i (base_decoded i)) = kind_format k \<and>
     bit (d_immediate (decode_branch i (base_decoded i))) n = immediate_bit k i n"
  "k = d_kind (decode_lui i (base_decoded i)) \<Longrightarrow> k \<noteq> K_Invalid \<Longrightarrow> n < 32 \<Longrightarrow>
     d_format (decode_lui i (base_decoded i)) = kind_format k \<and>
     bit (d_immediate (decode_lui i (base_decoded i))) n = immediate_bit k i n"
  "k = d_kind (decode_auipc i (base_decoded i)) \<Longrightarrow> k \<noteq> K_Invalid \<Longrightarrow> n < 32 \<Longrightarrow>
     d_format (decode_auipc i (base_decoded i)) = kind_format k \<and>
     bit (d_immediate (decode_auipc i (base_decoded i))) n = immediate_bit k i n"
  "k = d_kind (decode_jal i (base_decoded i)) \<Longrightarrow> k \<noteq> K_Invalid \<Longrightarrow> n < 32 \<Longrightarrow>
     d_format (decode_jal i (base_decoded i)) = kind_format k \<and>
     bit (d_immediate (decode_jal i (base_decoded i))) n = immediate_bit k i n"
  "k = d_kind (decode_jalr i (base_decoded i)) \<Longrightarrow> k \<noteq> K_Invalid \<Longrightarrow> n < 32 \<Longrightarrow>
     d_format (decode_jalr i (base_decoded i)) = kind_format k \<and>
     bit (d_immediate (decode_jalr i (base_decoded i))) n = immediate_bit k i n"
  by (auto simp: decode_case_defs Let_def immediate_bit_def format_immediates and_31_bit
      split: if_splits)

lemma case_format_system:
  "k = d_kind (decode_system i (base_decoded i)) \<Longrightarrow> k \<noteq> K_Invalid \<Longrightarrow> n < 32 \<Longrightarrow>
     d_format (decode_system i (base_decoded i)) = kind_format k \<and>
     bit (d_immediate (decode_system i (base_decoded i))) n = immediate_bit k i n"
proof -
  have "d_immediate (decode_system i b) = i_imm (decode_i_type i)" for b
    by (simp add: decode_system_def Let_def)
  moreover have "d_format (decode_system i b) = Fmt_I" for b
    by (simp add: decode_system_def Let_def)
  moreover assume "k = d_kind (decode_system i (base_decoded i))" "k \<noteq> K_Invalid"
  then have "k = K_Ecall \<or> k = K_Ebreak" by (auto simp: case_kind split: if_splits)
  moreover assume "n < 32"
  ultimately show ?thesis by (auto simp: immediate_bit_def format_immediates)
qed

lemma decode_at_opcode:
  "extract_opcode i = 0x33 \<Longrightarrow> decode_instruction i = decode_reg i (base_decoded i)"
  "extract_opcode i = 0x13 \<Longrightarrow> decode_instruction i = decode_imm i (base_decoded i)"
  "extract_opcode i = 0x03 \<Longrightarrow> decode_instruction i = decode_load i (base_decoded i)"
  "extract_opcode i = 0x23 \<Longrightarrow> decode_instruction i = decode_store i (base_decoded i)"
  "extract_opcode i = 0x63 \<Longrightarrow> decode_instruction i = decode_branch i (base_decoded i)"
  "extract_opcode i = 0x37 \<Longrightarrow> decode_instruction i = decode_lui i (base_decoded i)"
  "extract_opcode i = 0x17 \<Longrightarrow> decode_instruction i = decode_auipc i (base_decoded i)"
  "extract_opcode i = 0x6F \<Longrightarrow> decode_instruction i = decode_jal i (base_decoded i)"
  "extract_opcode i = 0x67 \<Longrightarrow> decode_instruction i = decode_jalr i (base_decoded i)"
  "extract_opcode i = 0x73 \<Longrightarrow> decode_instruction i = decode_system i (base_decoded i)"
  by (simp_all add: decode_instruction_def opcode_defs Let_def)

lemma decode_immediate:
  assumes "d_kind (decode_instruction i) \<noteq> K_Invalid" "n < 32"
  shows "d_format (decode_instruction i) = kind_format (d_kind (decode_instruction i)) \<and>
    bit (d_immediate (decode_instruction i)) n =
      immediate_bit (d_kind (decode_instruction i)) i n"
proof -
  note op = decode_kind_opcode[OF assms(1) refl]
  have "extract_opcode i \<in> {0x33, 0x13, 0x03, 0x23, 0x63, 0x37, 0x17, 0x6F, 0x67, 0x73}"
    using assms(1) unfolding op by (cases "d_kind (decode_instruction i)") simp_all
  then show ?thesis
    using assms case_format[OF refl _ assms(2)] case_format_system[OF refl _ assms(2)]
    by (elim insertE emptyE) (simp_all only: decode_at_opcode not_False_eq_True)
qed

end
