(* ===== verification/Encoder.thy ===== *)
theory Encoder
  imports Decoder
begin

text \<open>
  The encoders the unit tests assemble their programs with (\<open>tests/simulator_tests.cpp\<close>), and
  the round trips: decoding an encoded instruction gives back every field and the immediate.
\<close>

unbundle bit_operations_syntax

section \<open>Encoders\<close>

definition encode_r :: "u8 \<Rightarrow> u8 \<Rightarrow> u8 \<Rightarrow> u8 \<Rightarrow> u8 \<Rightarrow> u32" where
  "encode_r funct7 rs2 rs1 funct3 rd =
     push_bit 25 (ucast funct7) OR
     push_bit 20 (ucast rs2) OR
     push_bit 15 (ucast rs1) OR
     push_bit 12 (ucast funct3) OR
     push_bit 7 (ucast rd) OR 0x33"

definition encode_i :: "i32 \<Rightarrow> u8 \<Rightarrow> u8 \<Rightarrow> u8 \<Rightarrow> u8 \<Rightarrow> u32" where
  "encode_i imm rs1 funct3 rd opcode =
     push_bit 20 (imm AND 0xFFF) OR
     push_bit 15 (ucast rs1) OR
     push_bit 12 (ucast funct3) OR
     push_bit 7 (ucast rd) OR ucast opcode"

definition encode_shift_i :: "u8 \<Rightarrow> u8 \<Rightarrow> u8 \<Rightarrow> u8 \<Rightarrow> u8 \<Rightarrow> u32" where
  "encode_shift_i funct7 shamt rs1 funct3 rd =
     push_bit 25 (ucast funct7) OR
     push_bit 20 (ucast (shamt AND 0x1F)) OR
     push_bit 15 (ucast rs1) OR
     push_bit 12 (ucast funct3) OR
     push_bit 7 (ucast rd) OR 0x13"

definition encode_s :: "i32 \<Rightarrow> u8 \<Rightarrow> u8 \<Rightarrow> u8 \<Rightarrow> u32" where
  "encode_s imm rs2 rs1 funct3 =
     (let bits = imm AND 0xFFF in
      push_bit 25 (drop_bit 5 bits AND 0x7F) OR
      push_bit 20 (ucast rs2) OR
      push_bit 15 (ucast rs1) OR
      push_bit 12 (ucast funct3) OR
      push_bit 7 (bits AND 0x1F) OR 0x23)"

definition encode_b :: "i32 \<Rightarrow> u8 \<Rightarrow> u8 \<Rightarrow> u8 \<Rightarrow> u32" where
  "encode_b imm rs2 rs1 funct3 =
     (let bits = imm AND 0x1FFF in
      push_bit 31 (drop_bit 12 bits AND 0x1) OR
      push_bit 25 (drop_bit 5 bits AND 0x3F) OR
      push_bit 20 (ucast rs2) OR
      push_bit 15 (ucast rs1) OR
      push_bit 12 (ucast funct3) OR
      push_bit 8 (drop_bit 1 bits AND 0xF) OR
      push_bit 7 (drop_bit 11 bits AND 0x1) OR 0x63)"

definition encode_u :: "u32 \<Rightarrow> u8 \<Rightarrow> u8 \<Rightarrow> u32" where
  "encode_u imm20 rd opcode =
     push_bit 12 (imm20 AND 0xFFFFF) OR
     push_bit 7 (ucast rd) OR ucast opcode"

definition encode_j :: "i32 \<Rightarrow> u8 \<Rightarrow> u32" where
  "encode_j imm rd =
     (let bits = imm AND 0x1FFFFF in
      push_bit 31 (drop_bit 20 bits AND 0x1) OR
      push_bit 21 (drop_bit 1 bits AND 0x3FF) OR
      push_bit 20 (drop_bit 11 bits AND 0x1) OR
      push_bit 12 (drop_bit 12 bits AND 0xFF) OR
      push_bit 7 (ucast rd) OR 0x6F)"

section \<open>Fields that fit\<close>

lemma fits:
  fixes w :: u8
  shows "unat w < 2 ^ k \<Longrightarrow> k \<le> m \<Longrightarrow> take_bit m (ucast w :: u32) = ucast w"
proof -
  assume "unat w < 2 ^ k" and "k \<le> m"
  then have "unat w < 2 ^ m"
    by (meson less_le_trans one_le_numeral power_increasing)
  moreover have "unat (ucast w :: u32) = unat w"
    by (rule unat_ucast_less, rule less_trans[OF unsigned_less]) simp
  ultimately show ?thesis
    by (simp only: word_unat_eq_iff unsigned_take_bit_eq take_bit_nat_eq_self)
qed

lemma fits3: "unat (w :: u8) < 8 \<Longrightarrow> 3 \<le> m \<Longrightarrow> take_bit m (ucast w :: u32) = ucast w"
  using fits[of w 3 m] by simp

lemma fits5: "unat (w :: u8) < 32 \<Longrightarrow> 5 \<le> m \<Longrightarrow> take_bit m (ucast w :: u32) = ucast w"
  using fits[of w 5 m] by simp

lemma fits7: "unat (w :: u8) < 128 \<Longrightarrow> 7 \<le> m \<Longrightarrow> take_bit m (ucast w :: u32) = ucast w"
  using fits[of w 7 m] by simp

lemma fits_mask:
  fixes x :: "'a::len word"
  shows "k \<le> m \<Longrightarrow> take_bit m (x AND mask k) = x AND mask k"
  by (rule bit_word_eqI) (auto simp: bit_simps)

lemma ucast_ucast_u8: "ucast (ucast (w :: u8) :: u32) = w"
  by (rule bit_word_eqI) (simp add: bit_simps)

lemma mask_numerals:
  "(0x1 :: u32) = mask 1" "(0xF :: u32) = mask 4" "(0x1F :: u32) = mask 5"
  "(0x3F :: u32) = mask 6" "(0x7F :: u32) = mask 7" "(0xFF :: u32) = mask 8"
  "(0x3FF :: u32) = mask 10" "(0xFFF :: u32) = mask 12" "(0x1FFF :: u32) = mask 13"
  "(0xFFFFF :: u32) = mask 20" "(0x1FFFFF :: u32) = mask 21"
  by (simp_all add: mask_eq_exp_minus_1)

lemmas concat_simps = bits_or bits_push_above bits_push_below bits_push_same bits_low_same
  bits_low_below fits3 fits5 fits7 fits_mask  ucast_ucast_u8

text \<open>
  The pieces of a scrambled immediate, put back in their places: one case per bit.
\<close>

lemmas scatter = bit_or_iff bit_push_bit_iff bit_take_bit_iff bit_drop_bit_eq o_apply
  possible_bit_word

lemma less_13_cases:
  "n < 13 \<Longrightarrow> n \<in> {12, 11, 10, 9, 8, 7, 6, 5, 4, 3, 2, 1, 0 :: nat}"
  by (auto simp: numeral_eq_Suc less_Suc_eq)

lemma less_21_cases:
  "n < 21 \<Longrightarrow> n \<in> {20, 19, 18, 17, 16, 15, 14, 13, 12, 11, 10, 9, 8, 7, 6, 5, 4, 3, 2, 1, 0 :: nat}"
  by (auto simp: numeral_eq_Suc less_Suc_eq)

lemma reassemble_s:
  fixes x :: u32
  shows "take_bit 12 (push_bit 5 (take_bit 7 (drop_bit 5 (take_bit 12 x))) OR
      take_bit 5 (take_bit 12 x)) = take_bit 12 x"
proof (rule bit_word_eqI)
  fix n assume "n < LENGTH(32)"
  then show "bit (take_bit 12 (push_bit 5 (take_bit 7 (drop_bit 5 (take_bit 12 x))) OR
      take_bit 5 (take_bit 12 x))) n \<longleftrightarrow> bit (take_bit 12 x) n"
    by (simp only: scatter) auto
qed

lemma reassemble_b:
  fixes x :: u32
  assumes "even x"
  shows "take_bit 13 (push_bit 12 (take_bit 1 (drop_bit 12 (take_bit 13 x))) OR
      push_bit 11 (take_bit 1 (drop_bit 11 (take_bit 13 x))) OR
      push_bit 5 (take_bit 6 (drop_bit 5 (take_bit 13 x))) OR
      push_bit 1 (take_bit 4 (drop_bit 1 (take_bit 13 x)))) = take_bit 13 x"
proof (rule bit_word_eqI)
  fix n assume "n < LENGTH(32)"
  show "bit (take_bit 13 (push_bit 12 (take_bit 1 (drop_bit 12 (take_bit 13 x))) OR
      push_bit 11 (take_bit 1 (drop_bit 11 (take_bit 13 x))) OR
      push_bit 5 (take_bit 6 (drop_bit 5 (take_bit 13 x))) OR
      push_bit 1 (take_bit 4 (drop_bit 1 (take_bit 13 x))))) n \<longleftrightarrow> bit (take_bit 13 x) n"
  proof (cases "n < 13")
    case True
    then show ?thesis
      using assms
      by (drule_tac less_13_cases, simp only: scatter)
        (elim insertE emptyE; simp add: bit_0 del: One_nat_def)
  next
    case False
    then show ?thesis by (simp only: bit_take_bit_iff) simp
  qed
qed

lemma reassemble_j:
  fixes x :: u32
  assumes "even x"
  shows "take_bit 21 (push_bit 20 (take_bit 1 (drop_bit 20 (take_bit 21 x))) OR
      push_bit 12 (take_bit 8 (drop_bit 12 (take_bit 21 x))) OR
      push_bit 11 (take_bit 1 (drop_bit 11 (take_bit 21 x))) OR
      push_bit 1 (take_bit 10 (drop_bit 1 (take_bit 21 x)))) = take_bit 21 x"
proof (rule bit_word_eqI)
  fix n assume "n < LENGTH(32)"
  show "bit (take_bit 21 (push_bit 20 (take_bit 1 (drop_bit 20 (take_bit 21 x))) OR
      push_bit 12 (take_bit 8 (drop_bit 12 (take_bit 21 x))) OR
      push_bit 11 (take_bit 1 (drop_bit 11 (take_bit 21 x))) OR
      push_bit 1 (take_bit 10 (drop_bit 1 (take_bit 21 x))))) n \<longleftrightarrow> bit (take_bit 21 x) n"
  proof (cases "n < 21")
    case True
    then show ?thesis
      using assms
      by (drule_tac less_21_cases, simp only: scatter)
        (elim insertE emptyE; simp add: bit_0 del: One_nat_def)
  next
    case False
    then show ?thesis by (simp only: bit_take_bit_iff) simp
  qed
qed

lemma upper_bits: "w AND 0xFFFFF000 = push_bit 12 (bits w 31 12)"
proof -
  have top: "(0xFFFFF000 :: u32) = NOT (mask 12)"
    by (simp add: mask_eq_exp_minus_1)
  show ?thesis
    unfolding top by (rule bit_word_eqI) (auto simp: bit_simps)
qed

section \<open>Round trips\<close>

text \<open>Registers are below 32, \<open>funct3\<close> below 8 and \<open>funct7\<close> below 128.\<close>

lemma encode_r_roundtrip:
  assumes "unat f7 < 128" "unat rs2 < 32" "unat rs1 < 32" "unat f3 < 8" "unat rd < 32"
  shows "decode_r_type (encode_r f7 rs2 rs1 f3 rd) =
    \<lparr>r_opcode = 0x33, r_rd = rd, r_funct3 = f3, r_rs1 = rs1, r_rs2 = rs2, r_funct7 = f7\<rparr>"
  unfolding decode_r_type_def encode_r_def extract_opcode_def extract_rd_def extract_funct3_def
    extract_rs1_def extract_rs2_def extract_funct7_def
  by (simp add: concat_simps assms)

lemma encode_i_roundtrip:
  assumes "unat rs1 < 32" "unat f3 < 8" "unat rd < 32" "unat opc < 128"
    and "- 2048 \<le> sint imm" "sint imm < 2048"
  shows "decode_i_type (encode_i imm rs1 f3 rd opc) =
    \<lparr>i_opcode = opc, i_rd = rd, i_funct3 = f3, i_rs1 = rs1, i_imm = imm\<rparr>"
proof -
  have "sign_extend (take_bit 12 imm) 12 = imm"
    using assms by (intro sign_extend_take_bit) simp_all
  then show ?thesis
    unfolding decode_i_type_def encode_i_def extract_opcode_def extract_rd_def extract_funct3_def
      extract_rs1_def mask_numerals take_bit_eq_mask [symmetric]
    by (simp add: concat_simps assms Let_def)
qed

lemma encode_s_roundtrip:
  assumes "unat rs2 < 32" "unat rs1 < 32" "unat f3 < 8"
    and "- 2048 \<le> sint imm" "sint imm < 2048"
  shows "decode_s_type (encode_s imm rs2 rs1 f3) =
    \<lparr>s_opcode = 0x23, s_funct3 = f3, s_rs1 = rs1, s_rs2 = rs2, s_imm = imm\<rparr>"
proof -
  let ?b = "take_bit 12 imm"
  have "sign_extend (push_bit 5 (take_bit 7 (drop_bit 5 ?b)) OR take_bit 5 ?b) 12 = imm"
    using assms by (intro sign_extend_take_bit reassemble_s) simp_all
  then show ?thesis
    unfolding decode_s_type_def encode_s_def extract_opcode_def extract_funct3_def
      extract_rs1_def extract_rs2_def mask_numerals take_bit_eq_mask [symmetric] Let_def
    by (simp add: concat_simps assms del: take_bit_Suc_0)
qed

lemma encode_b_roundtrip:
  assumes "unat rs2 < 32" "unat rs1 < 32" "unat f3 < 8"
    and "- 4096 \<le> sint imm" "sint imm < 4096" "even imm"
  shows "decode_b_type (encode_b imm rs2 rs1 f3) =
    \<lparr>b_opcode = 0x63, b_funct3 = f3, b_rs1 = rs1, b_rs2 = rs2, b_imm = imm\<rparr>"
proof -
  let ?b = "take_bit 13 imm"
  have "sign_extend (push_bit 12 (take_bit 1 (drop_bit 12 ?b)) OR
      push_bit 11 (take_bit 1 (drop_bit 11 ?b)) OR
      push_bit 5 (take_bit 6 (drop_bit 5 ?b)) OR
      push_bit 1 (take_bit 4 (drop_bit 1 ?b))) 13 = imm"
    using assms by (intro sign_extend_take_bit reassemble_b) simp_all
  then show ?thesis
    unfolding decode_b_type_def encode_b_def extract_opcode_def extract_funct3_def
      extract_rs1_def extract_rs2_def mask_numerals take_bit_eq_mask [symmetric] Let_def
    by (simp add: concat_simps assms del: take_bit_Suc_0)
qed

lemma encode_u_roundtrip:
  assumes "unat rd < 32" "unat opc < 128"
  shows "decode_u_type (encode_u imm20 rd opc) =
    \<lparr>u_opcode = opc, u_rd = rd, u_imm = push_bit 12 imm20\<rparr>"
proof -
  let ?w = "push_bit 12 (take_bit 20 imm20) OR push_bit 7 (ucast rd) OR ucast opc :: u32"
  have "bits ?w 31 12 = take_bit 20 imm20"
    by (simp add: concat_simps assms)
  then have "?w AND 0xFFFFF000 = push_bit 12 (take_bit 20 imm20)"
    by (simp only: upper_bits)
  also have "\<dots> = push_bit 12 imm20"
    by (rule bit_word_eqI) (auto simp: bit_simps)
  finally have "?w AND 0xFFFFF000 = push_bit 12 imm20" .
  then show ?thesis
    unfolding decode_u_type_def encode_u_def extract_opcode_def extract_rd_def 
      mask_numerals take_bit_eq_mask [symmetric] 
    by (simp add: concat_simps assms del: take_bit_Suc_0)
qed

lemma encode_j_roundtrip:
  assumes "unat rd < 32" "- 1048576 \<le> sint imm" "sint imm < 1048576" "even imm"
  shows "decode_j_type (encode_j imm rd) = \<lparr>j_opcode = 0x6F, j_rd = rd, j_imm = imm\<rparr>"
proof -
  let ?b = "take_bit 21 imm"
  have "sign_extend (push_bit 20 (take_bit 1 (drop_bit 20 ?b)) OR
      push_bit 12 (take_bit 8 (drop_bit 12 ?b)) OR
      push_bit 11 (take_bit 1 (drop_bit 11 ?b)) OR
      push_bit 1 (take_bit 10 (drop_bit 1 ?b))) 21 = imm"
    using assms by (intro sign_extend_take_bit reassemble_j) simp_all
  then show ?thesis
    unfolding decode_j_type_def encode_j_def extract_opcode_def extract_rd_def
      mask_numerals take_bit_eq_mask [symmetric] Let_def
    by (simp add: concat_simps assms del: take_bit_Suc_0)
qed

end
