(* ===== verification/Cpu.thy ===== *)
theory Cpu
  imports Branch_Predictor
begin

text \<open>
  \<open>include/cpu.hpp\<close> and \<open>src/cpu.cpp\<close>: the architectural state (registers, program counter,
  byte-addressed little-endian memory, halt flag), the log of memory writes, the statistics and
  the branch predictor, with the operations of the class \<open>CPU\<close>.
\<close>

unbundle bit_operations_syntax

section \<open>State\<close>

record ExecutionStats =
  clock_cycles :: u64
  instruction_count :: u64
  stall_cycles :: u64
  branch_predictions :: u64
  branch_mispredictions :: u64

definition zero_stats :: ExecutionStats where
  "zero_stats = \<lparr>clock_cycles = 0, instruction_count = 0, stall_cycles = 0,
                 branch_predictions = 0, branch_mispredictions = 0\<rparr>"

record MemoryWrite =
  mw_address :: u32
  mw_byte_count :: u32

definition kNumRegisters :: nat where "kNumRegisters = 32"
definition kResetPC :: u32 where "kResetPC = 0"

record CPU =
  cpu_config :: Config
  cpu_predictor :: BranchPredictor
  cpu_regs :: "u32 list"
  cpu_pc :: u32
  cpu_halted :: bool
  cpu_memory :: "u8 list"
  cpu_memory_writes :: "MemoryWrite list"
  cpu_stats :: ExecutionStats

definition new_CPU :: "nat \<Rightarrow> Config \<Rightarrow> CPU" where
  "new_CPU memory_size_bytes config =
     \<lparr>cpu_config = config, cpu_predictor = new_predictor, cpu_regs = replicate kNumRegisters 0,
      cpu_pc = kResetPC, cpu_halted = False, cpu_memory = replicate memory_size_bytes 0,
      cpu_memory_writes = [], cpu_stats = zero_stats\<rparr>"

definition reset :: "CPU \<Rightarrow> CPU" where
  "reset cpu = cpu\<lparr>cpu_regs := replicate kNumRegisters 0, cpu_pc := kResetPC,
                   cpu_halted := False, cpu_memory_writes := [], cpu_stats := zero_stats,
                   cpu_predictor := reset_predictor (cpu_predictor cpu)\<rparr>"

section \<open>Program counter, halting, clock\<close>

definition set_pc :: "CPU \<Rightarrow> u32 \<Rightarrow> CPU" where
  "set_pc cpu next_pc = cpu\<lparr>cpu_pc := next_pc\<rparr>"

definition advance_pc :: "CPU \<Rightarrow> u32 \<Rightarrow> CPU" where
  "advance_pc cpu bytes = cpu\<lparr>cpu_pc := cpu_pc cpu + bytes\<rparr>"

definition halt :: "CPU \<Rightarrow> CPU" where
  "halt cpu = cpu\<lparr>cpu_halted := True\<rparr>"

definition memory_size :: "CPU \<Rightarrow> nat" where
  "memory_size cpu = length (cpu_memory cpu)"

definition clear_memory_writes :: "CPU \<Rightarrow> CPU" where
  "clear_memory_writes cpu = cpu\<lparr>cpu_memory_writes := []\<rparr>"

definition tick :: "CPU \<Rightarrow> CPU" where
  "tick cpu = cpu\<lparr>cpu_stats := (cpu_stats cpu)\<lparr>clock_cycles := clock_cycles (cpu_stats cpu) + 1\<rparr>\<rparr>"

definition predict_branch :: "CPU \<Rightarrow> u32 \<Rightarrow> bool" where
  "predict_branch cpu branch_pc =
     predict (cpu_predictor cpu) branch_pc (branch_predictor_type (cpu_config cpu))"

definition update_branch_predictor :: "CPU \<Rightarrow> u32 \<Rightarrow> bool \<Rightarrow> CPU" where
  "update_branch_predictor cpu branch_pc actual_taken =
     cpu\<lparr>cpu_predictor := update_predictor (cpu_predictor cpu) branch_pc actual_taken
                            (branch_predictor_type (cpu_config cpu))\<rparr>"

section \<open>Checks\<close>

definition bad_register :: cpp_exception where
  "bad_register = Out_of_range ''register index must be in range x0..x31''"

definition bad_address :: cpp_exception where
  "bad_address = Out_of_range ''memory access exceeds simulated RAM bounds''"

definition validate_register_index :: "u8 \<Rightarrow> unit result" where
  "validate_register_index reg_index =
     (if unat reg_index \<ge> kNumRegisters then Inl bad_register else Inr ())"

definition validate_memory_access :: "CPU \<Rightarrow> u32 \<Rightarrow> nat \<Rightarrow> unit result" where
  "validate_memory_access cpu address width =
     (if width = 0 then Inr ()
      else let start = unat address in
        if start > memory_size cpu \<or> width > memory_size cpu - start then Inl bad_address
        else Inr ())"

definition record_memory_write :: "CPU \<Rightarrow> u32 \<Rightarrow> u32 \<Rightarrow> CPU" where
  "record_memory_write cpu address byte_count =
     cpu\<lparr>cpu_memory_writes := cpu_memory_writes cpu @
           [\<lparr>mw_address = address, mw_byte_count = byte_count\<rparr>]\<rparr>"

section \<open>Registers\<close>

definition read_reg :: "CPU \<Rightarrow> u8 \<Rightarrow> u32 result" where
  "read_reg cpu reg_index =
     res_bind (validate_register_index reg_index) (\<lambda>_.
       if reg_index = 0 then Inr 0 else Inr (cpu_regs cpu ! unat reg_index))"

definition write_reg :: "CPU \<Rightarrow> u8 \<Rightarrow> u32 \<Rightarrow> CPU result" where
  "write_reg cpu reg_index v =
     res_bind (validate_register_index reg_index) (\<lambda>_.
       if reg_index = 0 then Inr cpu
       else Inr (cpu\<lparr>cpu_regs := (cpu_regs cpu)[unat reg_index := v]\<rparr>))"

section \<open>Memory\<close>

text \<open>
  The byte at \<open>address + k\<close> is indexed by a 32-bit sum, as in the sources; within a memory of
  at most \<open>2\<^sup>3\<^sup>2\<close> bytes the check before it rules out a wrap (lemma \<open>access_index\<close>).
\<close>

definition byte_at :: "CPU \<Rightarrow> u32 \<Rightarrow> u8" where
  "byte_at cpu address = cpu_memory cpu ! unat address"

definition set_byte :: "CPU \<Rightarrow> u32 \<Rightarrow> u8 \<Rightarrow> CPU" where
  "set_byte cpu address v = cpu\<lparr>cpu_memory := (cpu_memory cpu)[unat address := v]\<rparr>"

definition read_u8 :: "CPU \<Rightarrow> u32 \<Rightarrow> u8 result" where
  "read_u8 cpu address =
     res_bind (validate_memory_access cpu address 1) (\<lambda>_. Inr (byte_at cpu address))"

definition read_u16 :: "CPU \<Rightarrow> u32 \<Rightarrow> u16 result" where
  "read_u16 cpu address =
     res_bind (validate_memory_access cpu address 2) (\<lambda>_.
       Inr (ucast (byte_at cpu address) OR push_bit 8 (ucast (byte_at cpu (address + 1)))))"

definition read_u32 :: "CPU \<Rightarrow> u32 \<Rightarrow> u32 result" where
  "read_u32 cpu address =
     res_bind (validate_memory_access cpu address 4) (\<lambda>_.
       Inr (ucast (byte_at cpu address) OR
            push_bit 8 (ucast (byte_at cpu (address + 1))) OR
            push_bit 16 (ucast (byte_at cpu (address + 2))) OR
            push_bit 24 (ucast (byte_at cpu (address + 3)))))"

definition write_u8 :: "CPU \<Rightarrow> u32 \<Rightarrow> u8 \<Rightarrow> CPU result" where
  "write_u8 cpu address v =
     res_bind (validate_memory_access cpu address 1) (\<lambda>_.
       let cpu = set_byte cpu address v in
       Inr (record_memory_write cpu address 1))"

definition write_u16 :: "CPU \<Rightarrow> u32 \<Rightarrow> u16 \<Rightarrow> CPU result" where
  "write_u16 cpu address v =
     res_bind (validate_memory_access cpu address 2) (\<lambda>_.
       let cpu = set_byte cpu address (ucast (v AND 0xFF));
           cpu = set_byte cpu (address + 1) (ucast (drop_bit 8 v AND 0xFF)) in
       Inr (record_memory_write cpu address 2))"

definition write_u32 :: "CPU \<Rightarrow> u32 \<Rightarrow> u32 \<Rightarrow> CPU result" where
  "write_u32 cpu address v =
     res_bind (validate_memory_access cpu address 4) (\<lambda>_.
       let cpu = set_byte cpu address (ucast (v AND 0xFF));
           cpu = set_byte cpu (address + 1) (ucast (drop_bit 8 v AND 0xFF));
           cpu = set_byte cpu (address + 2) (ucast (drop_bit 16 v AND 0xFF));
           cpu = set_byte cpu (address + 3) (ucast (drop_bit 24 v AND 0xFF)) in
       Inr (record_memory_write cpu address 4))"

definition load_program :: "CPU \<Rightarrow> u8 list \<Rightarrow> u32 \<Rightarrow> CPU result" where
  "load_program cpu program base_address =
     (if program = [] then Inr cpu
      else res_bind (validate_memory_access cpu base_address (length program)) (\<lambda>_.
        let base = unat base_address;
            memory = take base (cpu_memory cpu) @ program @
                     drop (base + length program) (cpu_memory cpu);
            cpu = cpu\<lparr>cpu_memory := memory, cpu_pc := base_address, cpu_halted := False\<rparr> in
        Inr (clear_memory_writes cpu)))"

section \<open>Interface of a register file\<close>

text \<open>
  Reads and writes of 32 registers through results that may fail, with register 0 fixed at
  zero. The clients (writeback, decode, forwarding) use only these laws.
\<close>

locale register_file =
  fixes ok :: "'s \<Rightarrow> bool"
    and rd :: "'s \<Rightarrow> u8 \<Rightarrow> u32 result"
    and wr :: "'s \<Rightarrow> u8 \<Rightarrow> u32 \<Rightarrow> 's result"
  assumes rd_in: "ok s \<Longrightarrow> unat r < 32 \<Longrightarrow> \<exists>v. rd s r = Inr v"
    and rd_zero: "ok s \<Longrightarrow> rd s 0 = Inr 0"
    and rd_out: "32 \<le> unat r \<Longrightarrow> rd s r = Inl bad_register"
    and wr_in: "ok s \<Longrightarrow> unat r < 32 \<Longrightarrow> \<exists>t. wr s r v = Inr t"
    and wr_out: "32 \<le> unat r \<Longrightarrow> wr s r v = Inl bad_register"
    and wr_ok: "ok s \<Longrightarrow> wr s r v = Inr t \<Longrightarrow> ok t"
    and rd_wr: "ok s \<Longrightarrow> wr s r v = Inr t \<Longrightarrow>
          rd t q = (if q = r \<and> r \<noteq> 0 then Inr v else rd s q)"
begin

lemma wr_zero_invisible: "ok s \<Longrightarrow> wr s 0 v = Inr t \<Longrightarrow> rd t q = rd s q"
  by (simp add: rd_wr)

lemma rd_total_iff: "ok s \<Longrightarrow> (\<exists>v. rd s r = Inr v) \<longleftrightarrow> unat r < 32"
  using rd_in[of s r] rd_out[of r s] by (cases "unat r < 32") auto

text \<open>A sequence of writes: the last write to a register decides what is read.\<close>

primrec wr_list :: "'s \<Rightarrow> (u8 \<times> u32) list \<Rightarrow> 's result" where
  "wr_list s [] = Inr s"
| "wr_list s (w # ws) = res_bind (wr s (fst w) (snd w)) (\<lambda>t. wr_list t ws)"

lemma wr_list_in:
  "ok s \<Longrightarrow> \<forall>w \<in> set ws. unat (fst w) < 32 \<Longrightarrow> \<exists>t. wr_list s ws = Inr t \<and> ok t"
proof (induction ws arbitrary: s)
  case Nil
  then show ?case by simp
next
  case (Cons w ws)
  then obtain t where "wr s (fst w) (snd w) = Inr t" "ok t"
    using wr_in[of s "fst w" "snd w"] wr_ok by auto
  with Cons show ?case by simp
qed

lemma rd_wr_list:
  "ok s \<Longrightarrow> wr_list s ws = Inr t \<Longrightarrow> q \<noteq> 0 \<Longrightarrow>
   rd t q = (case map_of (rev ws) q of Some v \<Rightarrow> Inr v | None \<Rightarrow> rd s q)"
proof (induction ws arbitrary: s)
  case Nil
  then show ?case by simp
next
  case (Cons w ws)
  then obtain u where u: "wr s (fst w) (snd w) = Inr u" "wr_list u ws = Inr t"
    by (auto simp: res_bind_eq_Inr)
  moreover have "ok u" using Cons.prems(1) u(1) by (rule wr_ok)
  ultimately show ?case
    using Cons rd_wr[OF Cons.prems(1) u(1), of q]
    by (cases w) (auto simp: map_add_def split: option.splits)
qed

end

section \<open>Interface of memory accesses of one width\<close>

text \<open>
  An access of \<open>width\<close> bytes at an address: it fails exactly when it would leave the memory, a
  read decodes the bytes there and a write replaces them by the encoding of the value.
\<close>

locale byte_access =
  fixes ok :: "'s \<Rightarrow> bool"
    and mem :: "'s \<Rightarrow> u8 list"
    and width :: nat
    and val :: "u8 list \<Rightarrow> 'v"
    and enc :: "'v \<Rightarrow> u8 list"
    and rd :: "'s \<Rightarrow> u32 \<Rightarrow> 'v result"
    and wr :: "'s \<Rightarrow> u32 \<Rightarrow> 'v \<Rightarrow> 's result"
  assumes enc_length: "length (enc v) = width"
    and val_enc: "val (enc v) = v"
    and rd_in: "ok s \<Longrightarrow> unat a + width \<le> length (mem s) \<Longrightarrow>
          rd s a = Inr (val (take width (drop (unat a) (mem s))))"
    and rd_out: "length (mem s) < unat a + width \<Longrightarrow> rd s a = Inl bad_address"
    and wr_in: "ok s \<Longrightarrow> unat a + width \<le> length (mem s) \<Longrightarrow>
          \<exists>t. wr s a v = Inr t \<and> ok t \<and> mem t = splice_at (mem s) (unat a) (enc v)"
    and wr_out: "length (mem s) < unat a + width \<Longrightarrow> wr s a v = Inl bad_address"
begin

lemma rd_fails_iff: "ok s \<Longrightarrow> rd s a = Inl e \<longleftrightarrow> e = bad_address \<and> length (mem s) < unat a + width"
  using rd_in[of s a] rd_out[of s a] by (cases "unat a + width \<le> length (mem s)") auto

lemma wr_fails_iff: "ok s \<Longrightarrow> wr s a v = Inl e \<longleftrightarrow> e = bad_address \<and> length (mem s) < unat a + width"
  using wr_in[of s a v] wr_out[of s a v] by (cases "unat a + width \<le> length (mem s)") auto

lemma wrD:
  assumes "ok s" "wr s a v = Inr t"
  shows "unat a + width \<le> length (mem s)" "ok t" "mem t = splice_at (mem s) (unat a) (enc v)"
proof -
  show in_range: "unat a + width \<le> length (mem s)"
    using assms wr_out[of s a v] by (metis Inl_Inr_False not_less)
  from wr_in[OF assms(1) in_range, of v] assms(2)
  show "ok t" "mem t = splice_at (mem s) (unat a) (enc v)" by auto
qed

lemma rd_after_wr: "ok s \<Longrightarrow> wr s a v = Inr t \<Longrightarrow> rd t a = Inr v"
  using wrD[of s a v t] rd_in[of t a]
    take_drop_splice_same[of "unat a" "enc v" "mem s"]
  by (simp add: enc_length val_enc)

lemma rd_disjoint:
  assumes "ok s" "wr s a v = Inr t"
    and "unat b + width \<le> unat a \<or> unat a + width \<le> unat b"
  shows "rd t b = rd s b"
proof (cases "unat b + width \<le> length (mem s)")
  case True
  then show ?thesis
    using wrD[OF assms(1,2)] rd_in[of t b] rd_in[of s b] assms(1,3)
    by (simp add: enc_length take_drop_splice_other)
next
  case False
  then show ?thesis
    using wrD[OF assms(1,2)] rd_out[of t b] rd_out[of s b]
    by (simp add: enc_length)
qed

end

section \<open>The CPU provides both interfaces\<close>

text \<open>Well-formed CPU state: 32 registers, a valid predictor, an addressable memory.\<close>

definition cpu_ok :: "CPU \<Rightarrow> bool" where
  "cpu_ok cpu \<longleftrightarrow> length (cpu_regs cpu) = 32 \<and> predictor_ok (cpu_predictor cpu) \<and>
     length (cpu_memory cpu) \<le> 2 ^ 32"

text \<open>The value of a register, with \<open>x0\<close> read as zero.\<close>

definition reg_val :: "CPU \<Rightarrow> u8 \<Rightarrow> u32" where
  "reg_val cpu r = (if r = 0 then 0 else cpu_regs cpu ! unat r)"

lemma reg_val_0 [simp]: "reg_val cpu 0 = 0"
  by (simp add: reg_val_def)

lemma read_reg_in: "unat r < 32 \<Longrightarrow> read_reg cpu r = Inr (reg_val cpu r)"
  by (simp add: read_reg_def validate_register_index_def kNumRegisters_def reg_val_def)

lemma write_reg_in:
  "unat r < 32 \<Longrightarrow> write_reg cpu r v =
     Inr (if r = 0 then cpu else cpu\<lparr>cpu_regs := (cpu_regs cpu)[unat r := v]\<rparr>)"
  by (simp add: write_reg_def validate_register_index_def kNumRegisters_def)

interpretation xregs: register_file "\<lambda>cpu. length (cpu_regs cpu) = 32" read_reg write_reg
proof
  fix s t :: CPU and r q v
  show "32 \<le> unat r \<Longrightarrow> read_reg s r = Inl bad_register"
    by (simp add: read_reg_def validate_register_index_def kNumRegisters_def)
  show "32 \<le> unat r \<Longrightarrow> write_reg s r v = Inl bad_register"
    by (simp add: write_reg_def validate_register_index_def kNumRegisters_def)
  assume ok: "length (cpu_regs s) = 32"
  show "unat r < 32 \<Longrightarrow> \<exists>v. read_reg s r = Inr v" by (simp add: read_reg_in)
  show "read_reg s 0 = Inr 0" by (simp add: read_reg_in)
  show "unat r < 32 \<Longrightarrow> \<exists>t. write_reg s r v = Inr t" by (simp add: write_reg_in)
  assume w: "write_reg s r v = Inr t"
  then have r: "unat r < 32"
    by (simp add: write_reg_def validate_register_index_def kNumRegisters_def res_bind_eq_Inr
        split: if_splits)
  show "length (cpu_regs t) = 32"
    using w r ok by (auto simp: write_reg_in split: if_splits)
  show "read_reg t q = (if q = r \<and> r \<noteq> 0 then Inr v else read_reg s q)"
  proof (cases "q = r")
    case True
    then show ?thesis
      using w r ok by (auto simp: write_reg_in read_reg_in reg_val_def split: if_splits)
  next
    case False
    then have "unat q \<noteq> unat r" by (simp add: word_unat_eq_iff)
    with False show ?thesis
      using w r ok by (auto simp: write_reg_in read_reg_def split: if_splits)
  qed
qed

subsection \<open>Memory\<close>

lemma validate_in:
  "unat a + width \<le> length (cpu_memory cpu) \<Longrightarrow> validate_memory_access cpu a width = Inr ()"
  by (auto simp: validate_memory_access_def memory_size_def Let_def)

lemma validate_out:
  "length (cpu_memory cpu) < unat a + width \<Longrightarrow> 0 < width \<Longrightarrow>
   validate_memory_access cpu a width = Inl bad_address"
  by (auto simp: validate_memory_access_def memory_size_def Let_def)

lemma access_index:
  fixes a :: u32
  assumes "length (cpu_memory cpu) \<le> 2 ^ 32" and "unat a + Suc k \<le> length (cpu_memory cpu)"
  shows "unat (a + of_nat k) = unat a + k"
  using assms by (intro unat_add_numeral32) simp

lemma byte_at_index:
  fixes a :: u32
  assumes "length (cpu_memory cpu) \<le> 2 ^ 32"
  shows "unat a + 2 \<le> length (cpu_memory cpu) \<Longrightarrow> unat (a + 1) = unat a + 1"
    and "unat a + 3 \<le> length (cpu_memory cpu) \<Longrightarrow> unat (a + 2) = unat a + 2"
    and "unat a + 4 \<le> length (cpu_memory cpu) \<Longrightarrow> unat (a + 3) = unat a + 3"
  using access_index[OF assms, of a 1] access_index[OF assms, of a 2]
    access_index[OF assms, of a 3]
  by simp_all

lemma slice_nth:
  "a + 1 \<le> length xs \<Longrightarrow> take 1 (drop a xs) = [xs ! a]"
  "a + 2 \<le> length xs \<Longrightarrow> take 2 (drop a xs) = [xs ! a, xs ! (a + 1)]"
  "a + 4 \<le> length xs \<Longrightarrow>
     take 4 (drop a xs) = [xs ! a, xs ! (a + 1), xs ! (a + 2), xs ! (a + 3)]"
  by (simp_all add: take_Suc_conv_app_nth numeral_eq_Suc)

definition set_memory :: "CPU \<Rightarrow> u32 \<Rightarrow> u8 list \<Rightarrow> CPU" where
  "set_memory cpu a bytes =
     cpu\<lparr>cpu_memory := splice_at (cpu_memory cpu) (unat a) bytes,
         cpu_memory_writes := cpu_memory_writes cpu @
           [\<lparr>mw_address = a, mw_byte_count = of_nat (length bytes)\<rparr>]\<rparr>"

lemma read_in:
  assumes "length (cpu_memory cpu) \<le> 2 ^ 32"
  shows "unat a + 1 \<le> length (cpu_memory cpu) \<Longrightarrow>
      read_u8 cpu a = Inr (le_value (take 1 (drop (unat a) (cpu_memory cpu))))"
    and "unat a + 2 \<le> length (cpu_memory cpu) \<Longrightarrow>
      read_u16 cpu a = Inr (le_value (take 2 (drop (unat a) (cpu_memory cpu))))"
    and "unat a + 4 \<le> length (cpu_memory cpu) \<Longrightarrow>
      read_u32 cpu a = Inr (le_value (take 4 (drop (unat a) (cpu_memory cpu))))"
  using byte_at_index[OF assms, of a]
  by (simp_all only: slice_nth read_u8_def read_u16_def read_u32_def validate_in res_bind_simps
      byte_at_def le_value.simps push_bit_or push_bit_push_bit)
    (simp_all add: or.assoc)

lemma low_byte: "ucast (w AND 0xFF) = (ucast w :: u8)" for w :: "'a::len word"
proof -
  have m: "(0xFF :: 'a word) = mask 8" by (simp add: mask_eq_exp_minus_1)
  show ?thesis unfolding m
    by (rule bit_word_eqI) (auto simp: bit_simps dest: bit_imp_le_length)
qed

lemma write_in:
  assumes "length (cpu_memory cpu) \<le> 2 ^ 32"
  shows "unat a + 1 \<le> length (cpu_memory cpu) \<Longrightarrow>
      write_u8 cpu a v1 = Inr (set_memory cpu a (le_bytes 1 v1))"
    and "unat a + 2 \<le> length (cpu_memory cpu) \<Longrightarrow>
      write_u16 cpu a v2 = Inr (set_memory cpu a (le_bytes 2 v2))"
    and "unat a + 4 \<le> length (cpu_memory cpu) \<Longrightarrow>
      write_u32 cpu a v4 = Inr (set_memory cpu a (le_bytes 4 v4))"
  using byte_at_index[OF assms, of a]
  by (simp_all add: write_u8_def write_u16_def write_u32_def validate_in Let_def set_memory_def
      record_memory_write_def set_byte_def low_byte numeral_eq_Suc splice_at_Cons)

lemma access_out:
  "length (cpu_memory cpu) < unat a + 1 \<Longrightarrow> read_u8 cpu a = Inl bad_address"
  "length (cpu_memory cpu) < unat a + 2 \<Longrightarrow> read_u16 cpu a = Inl bad_address"
  "length (cpu_memory cpu) < unat a + 4 \<Longrightarrow> read_u32 cpu a = Inl bad_address"
  "length (cpu_memory cpu) < unat a + 1 \<Longrightarrow> write_u8 cpu a v1 = Inl bad_address"
  "length (cpu_memory cpu) < unat a + 2 \<Longrightarrow> write_u16 cpu a v2 = Inl bad_address"
  "length (cpu_memory cpu) < unat a + 4 \<Longrightarrow> write_u32 cpu a v4 = Inl bad_address"
  by (simp_all add: read_u8_def read_u16_def read_u32_def write_u8_def write_u16_def
      write_u32_def validate_out)

lemma set_memory_simps [simp]:
  "cpu_memory (set_memory cpu a bs) = splice_at (cpu_memory cpu) (unat a) bs"
  "cpu_regs (set_memory cpu a bs) = cpu_regs cpu"
  "cpu_pc (set_memory cpu a bs) = cpu_pc cpu"
  "cpu_halted (set_memory cpu a bs) = cpu_halted cpu"
  "cpu_stats (set_memory cpu a bs) = cpu_stats cpu"
  "cpu_config (set_memory cpu a bs) = cpu_config cpu"
  "cpu_predictor (set_memory cpu a bs) = cpu_predictor cpu"
  "cpu_memory_writes (set_memory cpu a bs) = cpu_memory_writes cpu @
     [\<lparr>mw_address = a, mw_byte_count = of_nat (length bs)\<rparr>]"
  by (simp_all add: set_memory_def)

lemma le_roundtrip:
  "le_value (le_bytes 1 b) = (b :: u8)" "le_value (le_bytes 2 h) = (h :: u16)"
  "le_value (le_bytes 4 w) = (w :: u32)"
  by (simp_all add: le_value_le_bytes_full)

interpretation mem8: byte_access "\<lambda>cpu. length (cpu_memory cpu) \<le> 2 ^ 32" cpu_memory 1
  le_value "le_bytes 1 :: u8 \<Rightarrow> u8 list" read_u8 write_u8
  by unfold_locales (simp_all only: length_le_bytes le_roundtrip read_in access_out,
      auto simp: write_in)

interpretation mem16: byte_access "\<lambda>cpu. length (cpu_memory cpu) \<le> 2 ^ 32" cpu_memory 2
  le_value "le_bytes 2 :: u16 \<Rightarrow> u8 list" read_u16 write_u16
  by unfold_locales (simp_all only: length_le_bytes le_roundtrip read_in access_out,
      auto simp: write_in)

interpretation mem32: byte_access "\<lambda>cpu. length (cpu_memory cpu) \<le> 2 ^ 32" cpu_memory 4
  le_value "le_bytes 4 :: u32 \<Rightarrow> u8 list" read_u32 write_u32
  by unfold_locales (simp_all only: length_le_bytes le_roundtrip read_in access_out,
      auto simp: write_in)

lemma nth_le_bytes: "k < n \<Longrightarrow> le_bytes n w ! k = ucast (drop_bit (8 * k) w)"
proof (induction n arbitrary: w k)
  case (Suc n)
  then show ?case by (cases k) (simp_all add: drop_bit_drop_bit add.commute)
qed simp

lemma word_write_bytes:
  assumes "length (cpu_memory c) \<le> 2 ^ 32" "write_u32 c a v = Inr c'" "k < 4"
  shows "read_u8 c' (a + of_nat k) = Inr (ucast (drop_bit (8 * k) v))"
proof -
  note w = mem32.wrD[OF assms(1,2)]
  have len: "length (cpu_memory c') = length (cpu_memory c)" using w by simp
  have idx: "unat (a + of_nat k) = unat a + k"
    using access_index[OF assms(1), of a k] w(1) assms(3) by simp
  then have "unat (a + of_nat k) + 1 \<le> length (cpu_memory c')"
    using w(1) assms(3) len by simp
  then have "read_u8 c' (a + of_nat k) = Inr (le_value (take 1 (drop (unat a + k) (cpu_memory c'))))"
    using read_in(1)[of c' "a + of_nat k"] w(2) idx by simp
  also have "take 1 (drop (unat a + k) (cpu_memory c')) = [cpu_memory c' ! (unat a + k)]"
    using w(1) assms(3) len by (intro slice_nth) simp
  also have "cpu_memory c' ! (unat a + k) = ucast (drop_bit (8 * k) v)"
    using w(1,3) assms(3) by (simp add: nth_splice_at nth_le_bytes)
  finally show ?thesis by simp
qed

subsection \<open>Programs\<close>

lemma load_program_in:
  assumes "program \<noteq> []" and "unat base + length program \<le> length (cpu_memory cpu)"
  shows "load_program cpu program base =
    Inr (cpu\<lparr>cpu_memory := splice_at (cpu_memory cpu) (unat base) program,
             cpu_pc := base, cpu_halted := False, cpu_memory_writes := []\<rparr>)"
  using assms
  by (simp add: load_program_def validate_in Let_def clear_memory_writes_def splice_at_def)

lemma load_program_out:
  "program \<noteq> [] \<Longrightarrow> length (cpu_memory cpu) < unat base + length program \<Longrightarrow>
   load_program cpu program base = Inl bad_address"
  by (simp add: load_program_def validate_out)

lemma load_program_ok:
  assumes "cpu_ok cpu" and "load_program cpu program base = Inr cpu'"
  shows "cpu_ok cpu'"
proof (cases "program = []")
  case True
  with assms show ?thesis by (simp add: load_program_def)
next
  case False
  then show ?thesis
    using assms load_program_in[OF False, of base cpu] load_program_out[OF False, of cpu base]
    by (cases "unat base + length program \<le> length (cpu_memory cpu)")
      (auto simp: cpu_ok_def not_le)
qed

subsection \<open>Invariants and frames\<close>

lemma new_CPU_ok: "n \<le> 2 ^ 32 \<Longrightarrow> cpu_ok (new_CPU n config)"
  by (simp add: cpu_ok_def new_CPU_def kNumRegisters_def new_predictor_ok)

lemma reset_ok: "cpu_ok cpu \<Longrightarrow> cpu_ok (reset cpu)"
  by (simp add: cpu_ok_def reset_def kNumRegisters_def reset_predictor_ok)

lemma cpu_ok_simple [simp]:
  "cpu_ok (set_pc cpu pc) = cpu_ok cpu"
  "cpu_ok (halt cpu) = cpu_ok cpu"
  "cpu_ok (tick cpu) = cpu_ok cpu"
  "cpu_ok (cpu\<lparr>cpu_stats := st\<rparr>) = cpu_ok cpu"
  by (simp_all add: cpu_ok_def set_pc_def halt_def tick_def)

lemma update_branch_predictor_ok: "cpu_ok cpu \<Longrightarrow> cpu_ok (update_branch_predictor cpu pc t)"
  by (simp add: cpu_ok_def update_branch_predictor_def update_bounded)

lemma write_reg_ok: "cpu_ok cpu \<Longrightarrow> write_reg cpu r v = Inr cpu' \<Longrightarrow> cpu_ok cpu'"
  by (cases "unat r < 32")
    (auto simp: write_reg_in cpu_ok_def xregs.wr_out split: if_splits)

lemma set_memory_ok:
  "cpu_ok cpu \<Longrightarrow> unat a + length bs \<le> length (cpu_memory cpu) \<Longrightarrow> cpu_ok (set_memory cpu a bs)"
  by (simp add: cpu_ok_def)

text \<open>Register indices above 31 are refused by reads and writes alike, with one message.\<close>

lemma register_index_checked:
  "(read_reg c r = Inl bad_register \<longleftrightarrow> 32 \<le> unat r) \<and>
   (write_reg c r v = Inl bad_register \<longleftrightarrow> 32 \<le> unat r)"
  by (cases "unat r < 32") (simp_all add: read_reg_in write_reg_in xregs.rd_out xregs.wr_out)

end
