(* ===== verification/Forwarding_Unit.thy ===== *)
theory Forwarding_Unit
  imports Pipeline_Registers
begin

text \<open>
  \<open>include/forwarding_unit.hpp\<close> and \<open>src/forwarding_unit.cpp\<close>: the operands of the instruction
  in EX, taken from the results still travelling in EX/MEM and MEM/WB where these are newer than
  what decode read.
\<close>

record ForwardedOperands =
  fo_rs1_value :: u32
  fo_rs2_value :: u32
  forwarded_rs1 :: bool
  forwarded_rs2 :: bool

definition can_forward_from_ex_mem :: "EXMEMRegister \<Rightarrow> bool" where
  "can_forward_from_ex_mem r \<longleftrightarrow> exmem_valid r \<and> reg_write (exmem_control r) \<and>
     exmem_rd r \<noteq> 0 \<and> \<not> mem_read (exmem_control r)"

definition can_forward_from_mem_wb :: "MEMWBRegister \<Rightarrow> bool" where
  "can_forward_from_mem_wb r \<longleftrightarrow> memwb_valid r \<and> reg_write (memwb_control r) \<and> memwb_rd r \<noteq> 0"

definition ex_mem_forward_value :: "EXMEMRegister \<Rightarrow> u32" where
  "ex_mem_forward_value r =
     (case writeback_source (exmem_control r) of
        WB_ALU \<Rightarrow> exmem_alu_result r
      | WB_PCPlus4 \<Rightarrow> exmem_pc_plus_4 r
      | WB_Immediate \<Rightarrow> exmem_immediate r
      | WB_Memory \<Rightarrow> 0
      | WB_None \<Rightarrow> 0)"

definition mem_wb_forward_value :: "MEMWBRegister \<Rightarrow> u32" where
  "mem_wb_forward_value r =
     (case writeback_source (memwb_control r) of
        WB_ALU \<Rightarrow> memwb_alu_result r
      | WB_Memory \<Rightarrow> memwb_memory_data r
      | WB_PCPlus4 \<Rightarrow> memwb_pc_plus_4 r
      | WB_Immediate \<Rightarrow> memwb_immediate r
      | WB_None \<Rightarrow> 0)"

definition resolve_forwarding ::
  "IDEXRegister \<Rightarrow> PipelineRegisters \<Rightarrow> ForwardedOperands" where
  "resolve_forwarding idex pipeline =
     (let operands = \<lparr>fo_rs1_value = idex_rs1_value idex, fo_rs2_value = idex_rs2_value idex,
                      forwarded_rs1 = False, forwarded_rs2 = False\<rparr>;
          operands =
            (if can_forward_from_ex_mem (ex_mem pipeline) then
               let v = ex_mem_forward_value (ex_mem pipeline);
                   operands =
                     (if idex_rs1 idex \<noteq> 0 \<and> idex_rs1 idex = exmem_rd (ex_mem pipeline)
                      then operands\<lparr>fo_rs1_value := v, forwarded_rs1 := True\<rparr> else operands)
               in (if idex_rs2 idex \<noteq> 0 \<and> idex_rs2 idex = exmem_rd (ex_mem pipeline)
                   then operands\<lparr>fo_rs2_value := v, forwarded_rs2 := True\<rparr> else operands)
             else operands)
      in if can_forward_from_mem_wb (mem_wb pipeline) then
           let v = mem_wb_forward_value (mem_wb pipeline);
               operands =
                 (if \<not> forwarded_rs1 operands \<and> idex_rs1 idex \<noteq> 0 \<and>
                     idex_rs1 idex = memwb_rd (mem_wb pipeline)
                  then operands\<lparr>fo_rs1_value := v, forwarded_rs1 := True\<rparr> else operands)
           in (if \<not> forwarded_rs2 operands \<and> idex_rs2 idex \<noteq> 0 \<and>
                  idex_rs2 idex = memwb_rd (mem_wb pipeline)
               then operands\<lparr>fo_rs2_value := v, forwarded_rs2 := True\<rparr> else operands)
         else operands)"

section \<open>The forwarded operand of one source\<close>

text \<open>Both operands follow one rule: EX/MEM before MEM/WB before the value decode read.\<close>

definition forwarded_value :: "PipelineRegisters \<Rightarrow> u8 \<Rightarrow> u32 \<Rightarrow> u32" where
  "forwarded_value p r v =
     (if can_forward_from_ex_mem (ex_mem p) \<and> r \<noteq> 0 \<and> r = exmem_rd (ex_mem p)
      then ex_mem_forward_value (ex_mem p)
      else if can_forward_from_mem_wb (mem_wb p) \<and> r \<noteq> 0 \<and> r = memwb_rd (mem_wb p)
      then mem_wb_forward_value (mem_wb p)
      else v)"

lemma resolve_forwarding_values:
  "fo_rs1_value (resolve_forwarding idex p) =
     forwarded_value p (idex_rs1 idex) (idex_rs1_value idex)"
  "fo_rs2_value (resolve_forwarding idex p) =
     forwarded_value p (idex_rs2 idex) (idex_rs2_value idex)"
  by (simp_all add: resolve_forwarding_def forwarded_value_def Let_def)

lemma resolve_forwarding_flags:
  "forwarded_rs1 (resolve_forwarding idex p) \<longleftrightarrow> idex_rs1 idex \<noteq> 0 \<and>
     (can_forward_from_ex_mem (ex_mem p) \<and> idex_rs1 idex = exmem_rd (ex_mem p) \<or>
      can_forward_from_mem_wb (mem_wb p) \<and> idex_rs1 idex = memwb_rd (mem_wb p))"
  "forwarded_rs2 (resolve_forwarding idex p) \<longleftrightarrow> idex_rs2 idex \<noteq> 0 \<and>
     (can_forward_from_ex_mem (ex_mem p) \<and> idex_rs2 idex = exmem_rd (ex_mem p) \<or>
      can_forward_from_mem_wb (mem_wb p) \<and> idex_rs2 idex = memwb_rd (mem_wb p))"
  by (auto simp: resolve_forwarding_def Let_def)

lemma forwarded_value_zero [simp]: "forwarded_value p 0 v = v"
  by (simp add: forwarded_value_def)

end
