(* ===== verification/Hazard_Unit.thy ===== *)
theory Hazard_Unit
  imports Instruction_Table
begin

text \<open>
  \<open>include/hazard_unit.hpp\<close> and \<open>src/hazard_unit.cpp\<close>: which registers an instruction reads, and
  the load-use hazard that forwarding cannot cover.
\<close>

unbundle bit_operations_syntax

record SourceRegisters =
  uses_rs1 :: bool
  uses_rs2 :: bool
  sr_rs1 :: u8
  sr_rs2 :: u8

record HazardDecision =
  stall :: bool

definition writes_register :: "bool \<Rightarrow> ControlSignals \<Rightarrow> u8 \<Rightarrow> bool" where
  "writes_register valid control rd \<longleftrightarrow> valid \<and> reg_write control \<and> rd \<noteq> 0"

definition depends_on :: "SourceRegisters \<Rightarrow> u8 \<Rightarrow> bool" where
  "depends_on sources rd \<longleftrightarrow>
     uses_rs1 sources \<and> sr_rs1 sources = rd \<or> uses_rs2 sources \<and> sr_rs2 sources = rd"

text \<open>The switch on the kind sets the two \<open>uses\<close> flags.\<close>

fun kind_uses :: "InstructionKind \<Rightarrow> bool \<times> bool" where
  "kind_uses K_Add = (True, True)"
| "kind_uses K_Sub = (True, True)"
| "kind_uses K_Sll = (True, True)"
| "kind_uses K_Slt = (True, True)"
| "kind_uses K_Sltu = (True, True)"
| "kind_uses K_Xor = (True, True)"
| "kind_uses K_Srl = (True, True)"
| "kind_uses K_Sra = (True, True)"
| "kind_uses K_Or = (True, True)"
| "kind_uses K_And = (True, True)"
| "kind_uses K_Sb = (True, True)"
| "kind_uses K_Sh = (True, True)"
| "kind_uses K_Sw = (True, True)"
| "kind_uses K_Beq = (True, True)"
| "kind_uses K_Bne = (True, True)"
| "kind_uses K_Blt = (True, True)"
| "kind_uses K_Bge = (True, True)"
| "kind_uses K_Bltu = (True, True)"
| "kind_uses K_Bgeu = (True, True)"
| "kind_uses K_Addi = (True, False)"
| "kind_uses K_Slti = (True, False)"
| "kind_uses K_Sltiu = (True, False)"
| "kind_uses K_Xori = (True, False)"
| "kind_uses K_Ori = (True, False)"
| "kind_uses K_Andi = (True, False)"
| "kind_uses K_Slli = (True, False)"
| "kind_uses K_Srli = (True, False)"
| "kind_uses K_Srai = (True, False)"
| "kind_uses K_Lb = (True, False)"
| "kind_uses K_Lh = (True, False)"
| "kind_uses K_Lw = (True, False)"
| "kind_uses K_Lbu = (True, False)"
| "kind_uses K_Lhu = (True, False)"
| "kind_uses K_Jalr = (True, False)"
| "kind_uses K_Lui = (False, False)"
| "kind_uses K_Auipc = (False, False)"
| "kind_uses K_Jal = (False, False)"
| "kind_uses K_Ecall = (False, False)"
| "kind_uses K_Ebreak = (False, False)"
| "kind_uses K_Invalid = (False, False)"

definition get_source_registers :: "DecodedInstruction \<Rightarrow> SourceRegisters" where
  "get_source_registers instruction =
     (let (u1, u2) = kind_uses (d_kind instruction);
          sources = \<lparr>uses_rs1 = u1, uses_rs2 = u2, sr_rs1 = d_rs1 instruction,
                     sr_rs2 = d_rs2 instruction\<rparr>;
          sources = (if sr_rs1 sources = 0 then sources\<lparr>uses_rs1 := False\<rparr> else sources)
      in if sr_rs2 sources = 0 then sources\<lparr>uses_rs2 := False\<rparr> else sources)"

definition detect_raw_hazard :: "PipelineRegisters \<Rightarrow> HazardDecision" where
  "detect_raw_hazard pipeline =
     (let decision = \<lparr>stall = False\<rparr> in
      if \<not> ifid_valid (if_id pipeline) then decision
      else let decoded = decode_instruction (ifid_instruction (if_id pipeline)) in
        if \<not> is_valid_instruction decoded then decision
        else let sources = get_source_registers decoded in
          if writes_register (idex_valid (id_ex pipeline)) (idex_control (id_ex pipeline))
               (idex_rd (id_ex pipeline)) \<and>
             depends_on sources (idex_rd (id_ex pipeline))
          then decision\<lparr>stall := mem_read (idex_control (id_ex pipeline))\<rparr>
          else decision)"

section \<open>When the pipeline stalls\<close>

text \<open>
  Which registers an instruction word reads, from its opcode as the manual has it: rs1 and rs2
  for the formats R, S and B, rs1 for loads, register-immediate operations and JALR, none for
  the upper immediates, JAL and SYSTEM. Nothing here is taken from the unit's own switch.
\<close>

definition reads_rs1 :: "u32 \<Rightarrow> bool" where
  "reads_rs1 i \<longleftrightarrow> i AND 0x7F \<in> {0x33, 0x13, 0x03, 0x23, 0x63, 0x67}"

definition reads_rs2 :: "u32 \<Rightarrow> bool" where
  "reads_rs2 i \<longleftrightarrow> i AND 0x7F \<in> {0x33, 0x23, 0x63}"

definition reads_register :: "u32 \<Rightarrow> u8 \<Rightarrow> bool" where
  "reads_register i r \<longleftrightarrow> r \<noteq> 0 \<and> d_kind (decode_instruction i) \<noteq> K_Invalid \<and>
     (reads_rs1 i \<and> ucast (drop_bit 15 i AND 0x1F) = r \<or>
      reads_rs2 i \<and> ucast (drop_bit 20 i AND 0x1F) = r)"

lemma kind_uses_reads:
  assumes "d_kind (decode_instruction i) \<noteq> K_Invalid"
  shows "kind_uses (d_kind (decode_instruction i)) = (reads_rs1 i, reads_rs2 i)"
proof -
  have "i AND 0x7F = ucast (kind_opcode (d_kind (decode_instruction i)))"
    using decode_kind_opcode[OF assms refl] opcode_match[of "kind_opcode (d_kind (decode_instruction i))" i]
      kind_opcode_fits by blast
  then show ?thesis
    using assms by (cases "d_kind (decode_instruction i)") (simp_all add: reads_rs1_def reads_rs2_def)
qed

lemma reads_register_uses:
  "reads_register i r \<longleftrightarrow> r \<noteq> 0 \<and>
     (fst (kind_uses (d_kind (decode_instruction i))) \<and> extract_rs1 i = r \<or>
      snd (kind_uses (d_kind (decode_instruction i))) \<and> extract_rs2 i = r)"
  by (cases "d_kind (decode_instruction i) = K_Invalid")
    (simp_all add: reads_register_def kind_uses_reads extract_fields)

lemma depends_on_source:
  "r \<noteq> 0 \<Longrightarrow> depends_on (get_source_registers (decode_instruction i)) r \<longleftrightarrow> reads_register i r"
  by (auto simp: depends_on_def get_source_registers_def reads_register_uses decode_extracted
      Let_def split: prod.splits)

lemma invalid_reads_nothing:
  "d_kind (decode_instruction i) = K_Invalid \<Longrightarrow> \<not> reads_register i r"
  by (simp add: reads_register_def)

lemma stall_iff:
  "stall (detect_raw_hazard p) \<longleftrightarrow>
     ifid_valid (if_id p) \<and> idex_valid (id_ex p) \<and>
     reg_write (idex_control (id_ex p)) \<and> mem_read (idex_control (id_ex p)) \<and>
     reads_register (ifid_instruction (if_id p)) (idex_rd (id_ex p))"
proof (cases "idex_rd (id_ex p) = 0")
  case True
  then show ?thesis
    by (simp add: detect_raw_hazard_def Let_def writes_register_def reads_register_def)
next
  case False
  then show ?thesis
    using invalid_reads_nothing[of "ifid_instruction (if_id p)" "idex_rd (id_ex p)"]
    by (auto simp: detect_raw_hazard_def Let_def writes_register_def depends_on_source
        is_valid_instruction_def)
qed

end
