(* ===== verification/Stages.thy ===== *)
theory Stages
  imports Cpu Forwarding_Unit Hazard_Unit
begin

text \<open>
  \<open>include/stages.hpp\<close> and \<open>src/stages.cpp\<close>: the five stages and one clock cycle. A stage takes
  the CPU and the latches by reference in the sources; here it returns the ones it changes. The
  only exceptions are those of register and memory accesses.
\<close>

unbundle bit_operations_syntax

record StageControl =
  flush_id_ex :: bool
  stall_fetch_decode :: bool
  stop_fetch :: bool

definition no_control :: StageControl where
  "no_control = \<lparr>flush_id_ex = False, stall_fetch_decode = False, stop_fetch = False\<rparr>"

section \<open>Helpers\<close>

definition sign_extend_value :: "u32 \<Rightarrow> nat \<Rightarrow> i32" where
  "sign_extend_value value bit_count =
     (let sign_bit = push_bit (bit_count - 1) 1;
          mask = push_bit bit_count 1 - 1;
          value = value AND mask
      in if value AND sign_bit = 0 then value else value OR NOT mask)"

definition select_writeback_value :: "MEMWBRegister \<Rightarrow> u32" where
  "select_writeback_value r =
     (case writeback_source (memwb_control r) of
        WB_ALU \<Rightarrow> memwb_alu_result r
      | WB_Memory \<Rightarrow> memwb_memory_data r
      | WB_PCPlus4 \<Rightarrow> memwb_pc_plus_4 r
      | WB_Immediate \<Rightarrow> memwb_immediate r
      | WB_None \<Rightarrow> 0)"

definition halt_is_in_flight :: "PipelineRegisters \<Rightarrow> bool" where
  "halt_is_in_flight p \<longleftrightarrow>
     idex_valid (id_ex p) \<and> halt_signal (idex_control (id_ex p)) \<or>
     exmem_valid (ex_mem p) \<and> halt_signal (exmem_control (ex_mem p)) \<or>
     memwb_valid (mem_wb p) \<and> halt_signal (memwb_control (mem_wb p))"

text \<open>
  The shift amount is masked to five bits; \<open>>>\<close> on a signed operand is arithmetic, as every
  supported compiler (and C++20) defines it.
\<close>

definition execute_alu :: "ALUOp \<Rightarrow> u32 \<Rightarrow> u32 \<Rightarrow> u32" where
  "execute_alu op lhs rhs =
     (let shamt = unat (rhs AND 0x1F) in
      case op of
        ALU_Add \<Rightarrow> lhs + rhs
      | ALU_Sub \<Rightarrow> lhs - rhs
      | ALU_And \<Rightarrow> lhs AND rhs
      | ALU_Or \<Rightarrow> lhs OR rhs
      | ALU_Xor \<Rightarrow> lhs XOR rhs
      | ALU_Sll \<Rightarrow> push_bit shamt lhs
      | ALU_Srl \<Rightarrow> drop_bit shamt lhs
      | ALU_Sra \<Rightarrow> signed_drop_bit shamt lhs
      | ALU_Slt \<Rightarrow> (if sint lhs < sint rhs then 1 else 0)
      | ALU_Sltu \<Rightarrow> (if lhs < rhs then 1 else 0)
      | ALU_None \<Rightarrow> 0)"

definition evaluate_branch :: "BranchCondition \<Rightarrow> u32 \<Rightarrow> u32 \<Rightarrow> bool" where
  "evaluate_branch condition lhs rhs =
     (case condition of
        BC_Equal \<Rightarrow> lhs = rhs
      | BC_NotEqual \<Rightarrow> lhs \<noteq> rhs
      | BC_LessThan \<Rightarrow> sint lhs < sint rhs
      | BC_GreaterOrEqual \<Rightarrow> sint lhs \<ge> sint rhs
      | BC_LessThanUnsigned \<Rightarrow> lhs < rhs
      | BC_GreaterOrEqualUnsigned \<Rightarrow> lhs \<ge> rhs
      | BC_None \<Rightarrow> False)"

definition read_memory :: "CPU \<Rightarrow> u32 \<Rightarrow> ControlSignals \<Rightarrow> u32 result" where
  "read_memory cpu address control =
     (case memory_width control of
        MW_Byte \<Rightarrow> res_bind (read_u8 cpu address) (\<lambda>b. let value = ucast b in
          if mem_unsigned control then Inr value else Inr (sign_extend_value value 8))
      | MW_HalfWord \<Rightarrow> res_bind (read_u16 cpu address) (\<lambda>h. let value = ucast h in
          if mem_unsigned control then Inr value else Inr (sign_extend_value value 16))
      | MW_Word \<Rightarrow> read_u32 cpu address
      | MW_None \<Rightarrow> Inr 0)"

definition write_memory :: "CPU \<Rightarrow> u32 \<Rightarrow> u32 \<Rightarrow> ControlSignals \<Rightarrow> CPU result" where
  "write_memory cpu address v control =
     (case memory_width control of
        MW_Byte \<Rightarrow> write_u8 cpu address (ucast (v AND 0xFF))
      | MW_HalfWord \<Rightarrow> write_u16 cpu address (ucast (v AND 0xFFFF))
      | MW_Word \<Rightarrow> write_u32 cpu address v
      | MW_None \<Rightarrow> Inr cpu)"

text \<open>The increments of the statistics the stages make in place.\<close>

definition count_instruction :: "CPU \<Rightarrow> CPU" where
  "count_instruction cpu = cpu\<lparr>cpu_stats :=
     (cpu_stats cpu)\<lparr>instruction_count := instruction_count (cpu_stats cpu) + 1\<rparr>\<rparr>"

definition count_stall :: "CPU \<Rightarrow> CPU" where
  "count_stall cpu = cpu\<lparr>cpu_stats :=
     (cpu_stats cpu)\<lparr>stall_cycles := stall_cycles (cpu_stats cpu) + 1\<rparr>\<rparr>"

definition count_branch :: "CPU \<Rightarrow> CPU" where
  "count_branch cpu = cpu\<lparr>cpu_stats :=
     (cpu_stats cpu)\<lparr>branch_predictions := branch_predictions (cpu_stats cpu) + 1\<rparr>\<rparr>"

definition count_mispredict :: "CPU \<Rightarrow> CPU" where
  "count_mispredict cpu = cpu\<lparr>cpu_stats :=
     (cpu_stats cpu)\<lparr>branch_mispredictions := branch_mispredictions (cpu_stats cpu) + 1\<rparr>\<rparr>"

section \<open>Stages\<close>

definition stage_WB :: "CPU \<Rightarrow> PipelineRegisters \<Rightarrow> CPU result" where
  "stage_WB cpu pipeline =
     (let r = mem_wb pipeline in
      if \<not> memwb_valid r then Inr cpu
      else res_bind
        (if reg_write (memwb_control r) then write_reg cpu (memwb_rd r) (select_writeback_value r)
         else Inr cpu)
        (\<lambda>cpu. let cpu = (if halt_signal (memwb_control r) then halt cpu else cpu)
               in Inr (count_instruction cpu)))"

definition stage_MEM :: "CPU \<Rightarrow> PipelineRegisters \<Rightarrow> (CPU \<times> PipelineRegisters) result" where
  "stage_MEM cpu pipeline =
     (let r = ex_mem pipeline in
      if \<not> exmem_valid r then Inr (cpu, pipeline\<lparr>next_mem_wb := empty_MEMWB\<rparr>)
      else let next = empty_MEMWB\<lparr>memwb_valid := True, memwb_pc := exmem_pc r,
                 memwb_instruction := exmem_instruction r, memwb_rd := exmem_rd r,
                 memwb_alu_result := exmem_alu_result r, memwb_pc_plus_4 := exmem_pc_plus_4 r,
                 memwb_immediate := exmem_immediate r, memwb_control := exmem_control r\<rparr>
        in res_bind
          (if mem_read (exmem_control r) then
             res_bind (read_memory cpu (exmem_alu_result r) (exmem_control r))
               (\<lambda>v. Inr (next\<lparr>memwb_memory_data := v\<rparr>))
           else Inr next)
          (\<lambda>next. res_bind
            (if mem_write (exmem_control r) then
               write_memory cpu (exmem_alu_result r) (exmem_store_value r) (exmem_control r)
             else Inr cpu)
            (\<lambda>cpu. Inr (cpu, pipeline\<lparr>next_mem_wb := next\<rparr>))))"

definition stage_EX ::
  "CPU \<Rightarrow> PipelineRegisters \<Rightarrow> StageControl \<Rightarrow> CPU \<times> PipelineRegisters \<times> StageControl" where
  "stage_EX cpu pipeline control =
     (let r = id_ex pipeline in
      if \<not> idex_valid r then (cpu, pipeline\<lparr>next_ex_mem := empty_EXMEM\<rparr>, control)
      else
      let operands = resolve_forwarding r pipeline;
          lhs = (if alu_src_pc (idex_control r) then idex_pc r else fo_rs1_value operands);
          rhs = (if alu_src_imm (idex_control r) then idex_immediate r
                 else fo_rs2_value operands);
          next = empty_EXMEM\<lparr>exmem_valid := True, exmem_pc := idex_pc r,
            exmem_instruction := idex_instruction r, exmem_rd := idex_rd r,
            exmem_alu_result := execute_alu (alu_op (idex_control r)) lhs rhs,
            exmem_store_value := fo_rs2_value operands,
            exmem_pc_plus_4 := idex_pc r + 4,
            exmem_immediate := idex_immediate r,
            exmem_control := idex_control r\<rparr>;
          (cpu, next, control_flow_resolved, actual_target) =
            (if branch (idex_control r) then
               let actual_taken = evaluate_branch (branch_condition (idex_control r))
                     (fo_rs1_value operands) (fo_rs2_value operands);
                   actual_target = (if actual_taken then idex_pc r + idex_immediate r
                                    else idex_pc r + 4);
                   next = next\<lparr>exmem_branch_taken := actual_taken,
                               exmem_branch_target := actual_target\<rparr>;
                   cpu = count_branch cpu;
                   cpu = (if idex_predicted_next_pc r \<noteq> actual_target
                          then count_mispredict cpu else cpu);
                   cpu = update_branch_predictor cpu (idex_pc r) actual_taken
               in (cpu, next, True, actual_target)
             else if jump (idex_control r) then
               let actual_target = (if alu_src_pc (idex_control r) then exmem_alu_result next
                                    else exmem_alu_result next AND NOT 1)
               in (cpu, next\<lparr>exmem_branch_taken := True, exmem_branch_target := actual_target\<rparr>,
                   True, actual_target)
             else (cpu, next, False, idex_pc r + 4));
          (cpu, control) =
            (if control_flow_resolved \<and> idex_predicted_next_pc r \<noteq> actual_target
             then (set_pc cpu actual_target, control\<lparr>flush_id_ex := True\<rparr>)
             else (cpu, control))
      in (cpu, pipeline\<lparr>next_ex_mem := next\<rparr>, control))"

definition stage_ID ::
  "CPU \<Rightarrow> PipelineRegisters \<Rightarrow> StageControl \<Rightarrow> (PipelineRegisters \<times> StageControl) result" where
  "stage_ID cpu pipeline control =
     (if flush_id_ex control then Inr (pipeline\<lparr>next_id_ex := empty_IDEX\<rparr>, control)
      else if stall_fetch_decode control then Inr (pipeline\<lparr>next_id_ex := empty_IDEX\<rparr>, control)
      else let r = if_id pipeline in
      if \<not> ifid_valid r then Inr (pipeline\<lparr>next_id_ex := empty_IDEX\<rparr>, control)
      else let decoded = decode_instruction (ifid_instruction r) in
      if \<not> is_valid_instruction decoded then Inr (pipeline\<lparr>next_id_ex := empty_IDEX\<rparr>, control)
      else res_bind (read_reg cpu (d_rs1 decoded)) (\<lambda>v1.
           res_bind (read_reg cpu (d_rs2 decoded)) (\<lambda>v2.
        let next =
              \<lparr>idex_valid = True, idex_pc = ifid_pc r, idex_instruction = ifid_instruction r,
               idex_predicted_taken = ifid_predicted_taken r,
               idex_predicted_next_pc = ifid_predicted_next_pc r,
               idex_format = d_format decoded, idex_rd = d_rd decoded, idex_rs1 = d_rs1 decoded,
               idex_rs2 = d_rs2 decoded, idex_funct3 = d_funct3 decoded,
               idex_funct7 = d_funct7 decoded, idex_immediate = d_immediate decoded,
               idex_rs1_value = v1, idex_rs2_value = v2, idex_control = d_control decoded\<rparr>;
            control = (if halt_signal (idex_control next) then control\<lparr>stop_fetch := True\<rparr>
                       else control)
        in Inr (pipeline\<lparr>next_id_ex := next\<rparr>, control))))"

definition stage_IF :: "CPU \<Rightarrow> PipelineRegisters \<Rightarrow> (CPU \<times> PipelineRegisters) result" where
  "stage_IF cpu pipeline =
     (let pipeline = pipeline\<lparr>next_if_id := if_id pipeline\<rparr>;
          pc = cpu_pc cpu in
      if unat pc + 4 > memory_size cpu then Inr (cpu, pipeline\<lparr>next_if_id := empty_IFID\<rparr>)
      else res_bind (read_u32 cpu pc) (\<lambda>instruction.
        let next = \<lparr>ifid_valid = True, ifid_pc = pc, ifid_instruction = instruction,
                    ifid_predicted_taken = False, ifid_predicted_next_pc = pc + 4\<rparr>;
            decoded = decode_instruction instruction;
            next =
              (if is_valid_instruction decoded \<and> branch (d_control decoded) then
                 let next = next\<lparr>ifid_predicted_taken := predict_branch cpu pc\<rparr> in
                 if ifid_predicted_taken next
                 then next\<lparr>ifid_predicted_next_pc := pc + d_immediate decoded\<rparr> else next
               else next);
            cpu = set_pc cpu (ifid_predicted_next_pc next)
        in Inr (cpu, pipeline\<lparr>next_if_id := next\<rparr>)))"

section \<open>One clock cycle\<close>

definition run_pipeline_cycle ::
  "CPU \<Rightarrow> PipelineRegisters \<Rightarrow> (CPU \<times> PipelineRegisters) result" where
  "run_pipeline_cycle cpu pipeline =
     (let pipeline = clear_next pipeline; control = no_control in
      res_bind (stage_WB cpu pipeline) (\<lambda>cpu.
      res_bind (stage_MEM cpu pipeline) (\<lambda>(cpu, pipeline).
      let (cpu, pipeline, control) = stage_EX cpu pipeline control;
          (cpu, control) =
            (if \<not> flush_id_ex control then
               let hazard = detect_raw_hazard pipeline;
                   control = control\<lparr>stall_fetch_decode := stall hazard\<rparr>
               in (if stall hazard then count_stall cpu else cpu, control)
             else (cpu, control)) in
      res_bind (stage_ID cpu pipeline control) (\<lambda>(pipeline, control).
      res_bind
        (if stop_fetch control \<or> halt_is_in_flight pipeline then
           Inr (cpu, pipeline\<lparr>next_if_id := empty_IFID\<rparr>)
         else if \<not> stall_fetch_decode control then stage_IF cpu pipeline
         else Inr (cpu, pipeline\<lparr>next_if_id := if_id pipeline\<rparr>))
        (\<lambda>(cpu, pipeline). Inr (tick cpu, commit pipeline))))))"

end
