(* ===== verification/Isa.thy ===== *)
theory Isa
  imports Stages
begin

text \<open>
  The specification of the simulator: RV32I as a machine that executes one instruction at a
  time. It reads the fields and the kind \<open>decode_instruction\<close> gives, but none of its control
  signals, and knows nothing of stages, latches, forwarding or prediction. What the simulator
  does outside the standard is part of it: \<open>ecall\<close> and \<open>ebreak\<close> halt, a word that decodes to no
  instruction is skipped and not counted, and fetching past the end of memory waits forever.
\<close>

unbundle bit_operations_syntax

section \<open>Architectural state\<close>

record Arch =
  a_regs :: "u32 list"
  a_pc :: u32
  a_memory :: "u8 list"
  a_halted :: bool
  a_retired :: u64
  a_writes :: "MemoryWrite list"

definition isa_get :: "Arch \<Rightarrow> u8 \<Rightarrow> u32" where
  "isa_get s r = a_regs s ! unat r"

definition isa_set :: "Arch \<Rightarrow> u8 \<Rightarrow> u32 \<Rightarrow> Arch" where
  "isa_set s r v = (if r = 0 then s else s\<lparr>a_regs := (a_regs s)[unat r := v]\<rparr>)"

definition isa_load :: "Arch \<Rightarrow> u32 \<Rightarrow> nat \<Rightarrow> u8 list result" where
  "isa_load s a n =
     (if unat a + n \<le> length (a_memory s) then Inr (take n (drop (unat a) (a_memory s)))
      else Inl bad_address)"

definition isa_store :: "Arch \<Rightarrow> u32 \<Rightarrow> u8 list \<Rightarrow> Arch result" where
  "isa_store s a bytes =
     (if unat a + length bytes \<le> length (a_memory s) then
        Inr (s\<lparr>a_memory := splice_at (a_memory s) (unat a) bytes,
               a_writes := a_writes s @
                 [\<lparr>mw_address = a, mw_byte_count = of_nat (length bytes)\<rparr>]\<rparr>)
      else Inl bad_address)"

text \<open>The word at an address, if it lies in memory.\<close>

definition isa_fetch :: "u8 list \<Rightarrow> u32 \<Rightarrow> u32 option" where
  "isa_fetch m pc =
     (if unat pc + 4 \<le> length m then Some (le_value (take 4 (drop (unat pc) m))) else None)"

section \<open>Instructions\<close>

text \<open>Retiring: the program counter moves on and the instruction is counted.\<close>

definition isa_retire :: "u32 \<Rightarrow> Arch \<Rightarrow> Arch" where
  "isa_retire next_pc s = s\<lparr>a_pc := next_pc, a_retired := a_retired s + 1\<rparr>"

definition isa_shamt :: "u32 \<Rightarrow> nat" where
  "isa_shamt y = unat y mod 32"

fun isa_compute :: "InstructionKind \<Rightarrow> u32 \<Rightarrow> u32 \<Rightarrow> u32" where
  "isa_compute K_Sub x y = x - y"
| "isa_compute K_Sll x y = x * 2 ^ isa_shamt y"
| "isa_compute K_Slli x y = x * 2 ^ isa_shamt y"
| "isa_compute K_Srl x y = of_nat (unat x div 2 ^ isa_shamt y)"
| "isa_compute K_Srli x y = of_nat (unat x div 2 ^ isa_shamt y)"
| "isa_compute K_Sra x y = of_int (sint x div 2 ^ isa_shamt y)"
| "isa_compute K_Srai x y = of_int (sint x div 2 ^ isa_shamt y)"
| "isa_compute K_Slt x y = of_bool (sint x < sint y)"
| "isa_compute K_Slti x y = of_bool (sint x < sint y)"
| "isa_compute K_Sltu x y = of_bool (unat x < unat y)"
| "isa_compute K_Sltiu x y = of_bool (unat x < unat y)"
| "isa_compute K_Xor x y = x XOR y"
| "isa_compute K_Xori x y = x XOR y"
| "isa_compute K_Or x y = x OR y"
| "isa_compute K_Ori x y = x OR y"
| "isa_compute K_And x y = x AND y"
| "isa_compute K_Andi x y = x AND y"
| "isa_compute _ x y = x + y"

fun isa_taken :: "InstructionKind \<Rightarrow> u32 \<Rightarrow> u32 \<Rightarrow> bool" where
  "isa_taken K_Beq x y = (x = y)"
| "isa_taken K_Bne x y = (x \<noteq> y)"
| "isa_taken K_Blt x y = (sint x < sint y)"
| "isa_taken K_Bge x y = (sint y \<le> sint x)"
| "isa_taken K_Bltu x y = (unat x < unat y)"
| "isa_taken K_Bgeu x y = (unat y \<le> unat x)"
| "isa_taken _ x y = False"

definition isa_reg_reg :: "DecodedInstruction \<Rightarrow> Arch \<Rightarrow> Arch result" where
  "isa_reg_reg d s = Inr (isa_retire (a_pc s + 4)
     (isa_set s (d_rd d) (isa_compute (d_kind d) (isa_get s (d_rs1 d)) (isa_get s (d_rs2 d)))))"

definition isa_reg_imm :: "DecodedInstruction \<Rightarrow> Arch \<Rightarrow> Arch result" where
  "isa_reg_imm d s = Inr (isa_retire (a_pc s + 4)
     (isa_set s (d_rd d) (isa_compute (d_kind d) (isa_get s (d_rs1 d)) (d_immediate d))))"

definition isa_loaded :: "DecodedInstruction \<Rightarrow> nat \<Rightarrow> (u8 list \<Rightarrow> u32) \<Rightarrow> Arch \<Rightarrow> Arch result" where
  "isa_loaded d n ext s =
     res_bind (isa_load s (isa_get s (d_rs1 d) + d_immediate d) n)
       (\<lambda>bytes. Inr (isa_retire (a_pc s + 4) (isa_set s (d_rd d) (ext bytes))))"

definition isa_stored :: "DecodedInstruction \<Rightarrow> nat \<Rightarrow> Arch \<Rightarrow> Arch result" where
  "isa_stored d n s =
     res_bind (isa_store s (isa_get s (d_rs1 d) + d_immediate d)
        (le_bytes n (isa_get s (d_rs2 d))))
       (\<lambda>s'. Inr (isa_retire (a_pc s + 4) s'))"

definition isa_branch :: "DecodedInstruction \<Rightarrow> Arch \<Rightarrow> Arch result" where
  "isa_branch d s = Inr (isa_retire
     (if isa_taken (d_kind d) (isa_get s (d_rs1 d)) (isa_get s (d_rs2 d))
      then a_pc s + d_immediate d else a_pc s + 4) s)"

definition isa_halt :: "Arch \<Rightarrow> Arch result" where
  "isa_halt s = Inr (isa_retire (a_pc s + 4) (s\<lparr>a_halted := True\<rparr>))"

definition isa_execute :: "DecodedInstruction \<Rightarrow> Arch \<Rightarrow> Arch result" where
  "isa_execute d s =
     (case d_kind d of
        K_Invalid \<Rightarrow> Inr (s\<lparr>a_pc := a_pc s + 4\<rparr>)
      | K_Add \<Rightarrow> isa_reg_reg d s | K_Sub \<Rightarrow> isa_reg_reg d s | K_Sll \<Rightarrow> isa_reg_reg d s
      | K_Slt \<Rightarrow> isa_reg_reg d s | K_Sltu \<Rightarrow> isa_reg_reg d s | K_Xor \<Rightarrow> isa_reg_reg d s
      | K_Srl \<Rightarrow> isa_reg_reg d s | K_Sra \<Rightarrow> isa_reg_reg d s | K_Or \<Rightarrow> isa_reg_reg d s
      | K_And \<Rightarrow> isa_reg_reg d s
      | K_Addi \<Rightarrow> isa_reg_imm d s | K_Slti \<Rightarrow> isa_reg_imm d s | K_Sltiu \<Rightarrow> isa_reg_imm d s
      | K_Xori \<Rightarrow> isa_reg_imm d s | K_Ori \<Rightarrow> isa_reg_imm d s | K_Andi \<Rightarrow> isa_reg_imm d s
      | K_Slli \<Rightarrow> isa_reg_imm d s | K_Srli \<Rightarrow> isa_reg_imm d s | K_Srai \<Rightarrow> isa_reg_imm d s
      | K_Lb \<Rightarrow> isa_loaded d 1 (\<lambda>bs. scast (le_value bs :: u8)) s
      | K_Lh \<Rightarrow> isa_loaded d 2 (\<lambda>bs. scast (le_value bs :: u16)) s
      | K_Lw \<Rightarrow> isa_loaded d 4 le_value s
      | K_Lbu \<Rightarrow> isa_loaded d 1 le_value s
      | K_Lhu \<Rightarrow> isa_loaded d 2 le_value s
      | K_Sb \<Rightarrow> isa_stored d 1 s | K_Sh \<Rightarrow> isa_stored d 2 s | K_Sw \<Rightarrow> isa_stored d 4 s
      | K_Beq \<Rightarrow> isa_branch d s | K_Bne \<Rightarrow> isa_branch d s | K_Blt \<Rightarrow> isa_branch d s
      | K_Bge \<Rightarrow> isa_branch d s | K_Bltu \<Rightarrow> isa_branch d s | K_Bgeu \<Rightarrow> isa_branch d s
      | K_Lui \<Rightarrow> Inr (isa_retire (a_pc s + 4) (isa_set s (d_rd d) (d_immediate d)))
      | K_Auipc \<Rightarrow> Inr (isa_retire (a_pc s + 4) (isa_set s (d_rd d) (a_pc s + d_immediate d)))
      | K_Jal \<Rightarrow> Inr (isa_retire (a_pc s + d_immediate d) (isa_set s (d_rd d) (a_pc s + 4)))
      | K_Jalr \<Rightarrow> Inr (isa_retire ((isa_get s (d_rs1 d) + d_immediate d) AND NOT 1)
                        (isa_set s (d_rd d) (a_pc s + 4)))
      | K_Ecall \<Rightarrow> isa_halt s
      | K_Ebreak \<Rightarrow> isa_halt s)"

section \<open>The machine\<close>

definition isa_step :: "Arch \<Rightarrow> Arch result" where
  "isa_step s =
     (if a_halted s then Inr s
      else case isa_fetch (a_memory s) (a_pc s) of
        None \<Rightarrow> Inr s
      | Some i \<Rightarrow> isa_execute (decode_instruction i) s)"

primrec isa_steps :: "nat \<Rightarrow> Arch \<Rightarrow> Arch result" where
  "isa_steps 0 s = Inr s"
| "isa_steps (Suc n) s = res_bind (isa_step s) (isa_steps n)"

lemma isa_steps_add: "isa_steps (m + n) s = res_bind (isa_steps m s) (isa_steps n)"
  by (induction m arbitrary: s) (auto simp: res_bind_def split: sum.splits)

text \<open>
  Well-formed states: 32 registers with \<open>x0\<close> zero and an addressable memory. Every step keeps
  this, and keeps the size of memory.
\<close>

definition arch_ok :: "Arch \<Rightarrow> bool" where
  "arch_ok s \<longleftrightarrow> length (a_regs s) = 32 \<and> a_regs s ! 0 = 0 \<and> length (a_memory s) \<le> 2 ^ 32"

lemma isa_set_simps [simp]:
  "a_pc (isa_set s r v) = a_pc s" "a_memory (isa_set s r v) = a_memory s"
  "a_halted (isa_set s r v) = a_halted s" "a_retired (isa_set s r v) = a_retired s"
  "a_writes (isa_set s r v) = a_writes s" "length (a_regs (isa_set s r v)) = length (a_regs s)"
  by (simp_all add: isa_set_def)

lemma isa_retire_simps [simp]:
  "a_pc (isa_retire p s) = p" "a_memory (isa_retire p s) = a_memory s"
  "a_halted (isa_retire p s) = a_halted s" "a_retired (isa_retire p s) = a_retired s + 1"
  "a_writes (isa_retire p s) = a_writes s" "a_regs (isa_retire p s) = a_regs s"
  by (simp_all add: isa_retire_def)

lemma arch_ok_set [simp]: "arch_ok s \<Longrightarrow> arch_ok (isa_set s r v)"
  by (auto simp: arch_ok_def isa_set_def unat_eq_0)

lemma arch_ok_retire [simp]: "arch_ok (isa_retire p s) = arch_ok s"
  by (simp add: arch_ok_def)

lemma arch_ok_store: "arch_ok s \<Longrightarrow> isa_store s a bs = Inr t \<Longrightarrow> arch_ok t"
  by (auto simp: arch_ok_def isa_store_def split: if_splits)

end
