(* ===== verification/Datapath.thy ===== *)
theory Datapath
  imports Isa
begin

text \<open>
  The datapath of one instruction: what EX makes of an instruction and its operands, what MEM
  and WB make of that, and the proof that together they execute the instruction as the
  specification does.
\<close>

unbundle bit_operations_syntax

section \<open>The stages on single latches\<close>

definition wb_latch :: "CPU \<Rightarrow> MEMWBRegister \<Rightarrow> CPU result" where
  "wb_latch cpu r = stage_WB cpu (empty_pipeline\<lparr>mem_wb := r\<rparr>)"

definition mem_latch :: "CPU \<Rightarrow> EXMEMRegister \<Rightarrow> (CPU \<times> MEMWBRegister) result" where
  "mem_latch cpu r = res_bind (stage_MEM cpu (empty_pipeline\<lparr>ex_mem := r\<rparr>))
     (\<lambda>(cpu, p). Inr (cpu, next_mem_wb p))"

lemma stage_WB_latch: "stage_WB cpu p = wb_latch cpu (mem_wb p)"
  by (simp add: wb_latch_def stage_WB_def)

lemma stage_MEM_latch:
  "stage_MEM cpu p = res_bind (mem_latch cpu (ex_mem p))
     (\<lambda>(cpu, r). Inr (cpu, p\<lparr>next_mem_wb := r\<rparr>))"
proof (cases "exmem_valid (ex_mem p)")
  case False
  then show ?thesis by (simp add: mem_latch_def stage_MEM_def Let_def)
next
  case True
  then show ?thesis
    by (auto simp: mem_latch_def stage_MEM_def Let_def res_bind_assoc res_bind_def
        split: sum.splits)
qed

definition ex_alu :: "IDEXRegister \<Rightarrow> u32 \<Rightarrow> u32 \<Rightarrow> u32" where
  "ex_alu r a b = execute_alu (alu_op (idex_control r))
     (if alu_src_pc (idex_control r) then idex_pc r else a)
     (if alu_src_imm (idex_control r) then idex_immediate r else b)"

definition ex_taken :: "IDEXRegister \<Rightarrow> u32 \<Rightarrow> u32 \<Rightarrow> bool" where
  "ex_taken r a b = evaluate_branch (branch_condition (idex_control r)) a b"

text \<open>The address of the instruction that follows in program order.\<close>

definition ex_target :: "IDEXRegister \<Rightarrow> u32 \<Rightarrow> u32 \<Rightarrow> u32" where
  "ex_target r a b =
     (if branch (idex_control r) then
        (if ex_taken r a b then idex_pc r + idex_immediate r else idex_pc r + 4)
      else if jump (idex_control r) then
        (if alu_src_pc (idex_control r) then ex_alu r a b else ex_alu r a b AND NOT 1)
      else idex_pc r + 4)"

definition ex_resolves :: "IDEXRegister \<Rightarrow> bool" where
  "ex_resolves r \<longleftrightarrow> branch (idex_control r) \<or> jump (idex_control r)"

definition ex_redirects :: "IDEXRegister \<Rightarrow> u32 \<Rightarrow> u32 \<Rightarrow> bool" where
  "ex_redirects r a b \<longleftrightarrow> ex_resolves r \<and> idex_predicted_next_pc r \<noteq> ex_target r a b"

definition ex_latch :: "IDEXRegister \<Rightarrow> u32 \<Rightarrow> u32 \<Rightarrow> EXMEMRegister" where
  "ex_latch r a b =
     \<lparr>exmem_valid = True, exmem_pc = idex_pc r, exmem_instruction = idex_instruction r,
      exmem_rd = idex_rd r, exmem_alu_result = ex_alu r a b, exmem_store_value = b,
      exmem_pc_plus_4 = idex_pc r + 4, exmem_immediate = idex_immediate r,
      exmem_branch_target = (if ex_resolves r then ex_target r a b else 0),
      exmem_branch_taken =
        (if branch (idex_control r) then ex_taken r a b else jump (idex_control r)),
      exmem_control = idex_control r\<rparr>"

definition ex_cpu :: "CPU \<Rightarrow> IDEXRegister \<Rightarrow> u32 \<Rightarrow> u32 \<Rightarrow> CPU" where
  "ex_cpu c r a b =
     (let c = (if branch (idex_control r) then
                 update_branch_predictor
                   (if ex_redirects r a b then count_mispredict (count_branch c)
                    else count_branch c)
                   (idex_pc r) (ex_taken r a b)
               else c)
      in if ex_redirects r a b then set_pc c (ex_target r a b) else c)"

lemma stage_EX_latch:
  assumes "idex_valid (id_ex p)"
    and "a = forwarded_value p (idex_rs1 (id_ex p)) (idex_rs1_value (id_ex p))"
    and "b = forwarded_value p (idex_rs2 (id_ex p)) (idex_rs2_value (id_ex p))"
  shows "stage_EX c p k =
     (ex_cpu c (id_ex p) a b, p\<lparr>next_ex_mem := ex_latch (id_ex p) a b\<rparr>,
      if ex_redirects (id_ex p) a b then k\<lparr>flush_id_ex := True\<rparr> else k)"
  using assms
  by (cases "branch (idex_control (id_ex p))"; cases "jump (idex_control (id_ex p))")
    (simp_all add: stage_EX_def Let_def resolve_forwarding_values ex_cpu_def ex_latch_def
      ex_redirects_def ex_resolves_def ex_target_def ex_taken_def ex_alu_def empty_EXMEM_def)

lemma stage_EX_empty:
  "\<not> idex_valid (id_ex p) \<Longrightarrow> stage_EX c p k = (c, p\<lparr>next_ex_mem := empty_EXMEM\<rparr>, k)"
  by (simp add: stage_EX_def Let_def)

section \<open>Architectural view of a CPU\<close>

definition arch_at :: "u32 \<Rightarrow> CPU \<Rightarrow> Arch" where
  "arch_at pc cpu =
     \<lparr>a_regs = (cpu_regs cpu)[0 := 0], a_pc = pc, a_memory = cpu_memory cpu,
      a_halted = cpu_halted cpu, a_retired = instruction_count (cpu_stats cpu),
      a_writes = cpu_memory_writes cpu\<rparr>"

definition res_map :: "('a \<Rightarrow> 'b) \<Rightarrow> 'a result \<Rightarrow> 'b result" where
  "res_map f m = res_bind m (\<lambda>x. Inr (f x))"

lemma res_map_simps [simp]: "res_map f (Inr x) = Inr (f x)" "res_map f (Inl e) = Inl e"
  by (simp_all add: res_map_def)

lemma res_map_bind: "res_map f (res_bind m g) = res_bind m (\<lambda>x. res_map f (g x))"
  by (simp add: res_map_def res_bind_assoc)

text \<open>Registers and memory the CPU must have for the view to be faithful.\<close>

definition regs_ok :: "CPU \<Rightarrow> bool" where
  "regs_ok cpu \<longleftrightarrow> length (cpu_regs cpu) = 32 \<and> length (cpu_memory cpu) \<le> 2 ^ 32"

lemma arch_at_simps [simp]:
  "a_pc (arch_at pc c) = pc" "a_memory (arch_at pc c) = cpu_memory c"
  "a_halted (arch_at pc c) = cpu_halted c"
  "a_retired (arch_at pc c) = instruction_count (cpu_stats c)"
  "a_writes (arch_at pc c) = cpu_memory_writes c"
  "a_regs (arch_at pc c) = (cpu_regs c)[0 := 0]"
  by (simp_all add: arch_at_def)

lemma arch_ok_arch_at: "regs_ok c \<Longrightarrow> arch_ok (arch_at pc c)"
  by (auto simp: arch_ok_def regs_ok_def)

lemma isa_get_arch_at [simp]:
  "regs_ok c \<Longrightarrow> unat r < 32 \<Longrightarrow> isa_get (arch_at pc c) r = reg_val c r"
  by (auto simp: isa_get_def reg_val_def regs_ok_def nth_list_update_if unat_eq_0)

lemma isa_retire_pc: "isa_retire pc (arch_at q c) = isa_retire pc (arch_at pc c)"
  by (simp add: isa_retire_def arch_at_def)

lemma isa_retire_set_pc:
  "isa_retire pc (isa_set (arch_at q c) r v) = isa_retire pc (isa_set (arch_at pc c) r v)"
  by (simp add: isa_retire_def isa_set_def arch_at_def)

section \<open>Writeback\<close>

definition wb_effect :: "MEMWBRegister \<Rightarrow> Arch \<Rightarrow> Arch" where
  "wb_effect r s =
     (let s = (if reg_write (memwb_control r)
               then isa_set s (memwb_rd r) (select_writeback_value r) else s)
      in if halt_signal (memwb_control r) then s\<lparr>a_halted := True\<rparr> else s)"

lemma wb_latch_invalid [simp]: "\<not> memwb_valid r \<Longrightarrow> wb_latch c r = Inr c"
  by (simp add: wb_latch_def stage_WB_def)

lemma write_reg_arch:
  assumes "regs_ok c" "unat r < 32"
  shows "\<exists>c'. write_reg c r v = Inr c' \<and> arch_at pc c' = isa_set (arch_at pc c) r v \<and>
     cpu_pc c' = cpu_pc c \<and> cpu_config c' = cpu_config c \<and> cpu_predictor c' = cpu_predictor c \<and>
     cpu_stats c' = cpu_stats c \<and> cpu_memory c' = cpu_memory c \<and>
     length (cpu_regs c') = length (cpu_regs c)"
proof (cases "r = 0")
  case True
  then show ?thesis using assms by (simp add: write_reg_in isa_set_def)
next
  case False
  then have "unat r \<noteq> 0" by (simp add: unat_eq_0)
  then show ?thesis
    using assms False
    by (simp add: write_reg_in isa_set_def arch_at_def list_update_swap)
qed

lemma wb_latch_arch:
  assumes "regs_ok c" "memwb_valid r" "unat (memwb_rd r) < 32"
  shows "\<exists>c'. wb_latch c r = Inr c' \<and>
    arch_at pc c' = isa_retire pc (wb_effect r (arch_at q c)) \<and>
    cpu_pc c' = cpu_pc c \<and> cpu_config c' = cpu_config c \<and> cpu_predictor c' = cpu_predictor c \<and>
    cpu_memory c' = cpu_memory c \<and> length (cpu_regs c') = length (cpu_regs c)"
proof -
  obtain c1 where c1: "(if reg_write (memwb_control r)
         then write_reg c (memwb_rd r) (select_writeback_value r) else Inr c) = Inr c1"
    "arch_at q c1 = (if reg_write (memwb_control r)
         then isa_set (arch_at q c) (memwb_rd r) (select_writeback_value r) else arch_at q c)"
    "cpu_pc c1 = cpu_pc c" "cpu_config c1 = cpu_config c" "cpu_predictor c1 = cpu_predictor c"
    "cpu_memory c1 = cpu_memory c" "length (cpu_regs c1) = length (cpu_regs c)"
    using write_reg_arch[OF assms(1,3), of "select_writeback_value r" q]
    by (cases "reg_write (memwb_control r)") auto
  let ?c2 = "count_instruction (if halt_signal (memwb_control r) then halt c1 else c1)"
  have "wb_latch c r = Inr ?c2"
    using assms(2) c1(1) by (simp add: wb_latch_def stage_WB_def Let_def)
  moreover have "arch_at pc ?c2 =
      isa_retire pc (if halt_signal (memwb_control r) then (arch_at q c1)\<lparr>a_halted := True\<rparr>
                     else arch_at q c1)"
    by (simp add: count_instruction_def halt_def arch_at_def isa_retire_def)
  ultimately show ?thesis
    using c1(2-) by (auto simp: wb_effect_def Let_def count_instruction_def halt_def)
qed

section \<open>Memory\<close>

text \<open>What MEM hands to WB, given the value it loaded (0 when it loads nothing).\<close>

definition mem_out :: "EXMEMRegister \<Rightarrow> u32 \<Rightarrow> MEMWBRegister" where
  "mem_out r v =
     \<lparr>memwb_valid = True, memwb_pc = exmem_pc r, memwb_instruction = exmem_instruction r,
      memwb_rd = exmem_rd r, memwb_alu_result = exmem_alu_result r, memwb_memory_data = v,
      memwb_pc_plus_4 = exmem_pc_plus_4 r, memwb_immediate = exmem_immediate r,
      memwb_control = exmem_control r\<rparr>"

lemma mem_latch_invalid [simp]: "\<not> exmem_valid r \<Longrightarrow> mem_latch c r = Inr (c, empty_MEMWB)"
  by (simp add: mem_latch_def stage_MEM_def)

lemma mem_latch_valid:
  "exmem_valid r \<Longrightarrow> mem_latch c r =
     res_bind (if mem_read (exmem_control r)
               then read_memory c (exmem_alu_result r) (exmem_control r) else Inr 0) (\<lambda>v.
     res_bind (if mem_write (exmem_control r)
               then write_memory c (exmem_alu_result r) (exmem_store_value r) (exmem_control r)
               else Inr c) (\<lambda>c. Inr (c, mem_out r v)))"
  by (auto simp: mem_latch_def stage_MEM_def Let_def mem_out_def empty_MEMWB_def res_bind_def
      split: sum.splits)

lemma sign_extend_value_eq: "sign_extend_value = sign_extend"
  by (intro ext) (simp add: sign_extend_value_def sign_extend_def)

lemma sign_extend_scast:
  "sign_extend (ucast b) 8 = scast (b :: u8)" "sign_extend (ucast h) 16 = scast (h :: u16)"
  by (simp_all add: sign_extend_signed_take_bit) (rule bit_word_eqI, auto simp: bit_simps min_def)+

lemma ucast_le_value:
  assumes "8 * length bs \<le> LENGTH('a::len)" and "LENGTH('a) \<le> 32"
  shows "ucast (le_value bs :: 'a word) = (le_value bs :: u32)"
proof (rule bit_word_eqI)
  fix n
  have "n div 8 < length bs \<Longrightarrow> n < LENGTH('a)"
    using assms(1) by (simp add: div_less_iff_less_mult)
  then show "bit (ucast (le_value bs :: 'a word) :: u32) n = bit (le_value bs :: u32) n"
    using assms(2) by (auto simp: bit_ucast_iff bit_le_value)
qed

text \<open>Loads, width by width.\<close>

lemma read_memory_load:
  assumes "regs_ok c"
  shows "read_memory c a (load_control MW_Byte False) =
      res_bind (isa_load (arch_at q c) a 1) (\<lambda>bs. Inr (scast (le_value bs :: u8)))"
    and "read_memory c a (load_control MW_HalfWord False) =
      res_bind (isa_load (arch_at q c) a 2) (\<lambda>bs. Inr (scast (le_value bs :: u16)))"
    and "read_memory c a (load_control MW_Byte True) =
      res_bind (isa_load (arch_at q c) a 1) (\<lambda>bs. Inr (le_value bs))"
    and "read_memory c a (load_control MW_HalfWord True) =
      res_bind (isa_load (arch_at q c) a 2) (\<lambda>bs. Inr (le_value bs))"
    and "read_memory c a (load_control MW_Word False) =
      res_bind (isa_load (arch_at q c) a 4) (\<lambda>bs. Inr (le_value bs))"
proof -
  have len: "length (cpu_memory c) \<le> 2 ^ 32" using assms by (simp add: regs_ok_def)
  note defs = read_memory_def load_control_def Let_def isa_load_def sign_extend_value_eq
    sign_extend_scast ucast_le_value read_in[OF len] access_out not_le
  show "read_memory c a (load_control MW_Byte False) =
      res_bind (isa_load (arch_at q c) a 1) (\<lambda>bs. Inr (scast (le_value bs :: u8)))"
    by (cases "unat a + 1 \<le> length (cpu_memory c)") (simp_all add: defs)
  show "read_memory c a (load_control MW_HalfWord False) =
      res_bind (isa_load (arch_at q c) a 2) (\<lambda>bs. Inr (scast (le_value bs :: u16)))"
    by (cases "unat a + 2 \<le> length (cpu_memory c)") (simp_all add: defs)
  show "read_memory c a (load_control MW_Byte True) =
      res_bind (isa_load (arch_at q c) a 1) (\<lambda>bs. Inr (le_value bs))"
    by (cases "unat a + 1 \<le> length (cpu_memory c)") (simp_all add: defs)
  show "read_memory c a (load_control MW_HalfWord True) =
      res_bind (isa_load (arch_at q c) a 2) (\<lambda>bs. Inr (le_value bs))"
    by (cases "unat a + 2 \<le> length (cpu_memory c)") (simp_all add: defs)
  show "read_memory c a (load_control MW_Word False) =
      res_bind (isa_load (arch_at q c) a 4) (\<lambda>bs. Inr (le_value bs))"
    by (cases "unat a + 4 \<le> length (cpu_memory c)") (simp_all add: defs)
qed

text \<open>Stores, width by width.\<close>

lemma le_bytes_ucast:
  "le_bytes 1 (ucast (w AND 0xFF) :: u8) = le_bytes 1 (w :: u32)"
  "le_bytes 2 (ucast (w AND 0xFFFF) :: u16) = le_bytes 2 (w :: u32)"
proof -
  have m: "(0xFFFF :: u32) = mask 16" by (simp add: mask_eq_exp_minus_1)
  show "le_bytes 1 (ucast (w AND 0xFF) :: u8) = le_bytes 1 w"
    by (simp add: low_byte)
  have "ucast (ucast (w AND mask 16) :: u16) = (ucast w :: u8)"
    by (rule bit_word_eqI) (auto simp: bit_simps)
  moreover have "ucast (drop_bit 8 (ucast (w AND mask 16) :: u16)) = (ucast (drop_bit 8 w) :: u8)"
    by (rule bit_word_eqI) (auto simp: bit_simps)
  ultimately show "le_bytes 2 (ucast (w AND 0xFFFF) :: u16) = le_bytes 2 w"
    unfolding m by (simp add: numeral_2_eq_2)
qed

lemma set_memory_arch:
  "arch_at q (set_memory c a bs) = (arch_at q c)\<lparr>
     a_memory := splice_at (cpu_memory c) (unat a) bs,
     a_writes := cpu_memory_writes c @ [\<lparr>mw_address = a, mw_byte_count = of_nat (length bs)\<rparr>]\<rparr>"
  by (simp add: arch_at_def)

lemma write_memory_store:
  assumes "regs_ok c"
  shows "write_memory c a v (store_control MW_Byte) =
      (if unat a + 1 \<le> length (cpu_memory c) then Inr (set_memory c a (le_bytes 1 v))
       else Inl bad_address)"
    and "write_memory c a v (store_control MW_HalfWord) =
      (if unat a + 2 \<le> length (cpu_memory c) then Inr (set_memory c a (le_bytes 2 v))
       else Inl bad_address)"
    and "write_memory c a v (store_control MW_Word) =
      (if unat a + 4 \<le> length (cpu_memory c) then Inr (set_memory c a (le_bytes 4 v))
       else Inl bad_address)"
  using assms
  by (simp_all add: regs_ok_def write_memory_def store_control_def write_in le_bytes_ucast
      low_byte access_out not_le)

section \<open>One instruction through EX, MEM and WB\<close>

definition finish :: "CPU \<Rightarrow> EXMEMRegister \<Rightarrow> CPU result" where
  "finish c r = res_bind (mem_latch c r) (\<lambda>(c, l). wb_latch c l)"

text \<open>
  \<open>latch_for d r\<close>: the latch ID/EX carries the decoded instruction \<open>d\<close>.
\<close>

definition latch_for :: "DecodedInstruction \<Rightarrow> IDEXRegister \<Rightarrow> bool" where
  "latch_for d r \<longleftrightarrow> idex_control r = d_control d \<and> idex_rd r = d_rd d \<and>
     idex_rs1 r = d_rs1 d \<and> idex_rs2 r = d_rs2 d \<and> idex_immediate r = d_immediate d"

lemma ex_latch_simps [simp]:
  "exmem_valid (ex_latch r a b)" "exmem_control (ex_latch r a b) = idex_control r"
  "exmem_rd (ex_latch r a b) = idex_rd r" "exmem_alu_result (ex_latch r a b) = ex_alu r a b"
  "exmem_store_value (ex_latch r a b) = b" "exmem_pc_plus_4 (ex_latch r a b) = idex_pc r + 4"
  "exmem_immediate (ex_latch r a b) = idex_immediate r"
  "exmem_instruction (ex_latch r a b) = idex_instruction r"
  by (simp_all add: ex_latch_def)

lemma mem_out_simps [simp]:
  "memwb_valid (mem_out r v)" "memwb_control (mem_out r v) = exmem_control r"
  "memwb_rd (mem_out r v) = exmem_rd r" "memwb_alu_result (mem_out r v) = exmem_alu_result r"
  "memwb_memory_data (mem_out r v) = v" "memwb_pc_plus_4 (mem_out r v) = exmem_pc_plus_4 r"
  "memwb_immediate (mem_out r v) = exmem_immediate r"
  by (simp_all add: mem_out_def)

text \<open>An instruction that does not touch memory.\<close>

lemma finish_plain:
  assumes "regs_ok c" "unat (idex_rd r) < 32"
    and "\<not> mem_read (idex_control r)" "\<not> mem_write (idex_control r)"
  shows "res_map (arch_at pc) (finish c (ex_latch r a b)) =
    Inr (isa_retire pc (wb_effect (mem_out (ex_latch r a b) 0) (arch_at q c)))"
proof -
  have "mem_latch c (ex_latch r a b) = Inr (c, mem_out (ex_latch r a b) 0)"
    using assms(3,4) by (simp add: mem_latch_valid)
  moreover obtain c' where "wb_latch c (mem_out (ex_latch r a b) 0) = Inr c'"
    "arch_at pc c' = isa_retire pc (wb_effect (mem_out (ex_latch r a b) 0) (arch_at q c))"
    using wb_latch_arch[of c "mem_out (ex_latch r a b) 0" pc q] assms(1,2) by auto
  ultimately show ?thesis by (simp add: finish_def)
qed

text \<open>A load.\<close>

lemma finish_load:
  assumes "regs_ok c" "unat (idex_rd r) < 32"
    and "idex_control r = load_control width zext"
    and "read_memory c (ex_alu r a b) (load_control width zext) =
           res_bind (isa_load (arch_at q c) addr n) (\<lambda>bs. Inr (ext bs))"
  shows "res_map (arch_at pc) (finish c (ex_latch r a b)) =
    res_bind (isa_load (arch_at q c) addr n)
      (\<lambda>bs. Inr (isa_retire pc (isa_set (arch_at q c) (idex_rd r) (ext bs))))"
proof (cases "isa_load (arch_at q c) addr n")
  case (Inl e)
  then show ?thesis
    using assms(3,4) by (simp add: finish_def mem_latch_valid) (simp add: load_control_def)
next
  case (Inr bs)
  then have rd: "read_memory c (ex_alu r a b) (idex_control r) = Inr (ext bs)"
    using assms(3,4) by simp
  have m: "mem_read (idex_control r)" "\<not> mem_write (idex_control r)"
    using assms(3) by (simp_all add: load_control_def silent_def)
  have "mem_latch c (ex_latch r a b) = Inr (c, mem_out (ex_latch r a b) (ext bs))"
    using rd m by (simp add: mem_latch_valid)
  moreover obtain c' where "wb_latch c (mem_out (ex_latch r a b) (ext bs)) = Inr c'"
    "arch_at pc c' = isa_retire pc (wb_effect (mem_out (ex_latch r a b) (ext bs)) (arch_at q c))"
    using wb_latch_arch[of c "mem_out (ex_latch r a b) (ext bs)" pc q] assms(1,2) by auto
  moreover have "wb_effect (mem_out (ex_latch r a b) (ext bs)) (arch_at q c) =
      isa_set (arch_at q c) (idex_rd r) (ext bs)"
    using assms(3)
    by (simp add: wb_effect_def load_control_def silent_def select_writeback_value_def)
  ultimately show ?thesis using Inr by (simp add: finish_def)
qed

text \<open>A store.\<close>

lemma finish_store:
  assumes "regs_ok c" "unat (idex_rd r) < 32"
    and "idex_control r = store_control width"
    and "write_memory c (ex_alu r a b) b (store_control width) =
      (if unat (ex_alu r a b) + n \<le> length (cpu_memory c)
       then Inr (set_memory c (ex_alu r a b) (le_bytes n b)) else Inl bad_address)"
  shows "res_map (arch_at pc) (finish c (ex_latch r a b)) =
    res_bind (isa_store (arch_at q c) (ex_alu r a b) (le_bytes n b))
      (\<lambda>s. Inr (isa_retire pc s))"
proof -
  let ?a = "ex_alu r a b"
  have m: "\<not> mem_read (idex_control r)" "mem_write (idex_control r)"
    "\<not> reg_write (idex_control r)" "\<not> halt_signal (idex_control r)"
    using assms(3) by (simp_all add: store_control_def silent_def)
  show ?thesis
  proof (cases "unat ?a + n \<le> length (cpu_memory c)")
    case True
    let ?c = "set_memory c ?a (le_bytes n b)"
    have "mem_latch c (ex_latch r a b) = Inr (?c, mem_out (ex_latch r a b) 0)"
      using m assms(3,4) True by (simp add: mem_latch_valid)
    moreover have "regs_ok ?c"
      using assms(1) True by (simp add: regs_ok_def)
    then obtain c' where "wb_latch ?c (mem_out (ex_latch r a b) 0) = Inr c'"
      "arch_at pc c' = isa_retire pc (wb_effect (mem_out (ex_latch r a b) 0) (arch_at q ?c))"
      using wb_latch_arch[of ?c "mem_out (ex_latch r a b) 0" pc q] assms(2) by auto
    moreover have "wb_effect (mem_out (ex_latch r a b) 0) (arch_at q ?c) = arch_at q ?c"
      using m by (simp add: wb_effect_def)
    ultimately show ?thesis
      using True by (simp add: finish_def isa_store_def set_memory_arch)
  next
    case False
    then show ?thesis
      using m assms(3,4) by (simp add: finish_def mem_latch_valid isa_store_def)
  qed
qed

end
