(* ===== verification/Execution.thy ===== *)
theory Execution
  imports Datapath
begin

text \<open>
  The datapath executes every valid instruction as the specification does: the ALU computes what
  \<open>isa_compute\<close> says, branches compare as \<open>isa_taken\<close> says, and one pass through EX, MEM and WB
  has the effect of \<open>isa_execute\<close>.
\<close>

unbundle bit_operations_syntax

section \<open>The ALU and the branch unit\<close>

lemma shamt_eq: "unat (y AND 0x1F :: u32) = isa_shamt y"
proof -
  have "y AND 0x1F = take_bit 5 y"
    by (simp add: take_bit_eq_mask mask_eq_exp_minus_1)
  then show ?thesis
    by (simp only: isa_shamt_def unsigned_take_bit_eq) (simp add: take_bit_eq_mod)
qed

lemma drop_bit_div: "drop_bit n (x :: u32) = of_nat (unat x div 2 ^ n)"
proof -
  have "unat (drop_bit n x) = unat x div 2 ^ n"
    by (simp only: unat_drop_bit_eq) (simp add: drop_bit_eq_div)
  then have "of_nat (unat (drop_bit n x)) = (of_nat (unat x div 2 ^ n) :: u32)"
    by (rule arg_cong)
  then show ?thesis by simp
qed

lemma signed_drop_bit_div: "signed_drop_bit n (x :: u32) = of_int (sint x div 2 ^ n)"
proof -
  have "sint (signed_drop_bit n x) = sint x div 2 ^ n"
    by (simp add: sint_signed_drop_bit_eq drop_bit_eq_div)
  then have "of_int (sint (signed_drop_bit n x)) = (of_int (sint x div 2 ^ n) :: u32)"
    by (rule arg_cong)
  then show ?thesis by simp
qed

lemma execute_alu_compute:
  "execute_alu ALU_Add x y = x + y"
  "execute_alu ALU_Sub x y = isa_compute K_Sub x y"
  "execute_alu ALU_Sll x y = isa_compute K_Sll x y"
  "execute_alu ALU_Srl x y = isa_compute K_Srl x y"
  "execute_alu ALU_Sra x y = isa_compute K_Sra x y"
  "execute_alu ALU_Slt x y = isa_compute K_Slt x y"
  "execute_alu ALU_Sltu x y = isa_compute K_Sltu x y"
  "execute_alu ALU_Xor x y = isa_compute K_Xor x y"
  "execute_alu ALU_Or x y = isa_compute K_Or x y"
  "execute_alu ALU_And x y = isa_compute K_And x y"
  by (simp_all add: execute_alu_def Let_def shamt_eq push_bit_eq_mult drop_bit_div
      signed_drop_bit_div word_less_nat_alt)

lemma evaluate_branch_taken:
  "evaluate_branch BC_Equal x y = isa_taken K_Beq x y"
  "evaluate_branch BC_NotEqual x y = isa_taken K_Bne x y"
  "evaluate_branch BC_LessThan x y = isa_taken K_Blt x y"
  "evaluate_branch BC_GreaterOrEqual x y = isa_taken K_Bge x y"
  "evaluate_branch BC_LessThanUnsigned x y = isa_taken K_Bltu x y"
  "evaluate_branch BC_GreaterOrEqualUnsigned x y = isa_taken K_Bgeu x y"
  by (simp_all add: evaluate_branch_def word_less_nat_alt word_le_nat_alt)

section \<open>Instruction groups\<close>

text \<open>
  The situation of an instruction \<open>d\<close> in EX: its latch \<open>r\<close>, and operands \<open>a\<close> and \<open>b\<close> that
  are the register values of the machine \<open>c\<close> wherever the instruction reads them.
\<close>

definition in_ex :: "CPU \<Rightarrow> DecodedInstruction \<Rightarrow> IDEXRegister \<Rightarrow> u32 \<Rightarrow> u32 \<Rightarrow> bool" where
  "in_ex c d r a b \<longleftrightarrow> regs_ok c \<and> latch_for d r \<and> unat (d_rd d) < 32 \<and> unat (d_rs1 d) < 32 \<and> unat (d_rs2 d) < 32 \<and>
     (fst (kind_uses (d_kind d)) \<longrightarrow> a = reg_val c (d_rs1 d)) \<and>
     (snd (kind_uses (d_kind d)) \<longrightarrow> b = reg_val c (d_rs2 d))"

text \<open>The pass through EX, MEM and WB has the effect the specification gives \<open>d\<close>.\<close>

definition executes :: "CPU \<Rightarrow> DecodedInstruction \<Rightarrow> IDEXRegister \<Rightarrow> u32 \<Rightarrow> u32 \<Rightarrow> bool" where
  "executes c d r a b \<longleftrightarrow>
     res_map (arch_at (ex_target r a b)) (finish c (ex_latch r a b)) =
       isa_execute d (arch_at (idex_pc r) c)"

lemma finish_writeback:
  assumes "in_ex c d r a b"
    and "reg_write (d_control d)" "\<not> halt_signal (d_control d)"
    and "\<not> mem_read (d_control d)" "\<not> mem_write (d_control d)"
  shows "res_map (arch_at pc) (finish c (ex_latch r a b)) =
    Inr (isa_retire pc (isa_set (arch_at q c) (d_rd d)
      (select_writeback_value (mem_out (ex_latch r a b) 0))))"
  using assms finish_plain[of c r pc a b q]
  by (simp add: in_ex_def latch_for_def wb_effect_def)

lemmas signal_defs = silent_def reg_reg_control_def reg_imm_control_def branch_control_def
lemmas ex_defs = ex_target_def ex_resolves_def ex_alu_def ex_taken_def

lemma executes_reg_reg:
  assumes "in_ex c d r a b"
    and "d_control d = reg_reg_control op"
    and "kind_uses (d_kind d) = (True, True)"
    and "execute_alu op a b = isa_compute (d_kind d) a b"
    and "isa_execute d (arch_at (idex_pc r) c) = isa_reg_reg d (arch_at (idex_pc r) c)"
  shows "executes c d r a b"
  using assms finish_writeback[OF assms(1), of "ex_target r a b" "idex_pc r"]
  by (simp add: executes_def in_ex_def latch_for_def isa_reg_reg_def ex_defs
      select_writeback_value_def signal_defs)

lemma executes_reg_imm:
  assumes "in_ex c d r a b"
    and "d_control d = reg_imm_control op"
    and "kind_uses (d_kind d) = (True, False)"
    and "execute_alu op a (d_immediate d) = isa_compute (d_kind d) a (d_immediate d)"
    and "isa_execute d (arch_at (idex_pc r) c) = isa_reg_imm d (arch_at (idex_pc r) c)"
  shows "executes c d r a b"
  using assms finish_writeback[OF assms(1), of "ex_target r a b" "idex_pc r"]
  by (simp add: executes_def in_ex_def latch_for_def isa_reg_imm_def ex_defs
      select_writeback_value_def signal_defs)

lemma executes_load:
  assumes "in_ex c d r a b"
    and "d_control d = load_control width zext"
    and "kind_uses (d_kind d) = (True, False)"
    and "\<And>addr q. read_memory c addr (load_control width zext) =
           res_bind (isa_load (arch_at q c) addr n) (\<lambda>bs. Inr (ext bs))"
    and "isa_execute d (arch_at (idex_pc r) c) = isa_loaded d n ext (arch_at (idex_pc r) c)"
  shows "executes c d r a b"
proof -
  have latch: "idex_control r = load_control width zext" "idex_immediate r = d_immediate d"
    using assms(1,2) by (simp_all add: in_ex_def latch_for_def)
  have alu: "ex_alu r a b = a + d_immediate d" "ex_target r a b = idex_pc r + 4"
    using latch
    by (simp_all add: ex_defs load_control_def signal_defs execute_alu_compute)
  have "res_map (arch_at (idex_pc r + 4)) (finish c (ex_latch r a b)) =
      res_bind (isa_load (arch_at (idex_pc r) c) (ex_alu r a b) n)
        (\<lambda>bs. Inr (isa_retire (idex_pc r + 4)
           (isa_set (arch_at (idex_pc r) c) (idex_rd r) (ext bs))))"
    by (rule finish_load[OF _ _ _ assms(4)]) (use assms(1,2) in \<open>simp_all add: in_ex_def latch_for_def\<close>)
  then show ?thesis
    unfolding executes_def alu assms(5)
    using assms(1,3) by (simp add: isa_loaded_def in_ex_def latch_for_def)
qed

lemma executes_store:
  assumes "in_ex c d r a b"
    and "d_control d = store_control width"
    and "kind_uses (d_kind d) = (True, True)"
    and "\<And>addr v. write_memory c addr v (store_control width) =
      (if unat addr + n \<le> length (cpu_memory c)
       then Inr (set_memory c addr (le_bytes n v)) else Inl bad_address)"
    and "isa_execute d (arch_at (idex_pc r) c) = isa_stored d n (arch_at (idex_pc r) c)"
  shows "executes c d r a b"
proof -
  have latch: "idex_control r = store_control width" "idex_immediate r = d_immediate d"
    using assms(1,2) by (simp_all add: in_ex_def latch_for_def)
  have alu: "ex_alu r a b = a + d_immediate d" "ex_target r a b = idex_pc r + 4"
    using latch
    by (simp_all add: ex_defs store_control_def signal_defs execute_alu_compute)
  have "res_map (arch_at (idex_pc r + 4)) (finish c (ex_latch r a b)) =
      res_bind (isa_store (arch_at (idex_pc r) c) (ex_alu r a b) (le_bytes n b))
        (\<lambda>s. Inr (isa_retire (idex_pc r + 4) s))"
    by (rule finish_store[OF _ _ _ assms(4)]) (use assms(1,2) in \<open>simp_all add: in_ex_def latch_for_def\<close>)
  then show ?thesis
    unfolding executes_def alu assms(5)
    using assms(1,3) by (simp add: isa_stored_def in_ex_def latch_for_def)
qed

lemma executes_branch:
  assumes "in_ex c d r a b"
    and "d_control d = branch_control condition"
    and "kind_uses (d_kind d) = (True, True)"
    and "evaluate_branch condition a b = isa_taken (d_kind d) a b"
    and "isa_execute d (arch_at (idex_pc r) c) = isa_branch d (arch_at (idex_pc r) c)"
  shows "executes c d r a b"
  using assms finish_plain[of c r "ex_target r a b" a b "idex_pc r"]
  by (auto simp add: executes_def in_ex_def latch_for_def isa_branch_def ex_defs wb_effect_def
      signal_defs)

lemma executes_halt:
  assumes "in_ex c d r a b"
    and "d_control d = silent\<lparr>halt_signal := True\<rparr>"
    and "isa_execute d (arch_at (idex_pc r) c) = isa_halt (arch_at (idex_pc r) c)"
  shows "executes c d r a b"
  using assms finish_plain[of c r "ex_target r a b" a b "idex_pc r"]
  by (simp add: executes_def in_ex_def latch_for_def isa_halt_def ex_defs wb_effect_def
      signal_defs)

lemma executes_upper_jump:
  assumes "in_ex c d r a b" and ctl: "d_control d = control_of (d_kind d)"
  shows "d_kind d = K_Lui \<Longrightarrow> executes c d r a b"
    and "d_kind d = K_Auipc \<Longrightarrow> executes c d r a b"
    and "d_kind d = K_Jal \<Longrightarrow> executes c d r a b"
    and "d_kind d = K_Jalr \<Longrightarrow> executes c d r a b"
  using assms finish_writeback[OF assms(1), of "ex_target r a b" "idex_pc r"]
  by (simp_all add: executes_def in_ex_def latch_for_def isa_execute_def ex_defs
      select_writeback_value_def silent_def execute_alu_compute)

section \<open>Every instruction\<close>

lemma datapath_executes:
  assumes "in_ex c d r a b" and "d_kind d \<noteq> K_Invalid"
    and ctl: "d_control d = control_of (d_kind d)"
  shows "executes c d r a b"
proof -
  have ok: "regs_ok c" using assms(1) by (simp add: in_ex_def)
  note reg_reg = executes_reg_reg[OF assms(1)] and reg_imm = executes_reg_imm[OF assms(1)]
    and load = executes_load[OF assms(1)] and store = executes_store[OF assms(1)]
    and branch = executes_branch[OF assms(1)] and halt = executes_halt[OF assms(1)]
  note facts = ctl isa_execute_def execute_alu_compute evaluate_branch_taken
  show ?thesis
  proof (cases "d_kind d")
    case K_Invalid with assms(2) show ?thesis by simp
  next case K_Add then show ?thesis by (intro reg_reg, simp add: facts) (simp_all add: facts)
  next case K_Sub then show ?thesis by (intro reg_reg, simp add: facts) (simp_all add: facts)
  next case K_Sll then show ?thesis by (intro reg_reg, simp add: facts) (simp_all add: facts)
  next case K_Slt then show ?thesis by (intro reg_reg, simp add: facts) (simp_all add: facts)
  next case K_Sltu then show ?thesis by (intro reg_reg, simp add: facts) (simp_all add: facts)
  next case K_Xor then show ?thesis by (intro reg_reg, simp add: facts) (simp_all add: facts)
  next case K_Srl then show ?thesis by (intro reg_reg, simp add: facts) (simp_all add: facts)
  next case K_Sra then show ?thesis by (intro reg_reg, simp add: facts) (simp_all add: facts)
  next case K_Or then show ?thesis by (intro reg_reg, simp add: facts) (simp_all add: facts)
  next case K_And then show ?thesis by (intro reg_reg, simp add: facts) (simp_all add: facts)
  next case K_Addi then show ?thesis by (intro reg_imm, simp add: facts) (simp_all add: facts)
  next case K_Slti then show ?thesis by (intro reg_imm, simp add: facts) (simp_all add: facts)
  next case K_Sltiu then show ?thesis by (intro reg_imm, simp add: facts) (simp_all add: facts)
  next case K_Xori then show ?thesis by (intro reg_imm, simp add: facts) (simp_all add: facts)
  next case K_Ori then show ?thesis by (intro reg_imm, simp add: facts) (simp_all add: facts)
  next case K_Andi then show ?thesis by (intro reg_imm, simp add: facts) (simp_all add: facts)
  next case K_Slli then show ?thesis by (intro reg_imm, simp add: facts) (simp_all add: facts)
  next case K_Srli then show ?thesis by (intro reg_imm, simp add: facts) (simp_all add: facts)
  next case K_Srai then show ?thesis by (intro reg_imm, simp add: facts) (simp_all add: facts)
  next case K_Lb then show ?thesis
      by (intro load[OF _ _ read_memory_load(1)[OF ok]]) (simp_all add: ctl isa_execute_def)
  next case K_Lh then show ?thesis
      by (intro load[OF _ _ read_memory_load(2)[OF ok]]) (simp_all add: ctl isa_execute_def)
  next case K_Lw then show ?thesis
      by (intro load[OF _ _ read_memory_load(5)[OF ok]]) (simp_all add: ctl isa_execute_def)
  next case K_Lbu then show ?thesis
      by (intro load[OF _ _ read_memory_load(3)[OF ok]]) (simp_all add: ctl isa_execute_def)
  next case K_Lhu then show ?thesis
      by (intro load[OF _ _ read_memory_load(4)[OF ok]]) (simp_all add: ctl isa_execute_def)
  next case K_Sb then show ?thesis
      by (intro store[OF _ _ write_memory_store(1)[OF ok]]) (simp_all add: ctl isa_execute_def)
  next case K_Sh then show ?thesis
      by (intro store[OF _ _ write_memory_store(2)[OF ok]]) (simp_all add: ctl isa_execute_def)
  next case K_Sw then show ?thesis
      by (intro store[OF _ _ write_memory_store(3)[OF ok]]) (simp_all add: ctl isa_execute_def)
  next case K_Beq then show ?thesis by (intro branch, simp add: facts) (simp_all add: facts)
  next case K_Bne then show ?thesis by (intro branch, simp add: facts) (simp_all add: facts)
  next case K_Blt then show ?thesis by (intro branch, simp add: facts) (simp_all add: facts)
  next case K_Bge then show ?thesis by (intro branch, simp add: facts) (simp_all add: facts)
  next case K_Bltu then show ?thesis by (intro branch, simp add: facts) (simp_all add: facts)
  next case K_Bgeu then show ?thesis by (intro branch, simp add: facts) (simp_all add: facts)
  next case K_Lui then show ?thesis by (rule executes_upper_jump[OF assms(1) ctl])
  next case K_Auipc then show ?thesis by (rule executes_upper_jump[OF assms(1) ctl])
  next case K_Jal then show ?thesis by (rule executes_upper_jump[OF assms(1) ctl])
  next case K_Jalr then show ?thesis by (rule executes_upper_jump[OF assms(1) ctl])
  next case K_Ecall then show ?thesis by (intro halt) (simp_all add: ctl isa_execute_def)
  next case K_Ebreak then show ?thesis by (intro halt) (simp_all add: ctl isa_execute_def)
  qed
qed

end
