(* ===== verification/Cycle.thy ===== *)
theory Cycle
  imports Execution
begin

text \<open>
  A normal form of one clock cycle: what decode and fetch put into their latches, what the cycle
  does with them when it stalls, flushes or stops fetching, and the proof that
  \<open>run_pipeline_cycle\<close> is exactly that. The exceptions of a cycle are those of writeback and of
  the memory stage.
\<close>

unbundle bit_operations_syntax

section \<open>Decode and fetch on single latches\<close>

definition id_latch :: "CPU \<Rightarrow> IFIDRegister \<Rightarrow> IDEXRegister" where
  "id_latch c r =
     (let d = decode_instruction (ifid_instruction r) in
      if ifid_valid r \<and> is_valid_instruction d then
        \<lparr>idex_valid = True, idex_pc = ifid_pc r, idex_instruction = ifid_instruction r,
         idex_predicted_taken = ifid_predicted_taken r,
         idex_predicted_next_pc = ifid_predicted_next_pc r,
         idex_format = d_format d, idex_rd = d_rd d, idex_rs1 = d_rs1 d, idex_rs2 = d_rs2 d,
         idex_funct3 = d_funct3 d, idex_funct7 = d_funct7 d, idex_immediate = d_immediate d,
         idex_rs1_value = reg_val c (d_rs1 d), idex_rs2_value = reg_val c (d_rs2 d),
         idex_control = d_control d\<rparr>
      else empty_IDEX)"

lemma empty_IDEX_control [simp]: "idex_control empty_IDEX = no_signals"
  by (simp add: empty_IDEX_def)

lemma no_signals_halt [simp]: "\<not> halt_signal no_signals"
  by (simp add: no_signals_def)

lemma stage_ID_latch:
  "stage_ID c p k =
     (if flush_id_ex k \<or> stall_fetch_decode k then Inr (p\<lparr>next_id_ex := empty_IDEX\<rparr>, k)
      else Inr (p\<lparr>next_id_ex := id_latch c (if_id p)\<rparr>,
                if halt_signal (idex_control (id_latch c (if_id p)))
                then k\<lparr>stop_fetch := True\<rparr> else k))"
  by (simp add: stage_ID_def Let_def id_latch_def read_reg_in decode_fields)

definition predicted_pc :: "CPU \<Rightarrow> u32 \<Rightarrow> u32 \<Rightarrow> u32" where
  "predicted_pc c pc i =
     (let d = decode_instruction i in
      if is_valid_instruction d \<and> branch (d_control d) \<and> predict_branch c pc
      then pc + d_immediate d else pc + 4)"

definition fetched :: "CPU \<Rightarrow> u32 \<Rightarrow> IFIDRegister" where
  "fetched c i =
     (let d = decode_instruction i; pc = cpu_pc c in
      \<lparr>ifid_valid = True, ifid_pc = pc, ifid_instruction = i,
       ifid_predicted_taken = (is_valid_instruction d \<and> branch (d_control d) \<and>
         predict_branch c pc),
       ifid_predicted_next_pc = predicted_pc c pc i\<rparr>)"

definition if_latch :: "CPU \<Rightarrow> CPU \<times> IFIDRegister" where
  "if_latch c =
     (case isa_fetch (cpu_memory c) (cpu_pc c) of
        None \<Rightarrow> (c, empty_IFID)
      | Some i \<Rightarrow> (set_pc c (predicted_pc c (cpu_pc c) i), fetched c i))"

lemma stage_IF_latch:
  assumes "regs_ok c"
  shows "stage_IF c p = Inr (fst (if_latch c), p\<lparr>next_if_id := snd (if_latch c)\<rparr>)"
proof (cases "unat (cpu_pc c) + 4 \<le> length (cpu_memory c)")
  case True
  then have "read_u32 c (cpu_pc c) = Inr (le_value (take 4 (drop (unat (cpu_pc c)) (cpu_memory c))))"
    using assms read_in(3)[of c "cpu_pc c"] by (simp add: regs_ok_def)
  with True show ?thesis
    by (auto simp: stage_IF_def Let_def memory_size_def if_latch_def isa_fetch_def fetched_def
        predicted_pc_def)
next
  case False
  then show ?thesis
    by (simp add: stage_IF_def Let_def memory_size_def if_latch_def isa_fetch_def)
qed

section \<open>The rest of a cycle after MEM\<close>

definition operand1 :: "PipelineRegisters \<Rightarrow> u32" where
  "operand1 p = forwarded_value p (idex_rs1 (id_ex p)) (idex_rs1_value (id_ex p))"

definition operand2 :: "PipelineRegisters \<Rightarrow> u32" where
  "operand2 p = forwarded_value p (idex_rs2 (id_ex p)) (idex_rs2_value (id_ex p))"

definition after_EX :: "CPU \<Rightarrow> PipelineRegisters \<Rightarrow> CPU" where
  "after_EX c p = (if idex_valid (id_ex p) then ex_cpu c (id_ex p) (operand1 p) (operand2 p) else c)"

definition ex_out :: "PipelineRegisters \<Rightarrow> EXMEMRegister" where
  "ex_out p = (if idex_valid (id_ex p) then ex_latch (id_ex p) (operand1 p) (operand2 p)
               else empty_EXMEM)"

definition redirected :: "PipelineRegisters \<Rightarrow> bool" where
  "redirected p \<longleftrightarrow> idex_valid (id_ex p) \<and> ex_redirects (id_ex p) (operand1 p) (operand2 p)"

definition stalled :: "PipelineRegisters \<Rightarrow> bool" where
  "stalled p \<longleftrightarrow> \<not> redirected p \<and> stall (detect_raw_hazard p)"

definition after_hazard :: "CPU \<Rightarrow> PipelineRegisters \<Rightarrow> CPU" where
  "after_hazard c p = (if stalled p then count_stall (after_EX c p) else after_EX c p)"

definition id_out :: "CPU \<Rightarrow> PipelineRegisters \<Rightarrow> IDEXRegister" where
  "id_out c p =
     (if redirected p \<or> stalled p then empty_IDEX else id_latch (after_hazard c p) (if_id p))"

definition fetch_stops :: "CPU \<Rightarrow> PipelineRegisters \<Rightarrow> bool" where
  "fetch_stops c p \<longleftrightarrow> halt_signal (idex_control (id_out c p)) \<or> halt_is_in_flight p"

definition if_out :: "CPU \<Rightarrow> PipelineRegisters \<Rightarrow> CPU \<times> IFIDRegister" where
  "if_out c p =
     (if fetch_stops c p then (after_hazard c p, empty_IFID)
      else if stalled p then (after_hazard c p, if_id p)
      else if_latch (after_hazard c p))"

definition latches ::
  "IFIDRegister \<Rightarrow> IDEXRegister \<Rightarrow> EXMEMRegister \<Rightarrow> MEMWBRegister \<Rightarrow> PipelineRegisters" where
  "latches f d x m =
     \<lparr>if_id = f, id_ex = d, ex_mem = x, mem_wb = m,
      next_if_id = f, next_id_ex = d, next_ex_mem = x, next_mem_wb = m\<rparr>"

lemma latches_simps [simp]:
  "if_id (latches f d x m) = f" "id_ex (latches f d x m) = d"
  "ex_mem (latches f d x m) = x" "mem_wb (latches f d x m) = m"
  by (simp_all add: latches_def)

definition rest_of_cycle ::
  "CPU \<Rightarrow> MEMWBRegister \<Rightarrow> PipelineRegisters \<Rightarrow> CPU \<times> PipelineRegisters" where
  "rest_of_cycle c m p =
     (tick (fst (if_out c p)), latches (snd (if_out c p)) (id_out c p) (ex_out p) m)"

lemma clear_next_simps [simp]:
  "if_id (clear_next p) = if_id p" "id_ex (clear_next p) = id_ex p"
  "ex_mem (clear_next p) = ex_mem p" "mem_wb (clear_next p) = mem_wb p"
  by (simp_all add: clear_next_def)

lemma forwarded_value_cong:
  "ex_mem p = ex_mem q \<Longrightarrow> mem_wb p = mem_wb q \<Longrightarrow> forwarded_value p = forwarded_value q"
  by (intro ext) (simp add: forwarded_value_def)

lemma detect_raw_hazard_cong:
  "if_id p = if_id q \<Longrightarrow> id_ex p = id_ex q \<Longrightarrow> stall (detect_raw_hazard p) = stall (detect_raw_hazard q)"
  by (simp add: stall_iff)

lemma commit_latches:
  "commit (p\<lparr>next_mem_wb := m, next_ex_mem := x, next_id_ex := d, next_if_id := f\<rparr>) = latches f d x m"
  by (cases p) (simp add: commit_def latches_def)

section \<open>What EX and the hazard check leave alone\<close>

lemma count_simps [simp]:
  "cpu_regs (count_stall c) = cpu_regs c" "cpu_memory (count_stall c) = cpu_memory c"
  "cpu_pc (count_stall c) = cpu_pc c" "cpu_config (count_stall c) = cpu_config c"
  "cpu_predictor (count_stall c) = cpu_predictor c"
  "arch_at q (count_stall c) = arch_at q c" "reg_val (count_stall c) = reg_val c"
  "regs_ok (count_stall c) = regs_ok c"
  by (simp_all add: count_stall_def arch_at_def regs_ok_def fun_eq_iff reg_val_def)

lemma ex_cpu_simps [simp]:
  "cpu_regs (ex_cpu c r a b) = cpu_regs c" "cpu_memory (ex_cpu c r a b) = cpu_memory c"
  "cpu_config (ex_cpu c r a b) = cpu_config c" "arch_at q (ex_cpu c r a b) = arch_at q c"
  "cpu_pc (ex_cpu c r a b) = (if ex_redirects r a b then ex_target r a b else cpu_pc c)"
  by (simp_all add: ex_cpu_def Let_def set_pc_def update_branch_predictor_def
      count_mispredict_def count_branch_def arch_at_def)

lemma after_EX_simps [simp]:
  "cpu_regs (after_EX c p) = cpu_regs c" "cpu_memory (after_EX c p) = cpu_memory c"
  "cpu_config (after_EX c p) = cpu_config c" "arch_at q (after_EX c p) = arch_at q c"
  "cpu_pc (after_EX c p) =
     (if redirected p then ex_target (id_ex p) (operand1 p) (operand2 p) else cpu_pc c)"
  by (simp_all add: after_EX_def redirected_def)

lemma after_hazard_simps [simp]:
  "cpu_regs (after_hazard c p) = cpu_regs c" "cpu_memory (after_hazard c p) = cpu_memory c"
  "cpu_config (after_hazard c p) = cpu_config c" "arch_at q (after_hazard c p) = arch_at q c"
  "cpu_pc (after_hazard c p) =
     (if redirected p then ex_target (id_ex p) (operand1 p) (operand2 p) else cpu_pc c)"
  "reg_val (after_hazard c p) = reg_val c" "regs_ok (after_hazard c p) = regs_ok c"
  by (simp_all add: after_hazard_def regs_ok_def fun_eq_iff reg_val_def)

section \<open>The normal form\<close>

lemma no_control_simps [simp]:
  "\<not> flush_id_ex no_control" "\<not> stall_fetch_decode no_control" "\<not> stop_fetch no_control"
  by (simp_all add: no_control_def)

lemma stage_EX_normal:
  assumes "id_ex q = id_ex p" "ex_mem q = ex_mem p" "mem_wb q = mem_wb p"
  shows "stage_EX c q no_control = (after_EX c p, q\<lparr>next_ex_mem := ex_out p\<rparr>,
     if redirected p then no_control\<lparr>flush_id_ex := True\<rparr> else no_control)"
  using assms stage_EX_latch[of q "operand1 p" "operand2 p" c no_control] stage_EX_empty[of q c]
  by (cases "idex_valid (id_ex p)")
    (simp_all add: operand1_def operand2_def forwarded_value_cong[of q p] after_EX_def ex_out_def
      redirected_def)

lemma halt_is_in_flight_cong:
  "id_ex p = id_ex q \<Longrightarrow> ex_mem p = ex_mem q \<Longrightarrow> mem_wb p = mem_wb q \<Longrightarrow>
   halt_is_in_flight p = halt_is_in_flight q"
  by (simp add: halt_is_in_flight_def)

text \<open>The cycle after the memory stage, in the words of the sources.\<close>

lemma rest_of_cycle_normal:
  assumes ok: "regs_ok c"
    and q: "if_id q = if_id p" "id_ex q = id_ex p" "ex_mem q = ex_mem p" "mem_wb q = mem_wb p"
    and commit: "\<And>x d f. commit (q\<lparr>next_ex_mem := x, next_id_ex := d, next_if_id := f\<rparr>)
                    = latches f d x m"
  shows "(let (cpu, pipeline, control) = stage_EX c q no_control;
          (cpu, control) =
            (if \<not> flush_id_ex control then
               let hazard = detect_raw_hazard pipeline;
                   control = control\<lparr>stall_fetch_decode := stall hazard\<rparr>
               in (if stall hazard then count_stall cpu else cpu, control)
             else (cpu, control)) in
      res_bind (stage_ID cpu pipeline control) (\<lambda>(pipeline, control).
      res_bind
        (if stop_fetch control \<or> halt_is_in_flight pipeline then
           Inr (cpu, pipeline\<lparr>next_if_id := empty_IFID\<rparr>)
         else if \<not> stall_fetch_decode control then stage_IF cpu pipeline
         else Inr (cpu, pipeline\<lparr>next_if_id := if_id pipeline\<rparr>))
        (\<lambda>(cpu, pipeline). Inr (tick cpu, commit pipeline))))
    = Inr (rest_of_cycle c m p)"
proof -
  let ?k = "if redirected p then no_control\<lparr>flush_id_ex := True\<rparr>
            else no_control\<lparr>stall_fetch_decode := stalled p\<rparr>"
  let ?q = "q\<lparr>next_ex_mem := ex_out p\<rparr>" and ?c = "after_hazard c p"
  let ?k' = "if halt_signal (idex_control (id_out c p)) then ?k\<lparr>stop_fetch := True\<rparr> else ?k"
  have haz: "stall (detect_raw_hazard ?q) = stall (detect_raw_hazard p)"
    by (rule detect_raw_hazard_cong) (simp_all add: q)
  have front: "(let (cpu, pipeline, control) = stage_EX c q no_control;
          (cpu, control) =
            (if \<not> flush_id_ex control then
               let hazard = detect_raw_hazard pipeline;
                   control = control\<lparr>stall_fetch_decode := stall hazard\<rparr>
               in (if stall hazard then count_stall cpu else cpu, control)
             else (cpu, control)) in F cpu pipeline control) = F ?c ?q ?k"
    for F :: "CPU \<Rightarrow> PipelineRegisters \<Rightarrow> StageControl \<Rightarrow> (CPU \<times> PipelineRegisters) result"
    by (simp add: stage_EX_normal[OF q(2-4)] haz Let_def after_hazard_def stalled_def)
  have id: "stage_ID ?c ?q ?k = Inr (?q\<lparr>next_id_ex := id_out c p\<rparr>, ?k')"
    by (simp add: stage_ID_latch id_out_def q)
  have inflight: "halt_is_in_flight (?q\<lparr>next_id_ex := id_out c p\<rparr>) = halt_is_in_flight p"
    by (rule halt_is_in_flight_cong) (simp_all add: q)
  have okc: "regs_ok ?c" using ok by simp
  have "\<not> (stalled p \<and> redirected p)" by (simp add: stalled_def)
  then show ?thesis
    unfolding front id
    by (auto simp add: inflight stage_IF_latch[OF okc] fetch_stops_def if_out_def rest_of_cycle_def
        commit q)
qed

lemma wb_latch_ok:
  "regs_ok c \<Longrightarrow> wb_latch c r = Inr c' \<Longrightarrow> regs_ok c'"
  by (auto simp: wb_latch_def stage_WB_def Let_def regs_ok_def res_bind_eq_Inr write_reg_def
      validate_register_index_def kNumRegisters_def count_instruction_def halt_def
      split: if_splits)

lemma write_memory_ok:
  "regs_ok c \<Longrightarrow> write_memory c a v k = Inr c' \<Longrightarrow> regs_ok c'"
  by (auto simp: write_memory_def write_u8_def write_u16_def write_u32_def Let_def regs_ok_def
      res_bind_eq_Inr set_byte_def record_memory_write_def split: MemoryAccessWidth.splits)

lemma mem_latch_ok:
  "regs_ok c \<Longrightarrow> mem_latch c r = Inr (c', l) \<Longrightarrow> regs_ok c'"
  by (cases "exmem_valid r")
    (auto simp: mem_latch_valid res_bind_eq_Inr write_memory_ok split: if_splits)

lemma run_pipeline_cycle_normal:
  assumes "regs_ok c"
  shows "run_pipeline_cycle c p =
     res_bind (wb_latch c (mem_wb p)) (\<lambda>c1.
     res_bind (mem_latch c1 (ex_mem p)) (\<lambda>(c2, m). Inr (rest_of_cycle c2 m p)))"
proof (cases "wb_latch c (mem_wb p)")
  case (Inl e)
  then show ?thesis by (simp add: run_pipeline_cycle_def Let_def stage_WB_latch)
next
  case (Inr c1)
  note wb = Inr
  have ok1: "regs_ok c1" using assms Inr by (rule wb_latch_ok)
  show ?thesis
  proof (cases "mem_latch c1 (ex_mem p)")
    case (Inl e)
    with wb show ?thesis
      by (simp add: run_pipeline_cycle_def Let_def stage_WB_latch stage_MEM_latch)
  next
    case (Inr cm)
    obtain c2 m where cm: "cm = (c2, m)" by (cases cm)
    have ok2: "regs_ok c2" using mem_latch_ok[OF ok1] Inr cm by blast
    let ?q = "(clear_next p)\<lparr>next_mem_wb := m\<rparr>"
    note rest = rest_of_cycle_normal[OF ok2, of ?q p m]
    have mem: "stage_MEM c1 (clear_next p) = Inr (c2, ?q)"
      by (simp add: stage_MEM_latch Inr cm)
    have wb': "stage_WB c (clear_next p) = Inr c1"
      by (simp add: stage_WB_latch wb)
    show ?thesis
      unfolding run_pipeline_cycle_def wb wb' Inr cm mem res_bind_simps prod.case
      by (subst Let_def, subst Let_def, subst wb', unfold res_bind_simps, subst mem,
          unfold res_bind_simps prod.case)
        (rule rest, simp_all add: commit_latches)
  qed
qed

end
