(* ===== verification/Drain.thy ===== *)
theory Drain
  imports Cycle
begin

text \<open>
  What the instructions in EX/MEM and MEM/WB still do to the registers, the memory and the halt
  flag, and the proof that the forwarding unit anticipates it.
\<close>

unbundle bit_operations_syntax

section \<open>What a latch does to registers and the halt flag\<close>

definition mem_wf :: "EXMEMRegister \<Rightarrow> bool" where
  "mem_wf r \<longleftrightarrow> (exmem_valid r \<longrightarrow>
     unat (exmem_rd r) < 32 \<and> (\<exists>k. exmem_control r = control_of k))"

definition wb_wf :: "MEMWBRegister \<Rightarrow> bool" where
  "wb_wf r \<longleftrightarrow> (memwb_valid r \<longrightarrow>
     unat (memwb_rd r) < 32 \<and> (\<exists>k. memwb_control r = control_of k))"

lemma control_of_memory:
  "writeback_source (control_of k) = WB_Memory \<longleftrightarrow> mem_read (control_of k)"
  "mem_read (control_of k) \<Longrightarrow> reg_write (control_of k)"
  "halt_signal (control_of k) \<Longrightarrow> \<not> mem_read (control_of k)"
  "halt_signal (control_of k) \<Longrightarrow> \<not> branch (control_of k) \<and> \<not> jump (control_of k)"
  by (cases k; simp add: signal_defs load_control_def store_control_def)+

lemma select_is_forward: "select_writeback_value r = mem_wb_forward_value r"
  by (simp add: select_writeback_value_def mem_wb_forward_value_def split: WritebackSource.splits)

lemma isa_get_set:
  "length (a_regs s) = 32 \<Longrightarrow> unat q < 32 \<Longrightarrow>
   isa_get (isa_set s r v) q = (if r = q \<and> r \<noteq> 0 then v else isa_get s q)"
  by (cases "r = q") (simp_all add: isa_get_def isa_set_def word_unat_eq_iff)

lemma isa_get_retire [simp]: "isa_get (isa_retire pc s) q = isa_get s q"
  by (simp add: isa_get_def)

lemma wb_latch_total:
  "regs_ok c \<Longrightarrow> wb_wf r \<Longrightarrow> \<exists>c'. wb_latch c r = Inr c'"
  using wb_latch_arch[of c r 0 0] by (cases "memwb_valid r") (auto simp: wb_wf_def)

lemma wb_latch_reg_val:
  assumes "regs_ok c" "wb_wf r" "wb_latch c r = Inr c'" "unat q < 32"
  shows "reg_val c' q = (if can_forward_from_mem_wb r \<and> q = memwb_rd r
                         then mem_wb_forward_value r else reg_val c q)"
proof (cases "memwb_valid r")
  case False
  then show ?thesis using assms by (simp add: can_forward_from_mem_wb_def)
next
  case True
  then have a: "arch_at 0 c' = isa_retire 0 (wb_effect r (arch_at 0 c))"
    using wb_latch_arch[of c r 0 0] assms by (auto simp: wb_wf_def)
  have "reg_val c' q = isa_get (arch_at 0 c') q"
    using assms wb_latch_ok by simp
  also have "\<dots> = isa_get (wb_effect r (arch_at 0 c)) q"
    unfolding a by simp
  also have "\<dots> = (if can_forward_from_mem_wb r \<and> q = memwb_rd r
      then mem_wb_forward_value r else reg_val c q)"
    using True assms(1,4)
    by (auto simp: wb_effect_def Let_def can_forward_from_mem_wb_def select_is_forward isa_get_set
        regs_ok_def isa_get_def[of "x\<lparr>a_halted := True\<rparr>" for x]
        simp flip: isa_get_def[of "x" for x])
  finally show ?thesis .
qed

lemma wb_latch_halted:
  "wb_latch c r = Inr c' \<Longrightarrow>
   cpu_halted c' \<longleftrightarrow> cpu_halted c \<or> memwb_valid r \<and> halt_signal (memwb_control r)"
  by (auto simp: wb_latch_def stage_WB_def Let_def res_bind_eq_Inr write_reg_def
      validate_register_index_def count_instruction_def halt_def split: if_splits)

lemma wb_latch_frame:
  "wb_latch c r = Inr c' \<Longrightarrow> cpu_memory c' = cpu_memory c \<and> cpu_pc c' = cpu_pc c"
  by (auto simp: wb_latch_def stage_WB_def Let_def res_bind_eq_Inr write_reg_def
      validate_register_index_def count_instruction_def halt_def split: if_splits)

lemma write_memory_frame:
  "write_memory c a v k = Inr c' \<Longrightarrow> cpu_regs c' = cpu_regs c \<and> cpu_pc c' = cpu_pc c \<and>
     cpu_halted c' = cpu_halted c"
  by (auto simp: write_memory_def write_u8_def write_u16_def write_u32_def Let_def
      res_bind_eq_Inr set_byte_def record_memory_write_def split: MemoryAccessWidth.splits)

lemma mem_latch_frame:
  assumes "mem_latch c r = Inr (c', l)"
  shows "reg_val c' = reg_val c \<and> cpu_pc c' = cpu_pc c \<and> cpu_halted c' = cpu_halted c"
  using assms
  by (cases "exmem_valid r")
    (auto simp: mem_latch_valid res_bind_eq_Inr reg_val_def fun_eq_iff
      dest: write_memory_frame split: if_splits)

lemma mem_latch_out:
  assumes "mem_latch c r = Inr (c', l)"
  shows "l = (if exmem_valid r then mem_out r (memwb_memory_data l) else empty_MEMWB)"
  using assms
  by (cases "exmem_valid r") (auto simp: mem_latch_valid res_bind_eq_Inr)

lemma mem_latch_wf: "mem_wf r \<Longrightarrow> mem_latch c r = Inr (c', l) \<Longrightarrow> wb_wf l"
  by (cases "exmem_valid r")
    (auto simp: mem_latch_valid res_bind_eq_Inr mem_wf_def wb_wf_def)

section \<open>Completing the instructions in flight\<close>

definition drain :: "CPU \<Rightarrow> PipelineRegisters \<Rightarrow> CPU result" where
  "drain c p = res_bind (wb_latch c (mem_wb p)) (\<lambda>c. finish c (ex_mem p))"

lemma finish_invalid [simp]: "\<not> exmem_valid r \<Longrightarrow> finish c r = Inr c"
  by (simp add: finish_def)

text \<open>
  The forwarding unit gives the value the register has once the older instructions are
  completed, except for a load in EX/MEM, whose value is not there yet.
\<close>

lemma forwarded_is_drained:
  assumes "regs_ok c" "mem_wf (ex_mem p)" "wb_wf (mem_wb p)" "drain c p = Inr cd" "unat q < 32"
    and load: "\<not> (exmem_valid (ex_mem p) \<and> mem_read (exmem_control (ex_mem p)) \<and>
                   q \<noteq> 0 \<and> q = exmem_rd (ex_mem p))"
  shows "forwarded_value p q (reg_val c q) = reg_val cd q"
proof -
  obtain c1 where c1: "wb_latch c (mem_wb p) = Inr c1" "finish c1 (ex_mem p) = Inr cd"
    using assms(4) by (auto simp: drain_def res_bind_eq_Inr)
  obtain c2 l where m: "mem_latch c1 (ex_mem p) = Inr (c2, l)" "wb_latch c2 l = Inr cd"
    using c1(2) by (auto simp: finish_def res_bind_eq_Inr)
  have ok1: "regs_ok c1" using assms(1) c1(1) by (rule wb_latch_ok)
  have ok2: "regs_ok c2" using ok1 m(1) by (rule mem_latch_ok)
  have wf: "wb_wf l" using assms(2) m(1) by (rule mem_latch_wf)
  have cd: "reg_val cd q = (if can_forward_from_mem_wb l \<and> q = memwb_rd l
      then mem_wb_forward_value l else reg_val c1 q)"
    using wb_latch_reg_val[OF ok2 wf m(2) assms(5)] mem_latch_frame[OF m(1)] by simp
  have c1v: "reg_val c1 q = (if can_forward_from_mem_wb (mem_wb p) \<and> q = memwb_rd (mem_wb p)
      then mem_wb_forward_value (mem_wb p) else reg_val c q)"
    by (rule wb_latch_reg_val) (use assms c1 in simp_all)
  show ?thesis
  proof (cases "exmem_valid (ex_mem p)")
    case False
    then show ?thesis
      using cd c1v mem_latch_out[OF m(1)]
      by (auto simp: forwarded_value_def can_forward_from_ex_mem_def can_forward_from_mem_wb_def)
  next
    case True
    obtain k where k: "exmem_control (ex_mem p) = control_of k"
      using assms(2) True by (auto simp: mem_wf_def)
    have l: "l = mem_out (ex_mem p) (memwb_memory_data l)"
      using mem_latch_out[OF m(1)] True by simp
    have lf: "can_forward_from_mem_wb l \<and> q = memwb_rd l \<longleftrightarrow>
        can_forward_from_ex_mem (ex_mem p) \<and> q \<noteq> 0 \<and> q = exmem_rd (ex_mem p)"
      using load True
      by (subst (1 2) l) (auto simp: can_forward_from_mem_wb_def can_forward_from_ex_mem_def)
    have "mem_wb_forward_value l = ex_mem_forward_value (ex_mem p)"
      if "can_forward_from_ex_mem (ex_mem p)"
      using that control_of_memory(1)[of k] k
      by (subst l) (auto simp: mem_wb_forward_value_def ex_mem_forward_value_def
          can_forward_from_ex_mem_def split: WritebackSource.splits)
    then show ?thesis
      using cd c1v lf by (auto simp: forwarded_value_def can_forward_from_mem_wb_def)
  qed
qed

end
