(* ===== verification/Refinement.thy ===== *)
theory Refinement
  imports Drain
begin

text \<open>
  The refinement relation between the pipeline and the one-instruction-at-a-time machine. A
  pipeline state stands for the machine state that results when the instructions in EX/MEM and
  MEM/WB are completed, with the program counter at the oldest instruction that has not been
  executed; the younger latches hold a prefix of what the machine will execute next, or
  instructions that the branch in EX is about to discard.
\<close>

unbundle bit_operations_syntax

section \<open>The relation\<close>

definition front_pc :: "CPU \<Rightarrow> PipelineRegisters \<Rightarrow> u32" where
  "front_pc c p = (if ifid_valid (if_id p) then ifid_pc (if_id p) else cpu_pc c)"

definition commit_pc :: "CPU \<Rightarrow> PipelineRegisters \<Rightarrow> u32" where
  "commit_pc c p = (if idex_valid (id_ex p) then idex_pc (id_ex p) else front_pc c p)"

text \<open>The instruction in EX was fetched from where the machine is, and decoded right.\<close>

definition ex_ready :: "CPU \<Rightarrow> PipelineRegisters \<Rightarrow> Arch \<Rightarrow> bool" where
  "ex_ready c p s \<longleftrightarrow> (idex_valid (id_ex p) \<longrightarrow>
     (let r = id_ex p; i = idex_instruction r; d = decode_instruction i in
      d_kind d \<noteq> K_Invalid \<and> latch_for d r \<and>
      idex_rs1_value r = reg_val c (d_rs1 d) \<and> idex_rs2_value r = reg_val c (d_rs2 d) \<and>
      isa_fetch (a_memory s) (idex_pc r) = Some i \<and> \<not> a_halted s \<and>
      idex_predicted_next_pc r = front_pc c p \<and>
      (\<not> ex_resolves r \<longrightarrow> idex_predicted_next_pc r = idex_pc r + 4) \<and>
      (exmem_valid (ex_mem p) \<and> mem_read (exmem_control (ex_mem p)) \<longrightarrow>
         \<not> reads_register i (exmem_rd (ex_mem p))) \<and>
      (halt_signal (idex_control r) \<longrightarrow> \<not> ifid_valid (if_id p))))"

text \<open>
  The instruction in ID was predicted to come before the one being fetched, and is the right
  word if the machine gets to its address after the instruction in EX.
\<close>

definition id_ready :: "CPU \<Rightarrow> PipelineRegisters \<Rightarrow> Arch \<Rightarrow> bool" where
  "id_ready c p s \<longleftrightarrow> (ifid_valid (if_id p) \<longrightarrow>
     (let r = if_id p; i = ifid_instruction r; d = decode_instruction i in
      \<not> a_halted s \<and> ifid_predicted_next_pc r = cpu_pc c \<and>
      (\<not> branch (d_control d) \<longrightarrow> ifid_predicted_next_pc r = ifid_pc r + 4) \<and>
      (\<forall>t. (if idex_valid (id_ex p) then isa_step s = Inr t else t = s) \<longrightarrow>
         a_pc t = ifid_pc r \<longrightarrow> isa_fetch (a_memory t) (ifid_pc r) = Some i)))"

text \<open>A halting instruction has nothing behind it.\<close>

definition halt_ready :: "CPU \<Rightarrow> PipelineRegisters \<Rightarrow> bool" where
  "halt_ready c p \<longleftrightarrow>
     (cpu_halted c \<longrightarrow> \<not> exmem_valid (ex_mem p) \<and> \<not> memwb_valid (mem_wb p)) \<and>
     (memwb_valid (mem_wb p) \<and> halt_signal (memwb_control (mem_wb p)) \<longrightarrow>
        \<not> exmem_valid (ex_mem p))"

definition refines :: "CPU \<Rightarrow> PipelineRegisters \<Rightarrow> Arch \<Rightarrow> bool" where
  "refines c p s \<longleftrightarrow>
     regs_ok c \<and> mem_wf (ex_mem p) \<and> wb_wf (mem_wb p) \<and>
     res_map (arch_at (commit_pc c p)) (drain c p) = Inr s \<and>
     ex_ready c p s \<and> id_ready c p s \<and> halt_ready c p"

text \<open>
  Fetching two instructions ahead is harmless when the next two instructions do not overwrite
  the words that follow them in the execution.
\<close>

definition fetch_stable :: "Arch \<Rightarrow> bool" where
  "fetch_stable s \<longleftrightarrow> (\<forall>n \<le> 2. \<forall>t. isa_steps n s = Inr t \<longrightarrow>
     isa_fetch (a_memory t) (a_pc t) = isa_fetch (a_memory s) (a_pc t))"

text \<open>How far the oldest unexecuted instruction is from EX.\<close>

definition distance :: "PipelineRegisters \<Rightarrow> nat" where
  "distance p = (if idex_valid (id_ex p) then 0 else if ifid_valid (if_id p) then 1 else 2)"

section \<open>The machine\<close>

lemma isa_group_halted:
  "isa_reg_reg d s = Inr t \<Longrightarrow> a_halted t = a_halted s"
  "isa_reg_imm d s = Inr t \<Longrightarrow> a_halted t = a_halted s"
  "isa_branch d s = Inr t \<Longrightarrow> a_halted t = a_halted s"
  "isa_loaded d n ext s = Inr t \<Longrightarrow> a_halted t = a_halted s"
  "isa_stored d n s = Inr t \<Longrightarrow> a_halted t = a_halted s"
  "isa_halt s = Inr t \<Longrightarrow> a_halted t"
  by (auto simp: isa_reg_reg_def isa_reg_imm_def isa_branch_def isa_loaded_def isa_stored_def
      isa_halt_def isa_store_def res_bind_eq_Inr split: if_splits)

lemma halt_signal_control_of:
  "halt_signal (control_of k) \<longleftrightarrow> k = K_Ecall \<or> k = K_Ebreak"
  by (cases k) (simp_all add: signal_defs load_control_def store_control_def)

lemma isa_execute_halted:
  assumes "isa_execute d s = Inr t"
  shows "a_halted t \<longleftrightarrow> a_halted s \<or> halt_signal (control_of (d_kind d))"
  using assms unfolding halt_signal_control_of isa_execute_def
  by (cases "d_kind d") (simp_all add: isa_group_halted, auto dest: isa_group_halted)

lemma isa_step_halted [simp]: "a_halted s \<Longrightarrow> isa_step s = Inr s"
  by (simp add: isa_step_def)

lemma isa_step_fetch:
  "\<not> a_halted s \<Longrightarrow> isa_fetch (a_memory s) (a_pc s) = Some i \<Longrightarrow>
   isa_step s = isa_execute (decode_instruction i) s"
  by (simp add: isa_step_def)

lemma isa_step_skip:
  "\<not> a_halted s \<Longrightarrow> isa_fetch (a_memory s) (a_pc s) = Some i \<Longrightarrow>
   d_kind (decode_instruction i) = K_Invalid \<Longrightarrow> isa_step s = Inr (s\<lparr>a_pc := a_pc s + 4\<rparr>)"
  by (simp add: isa_step_def isa_execute_def)

section \<open>CPUs with the same architectural state\<close>

definition agree :: "CPU \<Rightarrow> CPU \<Rightarrow> bool" where
  "agree c c' \<longleftrightarrow> (\<forall>q. arch_at q c = arch_at q c')"

lemma agreeI: "arch_at q c = arch_at q c' \<Longrightarrow> agree c c'"
  by (auto simp: agree_def arch_at_def)

lemma agree_arch: "agree c c' \<Longrightarrow> arch_at q c = arch_at q c'"
  by (simp add: agree_def)

lemma agree_regs_ok:
  assumes "agree c c'" "regs_ok c"
  shows "regs_ok c'"
proof -
  have "(cpu_regs c)[0 := 0] = (cpu_regs c')[0 := 0]" and "cpu_memory c = cpu_memory c'"
    using agree_arch[OF assms(1), of 0] by (simp_all add: arch_at_def)
  then have "length (cpu_regs c) = length (cpu_regs c')" "cpu_memory c = cpu_memory c'"
    by (metis length_list_update, simp)
  then show ?thesis using assms(2) by (simp add: regs_ok_def)
qed

lemma agree_reg_val:
  assumes "agree c c'" "regs_ok c" "unat r < 32"
  shows "reg_val c r = reg_val c' r"
  using isa_get_arch_at[OF assms(2,3), of 0]
    isa_get_arch_at[OF agree_regs_ok[OF assms(1,2)] assms(3), of 0] agree_arch[OF assms(1)]
  by simp

lemma agree_wb_latch:
  assumes "agree c c'" "regs_ok c" "wb_wf r" "wb_latch c r = Inr d"
  shows "\<exists>d'. wb_latch c' r = Inr d' \<and> agree d d' \<and> cpu_pc d' = cpu_pc c'"
proof (cases "memwb_valid r")
  case False
  then show ?thesis using assms by simp
next
  case True
  have "unat (memwb_rd r) < 32" using assms(3) True by (simp add: wb_wf_def)
  then show ?thesis
    using wb_latch_arch[OF assms(2) True, of 0 0] assms(4)
      wb_latch_arch[OF agree_regs_ok[OF assms(1,2)] True, of 0 0] agree_arch[OF assms(1)]
    by (auto intro!: agreeI[of 0])
qed

section \<open>Facts of a related state\<close>

lemma refinesD:
  assumes "refines c p s"
  obtains c1 c2 m cd where "wb_latch c (mem_wb p) = Inr c1" "mem_latch c1 (ex_mem p) = Inr (c2, m)"
    "wb_latch c2 m = Inr cd" "drain c p = Inr cd" "arch_at (commit_pc c p) cd = s"
    "regs_ok c1" "regs_ok c2" "regs_ok cd" "wb_wf m"
proof -
  have r: "regs_ok c" "mem_wf (ex_mem p)" "wb_wf (mem_wb p)"
    "res_map (arch_at (commit_pc c p)) (drain c p) = Inr s"
    using assms by (simp_all add: refines_def)
  then obtain cd where cd: "drain c p = Inr cd" "arch_at (commit_pc c p) cd = s"
    by (auto simp: res_map_def res_bind_eq_Inr)
  then obtain c1 where c1: "wb_latch c (mem_wb p) = Inr c1" "finish c1 (ex_mem p) = Inr cd"
    by (auto simp: drain_def res_bind_eq_Inr)
  then obtain c2 m where m: "mem_latch c1 (ex_mem p) = Inr (c2, m)" "wb_latch c2 m = Inr cd"
    by (auto simp: finish_def res_bind_eq_Inr)
  have ok: "regs_ok c1" using r(1) c1(1) by (rule wb_latch_ok)
  have ok2: "regs_ok c2" using ok m(1) by (rule mem_latch_ok)
  have "regs_ok cd" using ok2 m(2) by (rule wb_latch_ok)
  then show ?thesis
    using that[OF c1(1) m cd ok ok2] mem_latch_wf[OF r(2) m(1)] by simp
qed

text \<open>The machine has halted exactly when a halting instruction has passed EX.\<close>

lemma refines_halted:
  assumes "refines c p s"
  shows "a_halted s \<longleftrightarrow> cpu_halted c \<or>
     memwb_valid (mem_wb p) \<and> halt_signal (memwb_control (mem_wb p)) \<or>
     exmem_valid (ex_mem p) \<and> halt_signal (exmem_control (ex_mem p))"
proof -
  obtain c1 c2 m cd where f: "wb_latch c (mem_wb p) = Inr c1"
    "mem_latch c1 (ex_mem p) = Inr (c2, m)" "wb_latch c2 m = Inr cd"
    "arch_at (commit_pc c p) cd = s"
    by (rule refinesD[OF assms]) (auto intro: that)
  have "cpu_halted c2 = cpu_halted c1" using mem_latch_frame[OF f(2)] by simp
  moreover have "memwb_valid m = exmem_valid (ex_mem p)"
    and "exmem_valid (ex_mem p) \<Longrightarrow> memwb_control m = exmem_control (ex_mem p)"
    using f(2) by (cases "exmem_valid (ex_mem p)"; auto simp: mem_latch_valid res_bind_eq_Inr)+
  ultimately show ?thesis
    using wb_latch_halted[OF f(1)] wb_latch_halted[OF f(3)] f(4) by auto
qed

lemma refines_memory:
  assumes "refines c p s" "wb_latch c (mem_wb p) = Inr c1" "mem_latch c1 (ex_mem p) = Inr (c2, m)"
  shows "a_memory s = cpu_memory c2"
proof -
  obtain c1' c2' m' cd where f: "wb_latch c (mem_wb p) = Inr c1'"
    "mem_latch c1' (ex_mem p) = Inr (c2', m')" "wb_latch c2' m' = Inr cd"
    "arch_at (commit_pc c p) cd = s"
    by (rule refinesD[OF assms(1)]) (auto intro: that)
  then have "c2' = c2" using assms by auto
  then show ?thesis using wb_latch_frame[OF f(3)] f(4) by auto
qed

end
