(* ===== verification/Pipeline_Step.thy ===== *)
theory Pipeline_Step
  imports Refinement
begin

text \<open>
  One cycle preserves the refinement relation: the machine moves by at most two instructions,
  the one in EX and an undecodable word skipped in ID.
\<close>

unbundle bit_operations_syntax

section \<open>The state in the middle of a cycle\<close>

text \<open>
  \<open>c2\<close> is the CPU after WB and MEM, \<open>m\<close> what MEM hands on and \<open>cd\<close> the CPU once \<open>m\<close> is
  written back: the state of the machine.
\<close>

definition mid_cycle ::
  "CPU \<Rightarrow> PipelineRegisters \<Rightarrow> Arch \<Rightarrow> CPU \<Rightarrow> MEMWBRegister \<Rightarrow> CPU \<Rightarrow> bool" where
  "mid_cycle c p s c2 m cd \<longleftrightarrow>
     refines c p s \<and> \<not> cpu_halted c \<and>
     run_pipeline_cycle c p = Inr (rest_of_cycle c2 m p) \<and>
     regs_ok c2 \<and> regs_ok cd \<and> wb_wf m \<and> cpu_pc c2 = cpu_pc c \<and> a_memory s = cpu_memory c2 \<and>
     wb_latch (fst (rest_of_cycle c2 m p)) m = Inr cd \<and> arch_at (commit_pc c p) cd = s \<and>
     (cpu_halted c2 \<longleftrightarrow> memwb_valid (mem_wb p) \<and> halt_signal (memwb_control (mem_wb p))) \<and>
     (memwb_valid m \<longleftrightarrow> exmem_valid (ex_mem p)) \<and>
     (exmem_valid (ex_mem p) \<longrightarrow> memwb_control m = exmem_control (ex_mem p)) \<and>
     (\<forall>q. unat q < 32 \<longrightarrow>
        \<not> (exmem_valid (ex_mem p) \<and> mem_read (exmem_control (ex_mem p)) \<and>
           q \<noteq> 0 \<and> q = exmem_rd (ex_mem p)) \<longrightarrow>
        forwarded_value p q (reg_val c q) = reg_val cd q)"

lemma if_latch_simps [simp]:
  "cpu_regs (fst (if_latch c)) = cpu_regs c" "cpu_memory (fst (if_latch c)) = cpu_memory c"
  "cpu_halted (fst (if_latch c)) = cpu_halted c" "arch_at q (fst (if_latch c)) = arch_at q c"
  by (simp_all add: if_latch_def set_pc_def arch_at_def split: option.splits)

lemma after_hazard_halted [simp]: "cpu_halted (after_hazard c p) = cpu_halted c"
  using after_hazard_simps(4)[of 0 c p] by (simp add: arch_at_def)

lemma tick_simps [simp]:
  "cpu_regs (tick c) = cpu_regs c" "cpu_memory (tick c) = cpu_memory c"
  "cpu_halted (tick c) = cpu_halted c" "cpu_pc (tick c) = cpu_pc c"
  "arch_at q (tick c) = arch_at q c"
  by (simp_all add: tick_def arch_at_def)

lemma rest_of_cycle_cpu [simp]:
  "cpu_regs (fst (rest_of_cycle c m p)) = cpu_regs c"
  "cpu_memory (fst (rest_of_cycle c m p)) = cpu_memory c"
  "cpu_halted (fst (rest_of_cycle c m p)) = cpu_halted c"
  "arch_at q (fst (rest_of_cycle c m p)) = arch_at q c"
  "cpu_pc (fst (rest_of_cycle c m p)) = cpu_pc (fst (if_out c p))"
  "reg_val (fst (rest_of_cycle c m p)) = reg_val c"
  "regs_ok (fst (rest_of_cycle c m p)) = regs_ok c"
  by (simp_all add: rest_of_cycle_def if_out_def reg_val_def regs_ok_def fun_eq_iff)

lemma rest_of_cycle_latches [simp]:
  "if_id (snd (rest_of_cycle c m p)) = snd (if_out c p)"
  "id_ex (snd (rest_of_cycle c m p)) = id_out c p"
  "ex_mem (snd (rest_of_cycle c m p)) = ex_out p"
  "mem_wb (snd (rest_of_cycle c m p)) = m"
  by (simp_all add: rest_of_cycle_def)

lemma mid_cycleI:
  assumes "refines c p s" "\<not> cpu_halted c"
  shows "\<exists>c2 m cd. mid_cycle c p s c2 m cd"
proof -
  obtain c1 c2 m cd where f: "wb_latch c (mem_wb p) = Inr c1"
    "mem_latch c1 (ex_mem p) = Inr (c2, m)" "wb_latch c2 m = Inr cd" "drain c p = Inr cd"
    "arch_at (commit_pc c p) cd = s" "regs_ok c1" "regs_ok c2" "regs_ok cd" "wb_wf m"
    by (rule refinesD[OF assms(1)]) (auto intro: that)
  have wf: "regs_ok c" "mem_wf (ex_mem p)" "wb_wf (mem_wb p)"
    using assms(1) by (simp_all add: refines_def)
  have run: "run_pipeline_cycle c p = Inr (rest_of_cycle c2 m p)"
    by (simp add: run_pipeline_cycle_normal[OF wf(1)] f(1,2))
  let ?c = "fst (rest_of_cycle c2 m p)"
  have agr: "agree c2 ?c" by (simp add: agree_def)
  obtain cd' where cd': "wb_latch ?c m = Inr cd'" "agree cd cd'"
    using agree_wb_latch[OF agr f(7,9,3)] by blast
  have s: "arch_at (commit_pc c p) cd' = s" using f(5) agree_arch[OF cd'(2)] by simp
  have ok': "regs_ok cd'" using cd'(2) f(8) by (rule agree_regs_ok)
  have halted: "cpu_halted c2 \<longleftrightarrow> memwb_valid (mem_wb p) \<and> halt_signal (memwb_control (mem_wb p))"
    using wb_latch_halted[OF f(1)] mem_latch_frame[OF f(2)] assms(2) by simp
  have m: "memwb_valid m \<longleftrightarrow> exmem_valid (ex_mem p)"
    "exmem_valid (ex_mem p) \<longrightarrow> memwb_control m = exmem_control (ex_mem p)"
    using f(2) by (cases "exmem_valid (ex_mem p)"; auto simp: mem_latch_valid res_bind_eq_Inr)+
  have pc: "cpu_pc c2 = cpu_pc c"
    using wb_latch_frame[OF f(1)] mem_latch_frame[OF f(2)] by simp
  have fwd: "forwarded_value p q (reg_val c q) = reg_val cd' q"
    if "unat q < 32" "\<not> (exmem_valid (ex_mem p) \<and> mem_read (exmem_control (ex_mem p)) \<and>
           q \<noteq> 0 \<and> q = exmem_rd (ex_mem p))" for q
    using forwarded_is_drained[OF wf f(4) that] agree_reg_val[OF cd'(2) f(8) that(1)] by simp
  have "mid_cycle c p s c2 m cd'"
    unfolding mid_cycle_def
    using assms run f(7) ok' f(9) pc refines_memory[OF assms(1) f(1,2)] cd'(1) s halted m fwd
    by blast
  then show ?thesis by blast
qed

section \<open>The instruction in EX\<close>

lemma ex_readyD:
  assumes "ex_ready c p s" "idex_valid (id_ex p)"
  defines "d \<equiv> decode_instruction (idex_instruction (id_ex p))"
  shows "d_kind d \<noteq> K_Invalid" "latch_for d (id_ex p)"
    "idex_rs1_value (id_ex p) = reg_val c (d_rs1 d)"
    "idex_rs2_value (id_ex p) = reg_val c (d_rs2 d)"
    "isa_fetch (a_memory s) (idex_pc (id_ex p)) = Some (idex_instruction (id_ex p))"
    "\<not> a_halted s"
    "idex_predicted_next_pc (id_ex p) = front_pc c p"
    "\<not> ex_resolves (id_ex p) \<longrightarrow> idex_predicted_next_pc (id_ex p) = idex_pc (id_ex p) + 4"
    "exmem_valid (ex_mem p) \<and> mem_read (exmem_control (ex_mem p)) \<longrightarrow>
       \<not> reads_register (idex_instruction (id_ex p)) (exmem_rd (ex_mem p))"
    "halt_signal (idex_control (id_ex p)) \<longrightarrow> \<not> ifid_valid (if_id p)"
  using assms(1,2) unfolding ex_ready_def Let_def d_def by blast+

lemma mid_cycleD:
  assumes "mid_cycle c p s c2 m cd"
  shows "refines c p s" "ex_ready c p s" "id_ready c p s" "halt_ready c p" "\<not> cpu_halted c"
    "regs_ok c2" "regs_ok cd" "wb_wf m" "cpu_pc c2 = cpu_pc c" "a_memory s = cpu_memory c2"
    "wb_latch (fst (rest_of_cycle c2 m p)) m = Inr cd" "arch_at (commit_pc c p) cd = s"
    "run_pipeline_cycle c p = Inr (rest_of_cycle c2 m p)"
  using assms unfolding mid_cycle_def refines_def by blast+

lemma idex_decoded:
  "ex_ready c p s \<Longrightarrow> idex_valid (id_ex p) \<Longrightarrow> \<exists>d. d = decode_instruction (idex_instruction (id_ex p))
     \<and> d_kind d \<noteq> K_Invalid \<and> latch_for d (id_ex p) \<and> d_control d = control_of (d_kind d)
     \<and> unat (d_rd d) < 32 \<and> unat (d_rs1 d) < 32 \<and> unat (d_rs2 d) < 32"
  by (simp add: ex_ready_def Let_def decode_fields)

lemma reads_sources:
  "fst (kind_uses (d_kind (decode_instruction i))) \<Longrightarrow> d_rs1 (decode_instruction i) \<noteq> 0 \<Longrightarrow>
     reads_register i (d_rs1 (decode_instruction i))"
  "snd (kind_uses (d_kind (decode_instruction i))) \<Longrightarrow> d_rs2 (decode_instruction i) \<noteq> 0 \<Longrightarrow>
     reads_register i (d_rs2 (decode_instruction i))"
  by (simp_all add: reads_register_uses decode_fields)

lemma mid_cycle_in_ex:
  assumes mid: "mid_cycle c p s c2 m cd" and v: "idex_valid (id_ex p)"
  shows "in_ex cd (decode_instruction (idex_instruction (id_ex p))) (id_ex p)
           (operand1 p) (operand2 p)"
proof -
  let ?i = "idex_instruction (id_ex p)" and ?r = "id_ex p"
  let ?d = "decode_instruction ?i"
  have ex: "ex_ready c p s" using mid by (simp add: mid_cycle_def refines_def)
  note e = ex_readyD(2,3,4,9)[OF ex v]
  have f: "unat (d_rd ?d) < 32" "unat (d_rs1 ?d) < 32" "unat (d_rs2 ?d) < 32"
    by (simp_all add: decode_fields)
  have fwd: "forwarded_value p q (reg_val c q) = reg_val cd q"
    if "unat q < 32" "q \<noteq> 0 \<Longrightarrow> reads_register ?i q" for q
    using mid that e(4) unfolding mid_cycle_def by blast
  have "operand1 p = reg_val cd (d_rs1 ?d)" if "fst (kind_uses (d_kind ?d))"
    using fwd[OF f(2) reads_sources(1)[OF that]] e(1,2)
    by (simp add: operand1_def latch_for_def)
  moreover have "operand2 p = reg_val cd (d_rs2 ?d)" if "snd (kind_uses (d_kind ?d))"
    using fwd[OF f(3) reads_sources(2)[OF that]] e(1,3)
    by (simp add: operand2_def latch_for_def)
  ultimately show ?thesis
    using mid e(1) f by (simp add: in_ex_def mid_cycle_def)
qed

text \<open>The target EX computes.\<close>

abbreviation ex_next :: "PipelineRegisters \<Rightarrow> u32" where
  "ex_next p \<equiv> ex_target (id_ex p) (operand1 p) (operand2 p)"

lemma mid_cycle_execute:
  assumes mid: "mid_cycle c p s c2 m cd" and v: "idex_valid (id_ex p)"
  shows "res_map (arch_at (ex_next p)) (finish cd (ex_out p)) = isa_step s"
proof -
  let ?i = "idex_instruction (id_ex p)"
  let ?d = "decode_instruction ?i"
  have r: "refines c p s" and s: "arch_at (commit_pc c p) cd = s"
    using mid by (simp_all add: mid_cycle_def)
  note e = ex_readyD(1,6,5)[OF mid_cycleD(2)[OF mid] v]
  have pc: "commit_pc c p = idex_pc (id_ex p)" using v by (simp add: commit_pc_def)
  then have spc: "a_pc s = idex_pc (id_ex p)" using s by auto
  have "executes cd ?d (id_ex p) (operand1 p) (operand2 p)"
    by (rule datapath_executes[OF mid_cycle_in_ex[OF mid v] e(1)]) (rule decode_control)
  moreover have "isa_step s = isa_execute ?d s"
    using e spc by (simp add: isa_step_fetch)
  ultimately show ?thesis
    using v s pc by (simp add: executes_def ex_out_def)
qed

section \<open>The back end\<close>

text \<open>
  \<open>moved p s t\<close>: the machine has executed the instruction in EX, if there is one.
\<close>

definition moved :: "PipelineRegisters \<Rightarrow> Arch \<Rightarrow> Arch \<Rightarrow> bool" where
  "moved p s t \<longleftrightarrow> (if idex_valid (id_ex p) then isa_step s = Inr t else t = s)"

lemma arch_at_move: "arch_at q cd = s \<Longrightarrow> arch_at q' cd = s\<lparr>a_pc := q'\<rparr>"
  by (auto simp: arch_at_def)

lemma mid_cycle_drain:
  assumes mid: "mid_cycle c p s c2 m cd" and m: "moved p s t"
  shows "res_map (arch_at q) (drain (fst (rest_of_cycle c2 m p)) (snd (rest_of_cycle c2 m p))) =
    Inr (t\<lparr>a_pc := q\<rparr>)"
proof (cases "idex_valid (id_ex p)")
  case True
  then have "res_map (arch_at (ex_next p)) (finish cd (ex_out p)) = Inr t"
    using mid_cycle_execute[OF mid] m by (simp add: moved_def)
  then obtain cd' where cd': "finish cd (ex_out p) = Inr cd'" "arch_at (ex_next p) cd' = t"
    by (auto simp: res_map_def res_bind_eq_Inr)
  then show ?thesis
    using arch_at_move[OF cd'(2), of q] by (simp add: drain_def mid_cycleD(11)[OF mid])
next
  case False
  then show ?thesis
    using m arch_at_move[OF mid_cycleD(12)[OF mid], of q]
    by (simp add: drain_def mid_cycleD(11)[OF mid] ex_out_def moved_def)
qed

lemma mid_cycle_pc:
  assumes mid: "mid_cycle c p s c2 m cd" and m: "moved p s t"
  shows "a_pc t = (if redirected p then ex_next p else front_pc c p)"
proof (cases "idex_valid (id_ex p)")
  case True
  note ex = ex_readyD(7,8)[OF mid_cycleD(2)[OF mid] True]
  have "res_map (arch_at (ex_next p)) (finish cd (ex_out p)) = Inr t"
    using mid_cycle_execute[OF mid] m True by (simp add: moved_def)
  then have "a_pc t = ex_next p"
    by (auto simp: res_map_def res_bind_eq_Inr)
  then show ?thesis
    using ex True
    by (auto simp: redirected_def ex_redirects_def ex_resolves_def ex_target_def)
next
  case False
  then show ?thesis
    using mid m by (auto simp: moved_def mid_cycle_def redirected_def commit_pc_def)
qed

lemma mid_cycle_halted:
  assumes mid: "mid_cycle c p s c2 m cd" and m: "moved p s t"
  shows "a_halted t \<longleftrightarrow> halt_is_in_flight p"
proof (cases "idex_valid (id_ex p)")
  case True
  let ?d = "decode_instruction (idex_instruction (id_ex p))"
  have r: "refines c p s" using mid by (simp add: mid_cycle_def)
  note ex = ex_readyD(6,2,5)[OF mid_cycleD(2)[OF mid] True]
  have "a_pc s = idex_pc (id_ex p)" using mid True by (auto simp: mid_cycle_def commit_pc_def)
  then have "isa_execute ?d s = Inr t" using m ex True by (simp add: moved_def isa_step_fetch)
  then have "a_halted t \<longleftrightarrow> halt_signal (idex_control (id_ex p))"
    using isa_execute_halted ex(1,2) by (simp add: latch_for_def decode_control)
  then show ?thesis
    using True refines_halted[OF r] ex(1) by (auto simp: halt_is_in_flight_def)
next
  case False
  then show ?thesis
    using refines_halted[of c p s] mid m
    by (auto simp: halt_is_in_flight_def moved_def mid_cycle_def)
qed

lemma mid_cycle_wf:
  assumes mid: "mid_cycle c p s c2 m cd"
  shows "mem_wf (ex_out p)"
proof (cases "idex_valid (id_ex p)")
  case True
  have "ex_ready c p s" using mid by (simp add: mid_cycle_def refines_def)
  from idex_decoded[OF this True] show ?thesis
    by (auto simp: ex_out_def mem_wf_def latch_for_def)
next
  case False
  then show ?thesis by (simp add: ex_out_def mem_wf_def)
qed

lemma mid_cycle_halt_ready:
  assumes mid: "mid_cycle c p s c2 m cd"
  shows "halt_ready (fst (rest_of_cycle c2 m p)) (snd (rest_of_cycle c2 m p))"
proof -
  have r: "refines c p s" using mid by (simp add: mid_cycle_def)
  have "idex_valid (id_ex p) \<Longrightarrow> \<not> a_halted s"
    using r by (simp add: refines_def ex_ready_def Let_def)
  moreover have "memwb_valid (mem_wb p) \<and> halt_signal (memwb_control (mem_wb p)) \<Longrightarrow>
      \<not> exmem_valid (ex_mem p)"
    using r by (simp add: refines_def halt_ready_def)
  ultimately show ?thesis
    using mid refines_halted[OF r]
    by (auto simp: halt_ready_def mid_cycle_def ex_out_def)
qed

section \<open>The front end\<close>

text \<open>Decode drops a word that is no instruction; the machine steps over it.\<close>

definition skipped :: "PipelineRegisters \<Rightarrow> bool" where
  "skipped p \<longleftrightarrow> \<not> redirected p \<and> \<not> stalled p \<and> ifid_valid (if_id p) \<and>
     d_kind (decode_instruction (ifid_instruction (if_id p))) = K_Invalid"

definition next_arch :: "PipelineRegisters \<Rightarrow> Arch \<Rightarrow> Arch" where
  "next_arch p t = (if skipped p then t\<lparr>a_pc := a_pc t + 4\<rparr> else t)"

lemma id_readyD:
  assumes "id_ready c p s" "ifid_valid (if_id p)"
  defines "d \<equiv> decode_instruction (ifid_instruction (if_id p))"
  shows "\<not> a_halted s" "ifid_predicted_next_pc (if_id p) = cpu_pc c"
    "\<not> branch (d_control d) \<longrightarrow> ifid_predicted_next_pc (if_id p) = ifid_pc (if_id p) + 4"
    "moved p s t \<Longrightarrow> a_pc t = ifid_pc (if_id p) \<Longrightarrow>
       isa_fetch (a_memory t) (ifid_pc (if_id p)) = Some (ifid_instruction (if_id p))"
  using assms(1,2) unfolding id_ready_def Let_def d_def moved_def by blast+

lemma stalledD:
  assumes "stalled p"
  shows "\<not> redirected p" "ifid_valid (if_id p)" "idex_valid (id_ex p)"
    "mem_read (idex_control (id_ex p))"
  using assms by (simp_all add: stalled_def stall_iff)

lemma no_halt_before_fetched:
  assumes mid: "mid_cycle c p s c2 m cd" and v: "ifid_valid (if_id p)"
  shows "\<not> halt_is_in_flight p"
proof -
  have "\<not> a_halted s" by (rule id_readyD(1)[OF mid_cycleD(3)[OF mid] v])
  moreover have "idex_valid (id_ex p) \<Longrightarrow> \<not> halt_signal (idex_control (id_ex p))"
    using ex_readyD(10)[OF mid_cycleD(2)[OF mid]] v by blast
  ultimately show ?thesis
    using refines_halted[OF mid_cycleD(1)[OF mid]] by (auto simp: halt_is_in_flight_def)
qed

lemma id_latch_simps:
  assumes "idex_valid (id_latch c r)"
  shows "ifid_valid r" "d_kind (decode_instruction (ifid_instruction r)) \<noteq> K_Invalid"
    "idex_pc (id_latch c r) = ifid_pc r" "idex_instruction (id_latch c r) = ifid_instruction r"
    "idex_predicted_next_pc (id_latch c r) = ifid_predicted_next_pc r"
    "idex_rs1_value (id_latch c r) = reg_val c (d_rs1 (decode_instruction (ifid_instruction r)))"
    "idex_rs2_value (id_latch c r) = reg_val c (d_rs2 (decode_instruction (ifid_instruction r)))"
    "latch_for (decode_instruction (ifid_instruction r)) (id_latch c r)"
  using assms
  by (auto simp: id_latch_def Let_def is_valid_instruction_def latch_for_def split: if_splits)

lemma id_latch_valid:
  "idex_valid (id_latch c r) \<longleftrightarrow>
     ifid_valid r \<and> d_kind (decode_instruction (ifid_instruction r)) \<noteq> K_Invalid"
  by (simp add: id_latch_def Let_def is_valid_instruction_def)

lemma id_out_valid:
  "idex_valid (id_out c p) \<longleftrightarrow> \<not> redirected p \<and> \<not> stalled p \<and> ifid_valid (if_id p) \<and>
     d_kind (decode_instruction (ifid_instruction (if_id p))) \<noteq> K_Invalid"
  by (simp add: id_out_def id_latch_valid)

lemma fetched_simps [simp]:
  "ifid_valid (fetched c i)" "ifid_pc (fetched c i) = cpu_pc c"
  "ifid_instruction (fetched c i) = i"
  "ifid_predicted_next_pc (fetched c i) = predicted_pc c (cpu_pc c) i"
  by (simp_all add: fetched_def Let_def)

lemma if_out_cases:
  obtains (stop) "fetch_stops c p" "if_out c p = (after_hazard c p, empty_IFID)"
  | (hold) "\<not> fetch_stops c p" "stalled p" "if_out c p = (after_hazard c p, if_id p)"
  | (past_end) "\<not> fetch_stops c p" "\<not> stalled p"
      "isa_fetch (cpu_memory c) (cpu_pc (after_hazard c p)) = None"
      "if_out c p = (after_hazard c p, empty_IFID)"
  | (fetch) i where "\<not> fetch_stops c p" "\<not> stalled p"
      "isa_fetch (cpu_memory c) (cpu_pc (after_hazard c p)) = Some i"
      "if_out c p = (set_pc (after_hazard c p)
         (predicted_pc (after_hazard c p) (cpu_pc (after_hazard c p)) i),
         fetched (after_hazard c p) i)"
  by (cases "fetch_stops c p"; cases "stalled p";
      cases "isa_fetch (cpu_memory c) (cpu_pc (after_hazard c p))")
    (auto simp: if_out_def if_latch_def)

lemma stalled_fetches:
  assumes mid: "mid_cycle c p s c2 m cd" and "stalled p"
  shows "\<not> fetch_stops c2 p"
  using no_halt_before_fetched[OF mid stalledD(2)[OF assms(2)]] assms(2)
  by (simp add: fetch_stops_def id_out_def)

lemma next_front_pc:
  assumes mid: "mid_cycle c p s c2 m cd"
  shows "front_pc (fst (rest_of_cycle c2 m p)) (snd (rest_of_cycle c2 m p)) =
    (if stalled p then ifid_pc (if_id p) else if redirected p then ex_next p else cpu_pc c)"
  using stalled_fetches[OF mid] mid_cycleD(9)[OF mid] stalledD(1,2)[of p]
  by (cases rule: if_out_cases[of c2 p]) (auto simp: front_pc_def)

lemma next_commit_pc:
  assumes mid: "mid_cycle c p s c2 m cd" and m: "moved p s t"
  shows "commit_pc (fst (rest_of_cycle c2 m p)) (snd (rest_of_cycle c2 m p)) =
    a_pc (next_arch p t)"
proof -
  have t: "a_pc t = (if redirected p then ex_next p else front_pc c p)"
    by (rule mid_cycle_pc[OF mid m])
  note front = next_front_pc[OF mid] and D = id_readyD[OF mid_cycleD(3)[OF mid]]
  consider "redirected p" | "stalled p" | "\<not> redirected p" "\<not> stalled p" by blast
  then show ?thesis
  proof cases
    case 1
    then show ?thesis
      using t front stalledD(1)[of p] by (auto simp: commit_pc_def id_out_def next_arch_def skipped_def)
  next
    case 2
    then show ?thesis
      using t front stalledD(1,2)[of p]
      by (auto simp: commit_pc_def id_out_def next_arch_def skipped_def front_pc_def[of c p])
  next
    case 3
    show ?thesis
    proof (cases "ifid_valid (if_id p)")
      case False
      then show ?thesis
        using 3 t front
        by (auto simp: commit_pc_def id_out_valid next_arch_def skipped_def front_pc_def[of c p])
    next
      case True
      show ?thesis
      proof (cases "skipped p")
        case True
        then have k: "ifid_valid (if_id p)" "\<not> idex_valid (id_out c2 p)"
          "\<not> branch (d_control (decode_instruction (ifid_instruction (if_id p))))"
          by (simp_all add: skipped_def id_out_valid decode_control signal_defs)
        then show ?thesis
          using 3 t front D(2,3)[OF k(1)] True
          by (simp add: commit_pc_def next_arch_def front_pc_def[of c p])
      next
        case False
        then have "idex_valid (id_out c2 p)" using 3 True by (simp add: skipped_def id_out_valid)
        moreover from this have "idex_pc (id_out c2 p) = ifid_pc (if_id p)"
          using 3 by (simp add: id_out_def id_latch_simps)
        ultimately show ?thesis
          using 3 t True False by (simp add: commit_pc_def next_arch_def front_pc_def)
      qed
    qed
  qed
qed

section \<open>The relation holds after the cycle\<close>

lemma skip_step:
  assumes mid: "mid_cycle c p s c2 m cd" and m: "moved p s t" and k: "skipped p"
  shows "isa_step t = Inr (next_arch p t)"
proof -
  have v: "ifid_valid (if_id p)" and kind: "\<not> redirected p"
    "d_kind (decode_instruction (ifid_instruction (if_id p))) = K_Invalid"
    using k by (simp_all add: skipped_def)
  have pc: "a_pc t = ifid_pc (if_id p)"
    using mid_cycle_pc[OF mid m] kind(1) v by (simp add: front_pc_def)
  have "isa_fetch (a_memory t) (a_pc t) = Some (ifid_instruction (if_id p))"
    using id_readyD(4)[OF mid_cycleD(3)[OF mid] v m pc] pc by simp
  moreover have "\<not> a_halted t"
    using mid_cycle_halted[OF mid m] no_halt_before_fetched[OF mid v] by simp
  ultimately show ?thesis
    using k kind(2) by (simp add: isa_step_skip next_arch_def)
qed

lemma isa_steps_1: "isa_steps 1 s = isa_step s"
proof -
  have "isa_steps 0 = Inr" by (rule ext) simp
  then show ?thesis by (simp only: One_nat_def isa_steps.simps res_bind_Inr_right)
qed

lemma next_steps:
  assumes mid: "mid_cycle c p s c2 m cd" and m: "moved p s t"
  shows "isa_steps (of_bool (idex_valid (id_ex p)) + of_bool (skipped p)) s = Inr (next_arch p t)"
  using skip_step[OF mid m] m
  by (cases "idex_valid (id_ex p)"; cases "skipped p")
    (simp_all add: moved_def next_arch_def numeral_2_eq_2)

lemma next_ex_ready:
  assumes mid: "mid_cycle c p s c2 m cd" and m: "moved p s t"
  shows "ex_ready (fst (rest_of_cycle c2 m p)) (snd (rest_of_cycle c2 m p)) (next_arch p t)"
proof (cases "idex_valid (id_out c2 p)")
  case False
  then show ?thesis by (simp add: ex_ready_def)
next
  case True
  let ?r = "id_out c2 p" and ?f = "if_id p"
  let ?i = "ifid_instruction ?f"
  let ?d = "decode_instruction ?i" and ?c = "fst (rest_of_cycle c2 m p)"
  have n: "\<not> redirected p" "\<not> stalled p" "ifid_valid ?f" "d_kind ?d \<noteq> K_Invalid"
    using True by (simp_all add: id_out_valid)
  then have next_t: "next_arch p t = t" by (simp add: next_arch_def skipped_def)
  have r: "?r = id_latch (after_hazard c2 p) ?f" using n by (simp add: id_out_def)
  note latch = id_latch_simps[OF True[unfolded r], folded r]
  note D = id_readyD[OF mid_cycleD(3)[OF mid] n(3)]
  have pc: "a_pc t = ifid_pc ?f"
    using mid_cycle_pc[OF mid m] n(1,3) by (simp add: front_pc_def)
  have word: "isa_fetch (a_memory t) (idex_pc ?r) = Some ?i"
    using D(4)[OF m pc] latch(3) by simp
  have running: "\<not> a_halted t"
    using mid_cycle_halted[OF mid m] no_halt_before_fetched[OF mid n(3)] by simp
  have front: "front_pc ?c (snd (rest_of_cycle c2 m p)) = cpu_pc c"
    using next_front_pc[OF mid] n by simp
  have straight: "\<not> ex_resolves ?r \<longrightarrow> idex_predicted_next_pc ?r = idex_pc ?r + 4"
    using D(3) latch by (simp add: ex_resolves_def latch_for_def)
  have load: "exmem_valid (ex_out p) \<and> mem_read (exmem_control (ex_out p)) \<longrightarrow>
      \<not> reads_register ?i (exmem_rd (ex_out p))"
  proof
    assume l: "exmem_valid (ex_out p) \<and> mem_read (exmem_control (ex_out p))"
    then have v: "idex_valid (id_ex p)" by (simp add: ex_out_def split: if_splits)
    with l have rd: "mem_read (idex_control (id_ex p))" "exmem_rd (ex_out p) = idex_rd (id_ex p)"
      by (simp_all add: ex_out_def)
    obtain k where "idex_control (id_ex p) = control_of k"
      using idex_decoded[OF mid_cycleD(2)[OF mid] v] by (auto simp: latch_for_def)
    then have "reg_write (idex_control (id_ex p))"
      using rd(1) control_of_memory(2) by simp
    then show "\<not> reads_register ?i (exmem_rd (ex_out p))"
      using n(1-3) v rd by (simp add: stalled_def stall_iff)
  qed
  have halt: "halt_signal (idex_control ?r) \<longrightarrow> \<not> ifid_valid (snd (if_out c2 p))"
    by (simp add: if_out_def fetch_stops_def)
  show ?thesis
    unfolding ex_ready_def Let_def
    using n(4) latch D(2) word running front straight load halt
    by (simp add: next_t)
qed

lemma next_id_ready:
  assumes mid: "mid_cycle c p s c2 m cd" and m: "moved p s t" and stable: "fetch_stable s"
  shows "id_ready (fst (rest_of_cycle c2 m p)) (snd (rest_of_cycle c2 m p)) (next_arch p t)"
proof (cases rule: if_out_cases[of c2 p])
  case stop
  then show ?thesis by (simp add: id_ready_def)
next
  case past_end
  then show ?thesis by (simp add: id_ready_def)
next
  case hold
  note st = stalledD[OF hold(2)] and out = hold(3)
  note D = id_readyD[OF mid_cycleD(3)[OF mid] st(2)]
  have nxt: "next_arch p t = t" using hold by (simp add: next_arch_def skipped_def)
  have "\<not> idex_valid (id_out c2 p)" using hold by (simp add: id_out_valid)
  moreover have "\<not> a_halted t"
    using mid_cycle_halted[OF mid m] no_halt_before_fetched[OF mid st(2)] by simp
  ultimately show ?thesis
    unfolding id_ready_def Let_def
    using D(2,3) D(4)[OF m] st(1) mid_cycleD(9)[OF mid] by (simp add: out nxt)
next
  case (fetch i)
  let ?n = "of_bool (idex_valid (id_ex p)) + of_bool (skipped p) :: nat"
  note out = fetch(4)
  have run: "\<not> a_halted (next_arch p t)"
    using fetch(1) mid_cycle_halted[OF mid m] by (simp add: fetch_stops_def next_arch_def)
  have word: "isa_fetch (a_memory s) (cpu_pc (after_hazard c2 p)) = Some i"
    using fetch(3) mid_cycleD(10)[OF mid] by simp
  have same: "isa_fetch (a_memory u) (a_pc u) = Some i"
    if "if idex_valid (id_out c2 p) then isa_step (next_arch p t) = Inr u else u = next_arch p t"
      and "a_pc u = cpu_pc (after_hazard c2 p)" for u
  proof -
    have "\<exists>n \<le> 2. isa_steps n s = Inr u"
    proof (cases "idex_valid (id_out c2 p)")
      case True
      then have k: "\<not> skipped p" by (simp add: id_out_valid skipped_def)
      have "isa_steps (?n + 1) s = isa_steps 1 (next_arch p t)"
        using isa_steps_add[of ?n 1 s] next_steps[OF mid m] by (simp only: res_bind_simps)
      then have "isa_steps (?n + 1) s = Inr u" using that True by (simp only: isa_steps_1 if_True)
      then show ?thesis using k by (intro exI[of _ "?n + 1"]) simp
    next
      case False
      then show ?thesis using next_steps[OF mid m] that by (intro exI[of _ ?n]) simp
    qed
    then show ?thesis using stable that(2) word by (auto simp: fetch_stable_def)
  qed
  show ?thesis
    unfolding id_ready_def Let_def
    using run same by (simp add: out predicted_pc_def set_pc_def)
qed

lemma refines_step:
  assumes mid: "mid_cycle c p s c2 m cd" and m: "moved p s t" and stable: "fetch_stable s"
  shows "refines (fst (rest_of_cycle c2 m p)) (snd (rest_of_cycle c2 m p)) (next_arch p t)"
proof -
  have "t\<lparr>a_pc := a_pc (next_arch p t)\<rparr> = next_arch p t"
    by (simp add: next_arch_def)
  then show ?thesis
    using mid_cycleD(6,8)[OF mid] mid_cycle_wf[OF mid] mid_cycle_halt_ready[OF mid]
      mid_cycle_drain[OF mid m] next_commit_pc[OF mid m] next_ex_ready[OF mid m]
      next_id_ready[OF mid m stable]
    by (simp add: refines_def)
qed

section \<open>A failing instruction\<close>

text \<open>
  An instruction whose memory access is out of bounds leaves EX unnoticed; the next cycle
  throws.
\<close>

lemma failing_memory:
  assumes mid: "mid_cycle c p s c2 m cd" and "idex_valid (id_ex p)" and "isa_step s = Inl e"
  shows "mem_latch cd (ex_out p) = Inl e"
proof -
  have f: "finish cd (ex_out p) = Inl e"
    using mid_cycle_execute[OF mid assms(2)] assms(3)
    by (auto simp: res_map_def res_bind_eq_Inl)
  show ?thesis
  proof (cases "mem_latch cd (ex_out p)")
    case (Inl e')
    then show ?thesis using f by (simp add: finish_def)
  next
    case (Inr cm)
    obtain c3 l where cm: "cm = (c3, l)" by (cases cm)
    then have "\<exists>c4. wb_latch c3 l = Inr c4"
      using Inr mem_latch_ok[OF mid_cycleD(7)[OF mid]] mem_latch_wf[OF mid_cycle_wf[OF mid]]
      by (intro wb_latch_total) blast+
    then show ?thesis using f Inr cm by (auto simp: finish_def)
  qed
qed

lemma failing_step:
  assumes mid: "mid_cycle c p s c2 m cd" and "idex_valid (id_ex p)" and "isa_step s = Inl e"
  shows "run_pipeline_cycle (fst (rest_of_cycle c2 m p)) (snd (rest_of_cycle c2 m p)) = Inl e"
proof -
  have "regs_ok (fst (rest_of_cycle c2 m p))" using mid_cycleD(6)[OF mid] by simp
  then show ?thesis
    using mid_cycleD(11)[OF mid] failing_memory[OF assms] by (simp add: run_pipeline_cycle_normal)
qed

section \<open>Progress\<close>

lemma distance_decreases:
  assumes mid: "mid_cycle c p s c2 m cd" and "\<not> idex_valid (id_ex p)" and "\<not> skipped p"
    and "isa_step s \<noteq> Inr s"
  shows "distance (snd (rest_of_cycle c2 m p)) < distance p"
proof -
  have nr: "\<not> redirected p" "\<not> stalled p"
    using assms(2) stalledD(3)[of p] by (auto simp: redirected_def)
  have m: "moved p s s" using assms(2) by (simp add: moved_def)
  show ?thesis
  proof (cases "ifid_valid (if_id p)")
    case True
    then have "idex_valid (id_out c2 p)"
      using nr assms(3) by (simp add: id_out_valid skipped_def)
    then show ?thesis using assms(2) True by (simp add: distance_def)
  next
    case False
    have running: "\<not> halt_is_in_flight p"
      using assms(4) mid_cycle_halted[OF mid m] by auto
    have "a_pc s = cpu_pc c"
      using mid_cycle_pc[OF mid m] nr False by (simp add: front_pc_def)
    moreover have "\<exists>i. isa_fetch (a_memory s) (a_pc s) = Some i"
      using assms(4) by (auto simp: isa_step_def split: if_splits option.splits)
    ultimately obtain i where "isa_fetch (cpu_memory c2) (cpu_pc (after_hazard c2 p)) = Some i"
      using nr mid_cycleD(9,10)[OF mid] by auto
    moreover have "\<not> idex_valid (id_out c2 p)" "id_out c2 p = empty_IDEX"
      using False nr by (simp_all add: id_out_valid id_out_def id_latch_def)
    then have "\<not> fetch_stops c2 p" using running by (simp add: fetch_stops_def)
    ultimately show ?thesis
      using nr False assms(2) \<open>\<not> idex_valid (id_out c2 p)\<close>
      by (simp add: distance_def if_out_def if_latch_def)
  qed
qed

end
