(* ===== verification/Lockstep.thy ===== *)
theory Lockstep
  imports Prelude
begin

text \<open>
  The interface between an implementation that works in cycles and a machine that works in
  whole instructions: a simulation in which one cycle performs a bounded number of instructions
  and in which a distance measures how long a cycle may perform none. What follows of it for
  whole runs is proved here once: results, errors and bounds on the number of cycles.
\<close>

section \<open>Iteration\<close>

primrec iterate :: "('a \<Rightarrow> 'a result) \<Rightarrow> nat \<Rightarrow> 'a \<Rightarrow> 'a result" where
  "iterate f 0 a = Inr a"
| "iterate f (Suc n) a = res_bind (f a) (iterate f n)"

lemma iterate_add: "iterate f (m + n) a = res_bind (iterate f m a) (iterate f n)"
  by (induction m arbitrary: a) (auto simp: res_bind_def split: sum.splits)

lemma iterate_fixed: "f a = Inr a \<Longrightarrow> iterate f n a = Inr a"
  by (induction n) simp_all

text \<open>A guarded loop of at most \<open>n\<close> passes.\<close>

primrec run_while :: "('c \<Rightarrow> bool) \<Rightarrow> ('c \<Rightarrow> 'c result) \<Rightarrow> nat \<Rightarrow> 'c \<Rightarrow> 'c result" where
  "run_while g f 0 c = Inr c"
| "run_while g f (Suc n) c = (if g c then res_bind (f c) (run_while g f n) else Inr c)"

lemma run_while_stopped: "\<not> g c \<Longrightarrow> run_while g f n c = Inr c"
  by (cases n) simp_all

lemma run_while_add:
  "run_while g f (m + n) c = res_bind (run_while g f m c) (run_while g f n)"
  by (induction m arbitrary: c) (auto simp: res_bind_def run_while_stopped split: sum.splits)

text \<open>What is left of a run to a fixed point, or of a failing run, after some steps.\<close>

lemma iterate_rest:
  assumes "iterate f n a = Inr z" "f z = Inr z" "iterate f k a = Inr b"
  shows "iterate f (n - k) b = Inr z"
proof (cases "k \<le> n")
  case True
  then have "iterate f n a = iterate f (n - k) b"
    using iterate_add[of f k "n - k" a] assms(3) by simp
  then show ?thesis using assms(1) by simp
next
  case False
  then have "iterate f k a = iterate f (k - n) z"
    using iterate_add[of f n "k - n" a] assms(1) by simp
  then show ?thesis using False assms(2,3) by (simp add: iterate_fixed)
qed

lemma iterate_rest_fails:
  assumes "iterate f n a = Inl e" "iterate f k a = Inr b"
  shows "k < n \<and> iterate f (n - k) b = Inl e"
proof (cases "k < n")
  case True
  then show ?thesis
    using iterate_add[of f k "n - k" a] assms by simp
next
  case False
  then show ?thesis
    using iterate_add[of f n "k - n" a] assms by simp
qed

section \<open>The interface\<close>

locale lockstep =
  fixes astep :: "'a \<Rightarrow> 'a result"
    and cstep :: "'c \<Rightarrow> 'c result"
    and rel :: "'c \<Rightarrow> 'a \<Rightarrow> bool"
    and running :: "'c \<Rightarrow> bool"
    and safe :: "'a \<Rightarrow> bool"
    and dist :: "'c \<Rightarrow> nat"
    and width :: nat
    and depth :: nat
  assumes safe_step: "safe a \<Longrightarrow> astep a = Inr b \<Longrightarrow> safe b"
    and simulate: "rel c a \<Longrightarrow> running c \<Longrightarrow> safe a \<Longrightarrow>
          (\<exists>c' n b. cstep c = Inr c' \<and> n \<le> width \<and> iterate astep n a = Inr b \<and> rel c' b \<and>
             (0 < n \<or> dist c' < dist c \<or> astep a = Inr a)) \<or>
          (\<exists>c' e. cstep c = Inr c' \<and> running c' \<and> astep a = Inl e \<and> cstep c' = Inl e)"
    and stopped: "rel c a \<Longrightarrow> \<not> running c \<Longrightarrow> astep a = Inr a"
    and dist_le: "dist c \<le> depth"
begin

lemma simulate_cases:
  assumes "rel c a" "running c" "safe a"
  obtains (go) c' n b where "cstep c = Inr c'" "n \<le> width" "iterate astep n a = Inr b" "rel c' b"
      "0 < n \<or> dist c' < dist c \<or> astep a = Inr a"
  | (fails) c' e where "cstep c = Inr c'" "running c'" "astep a = Inl e" "cstep c' = Inl e"
  using simulate[OF assms] by metis

lemma safe_iterate: "safe a \<Longrightarrow> iterate astep n a = Inr b \<Longrightarrow> safe b"
  by (induction n arbitrary: a) (auto simp: res_bind_eq_Inr dest: safe_step)

text \<open>
  Soundness: whatever the implementation has done after any number of cycles, the machine does,
  or it fails and so does the next cycle.
\<close>

lemma run_sound:
  assumes "rel c a" "safe a" "run_while running cstep n c = Inr c'"
  shows "(\<exists>m \<le> width * n. \<exists>b. iterate astep m a = Inr b \<and> rel c' b) \<or>
     (\<exists>m e. iterate astep m a = Inl e \<and> running c' \<and> cstep c' = Inl e)"
  using assms
proof (induction n arbitrary: c a)
  case 0
  then show ?case by auto
next
  case (Suc n)
  show ?case
  proof (cases "running c")
    case False
    with Suc.prems show ?thesis by (intro disjI1 exI[of _ 0]) auto
  next
    case True
    from Suc.prems(1) True Suc.prems(2) show ?thesis
    proof (cases rule: simulate_cases)
      case d: (go d k b)
      have "run_while running cstep n d = Inr c'" using Suc.prems(3) True d(1) by simp
      from Suc.IH[OF d(4) safe_iterate[OF Suc.prems(2) d(3)] this] show ?thesis
      proof (elim disjE exE conjE)
        fix m b' assume "m \<le> width * n" "iterate astep m b = Inr b'" "rel c' b'"
        then show ?thesis
          using d(2,3) iterate_add[of astep k m a]
          by (intro disjI1 exI[of _ "k + m"]) auto
      next
        fix m e assume "iterate astep m b = Inl e" "running c'" "cstep c' = Inl e"
        then show ?thesis
          using d(3) iterate_add[of astep k m a]
          by (intro disjI2 exI[of _ "k + m"]) auto
      qed
    next
      case d: (fails d e)
      then have "c' = d" using Suc.prems(3) True by (cases n) auto
      then show ?thesis using d by (intro disjI2 exI[of _ 1]) auto
    qed
  qed
qed

text \<open>An exception of the implementation is one of the machine.\<close>

lemma run_fails_sound:
  assumes "rel c a" "safe a" "run_while running cstep n c = Inl e"
  shows "\<exists>m. iterate astep m a = Inl e"
  using assms
proof (induction n arbitrary: c a)
  case 0
  then show ?case by simp
next
  case (Suc n)
  then have run: "running c" by (auto split: if_splits)
  from Suc.prems(1) run Suc.prems(2) show ?case
  proof (cases rule: simulate_cases)
    case d: (go d k b)
    have "run_while running cstep n d = Inl e" using Suc.prems(3) run d(1) by simp
    from Suc.IH[OF d(4) safe_iterate[OF Suc.prems(2) d(3)] this]
    obtain m where "iterate astep m b = Inl e" ..
    then have "iterate astep (k + m) a = Inl e" using d(3) by (simp add: iterate_add)
    then show ?thesis ..
  next
    case d: (fails d e')
    then have "e' = e" using Suc.prems(3) run by (cases n) auto
    then have "iterate astep 1 a = Inl e" using d(3) by simp
    then show ?thesis ..
  qed
qed

text \<open>
  Liveness: a machine run of \<open>n\<close> instructions to a state it stays in is matched by any
  sufficiently long run of the implementation.
\<close>

lemma run_reaches:
  assumes "rel c a" "safe a" "iterate astep n a = Inr z" "astep z = Inr z"
    and "n = 0 \<or> n * Suc depth + dist c \<le> N + depth"
  shows "\<exists>c'. run_while running cstep N c = Inr c' \<and> rel c' z"
  using assms
proof (induction N arbitrary: c a n)
  case 0
  then have "n = 0" by (cases n) auto
  then show ?case using 0 by auto
next
  case (Suc N)
  show ?case
  proof (cases "running c")
    case False
    then have "iterate astep n a = Inr a"
      using stopped[OF Suc.prems(1)] by (simp add: iterate_fixed)
    then show ?thesis using False Suc.prems(1,3) by simp
  next
    case True
    have fail: "astep a \<noteq> Inl e" for e
      using Suc.prems(3,4) by (cases n) auto
    with simulate[OF Suc.prems(1) True Suc.prems(2)]
    obtain d k b where d: "cstep c = Inr d" "iterate astep k a = Inr b" "rel d b"
      "0 < k \<or> dist d < dist c \<or> astep a = Inr a" by metis
    define n' where "n' = (if astep a = Inr a then 0 else n - k)"
    have rest: "iterate astep n' b = Inr z"
    proof (cases "astep a = Inr a")
      case True
      then show ?thesis using d(2) Suc.prems(3) by (simp add: n'_def iterate_fixed)
    next
      case False
      then show ?thesis
        using iterate_rest[OF Suc.prems(3,4) d(2)] by (simp add: n'_def)
    qed
    have "n' = 0 \<or> n' * Suc depth + dist d \<le> N + depth"
    proof (cases "n' = 0")
      case False
      then have ne: "astep a \<noteq> Inr a" "k < n" "n' = n - k" by (auto simp: n'_def split: if_splits)
      then have b: "n * Suc depth + dist c \<le> Suc N + depth" using Suc.prems(5) by auto
      show ?thesis
      proof (cases "k = 0")
        case True
        then show ?thesis using b d(4) ne by auto
      next
        case False
        then have "n' + 1 \<le> n" using ne by simp
        then have "(n' + 1) * Suc depth \<le> n * Suc depth" by (rule mult_le_mono1)
        then show ?thesis using b dist_le[of d] by simp
      qed
    qed simp
    from Suc.IH[OF d(3) safe_iterate[OF Suc.prems(2) d(2)] rest Suc.prems(4) this]
    show ?thesis using True d(1) by simp
  qed
qed

text \<open>
  An exception of the machine is one of the implementation, two cycles after a state that stands
  for the machine's state before the failing instruction.
\<close>

lemma run_fails_at:
  assumes "rel c a" "safe a" "iterate astep n a = Inl e"
    and "n * Suc depth + dist c + 1 \<le> N + depth"
  shows "\<exists>k d d' m b. k + 1 < N \<and> run_while running cstep k c = Inr d \<and> running d \<and> rel d b \<and>
    safe b \<and> m < n \<and> iterate astep m a = Inr b \<and> astep b = Inl e \<and>
    cstep d = Inr d' \<and> running d' \<and> cstep d' = Inl e"
  using assms
proof (induction N arbitrary: c a n)
  case 0
  then have "n = 0" by (cases n) auto
  then show ?case using 0 by simp
next
  case (Suc N)
  have n: "0 < n" using Suc.prems(3) by (cases n) auto
  have nf: "astep a \<noteq> Inr a" using Suc.prems(3) iterate_fixed[of astep a n] by auto
  then have run: "running c" using stopped[OF Suc.prems(1)] by auto
  from Suc.prems(1) run Suc.prems(2) show ?case
  proof (cases rule: simulate_cases)
    case d: (go d k b)
    then have p: "0 < k \<or> dist d < dist c" using nf by simp
    note rest = iterate_rest_fails[OF Suc.prems(3) d(3)]
    have "(n - k) * Suc depth + dist d + 1 \<le> N + depth"
    proof (cases "k = 0")
      case True
      then show ?thesis using Suc.prems(4) p by auto
    next
      case False
      then have "(n - k + 1) * Suc depth \<le> n * Suc depth"
        using n by (intro mult_le_mono1) simp
      then show ?thesis using Suc.prems(4) dist_le[of d] by simp
    qed
    from Suc.IH[OF d(4) safe_iterate[OF Suc.prems(2) d(3)] conjunct2[OF rest] this]
    obtain j g g' m b' where f: "j + 1 < N" "run_while running cstep j d = Inr g" "running g"
      "rel g b'" "safe b'" "m < n - k" "iterate astep m b = Inr b'" "astep b' = Inl e"
      "cstep g = Inr g'" "running g'" "cstep g' = Inl e" by blast
    have "run_while running cstep (Suc j) c = Inr g" using run d(1) f(2) by simp
    moreover have "iterate astep (k + m) a = Inr b'" using d(3) f(7) by (simp add: iterate_add)
    moreover have "k + m < n" "Suc j + 1 < Suc N" using f(1,6) by simp_all
    ultimately show ?thesis using f(3-5,8-11) by blast
  next
    case d: (fails d e')
    then have "e' = e" using Suc.prems(3) n by (cases n) auto
    moreover have "N \<noteq> 0"
      using Suc.prems(4) n by (cases n) auto
    ultimately show ?thesis
      using d run Suc.prems(1,2) n
      by (intro exI[of _ 0] exI[of _ c] exI[of _ d] exI[of _ 0] exI[of _ a]) simp
  qed
qed

lemma run_while_fails:
  assumes "run_while running cstep k c = Inr d" "running d" "cstep d = Inr d'" "running d'"
    and "cstep d' = Inl e" "k + 1 < N"
  shows "run_while running cstep N c = Inl e"
proof -
  have N: "N = k + Suc (Suc (N - k - 2))" using assms(6) by simp
  show ?thesis
    by (subst N, subst run_while_add) (simp add: assms(1-5))
qed

lemma run_fails:
  assumes "rel c a" "safe a" "iterate astep n a = Inl e"
    and "n * Suc depth + dist c + 1 \<le> N + depth"
  shows "run_while running cstep N c = Inl e"
  using run_fails_at[OF assms] run_while_fails by blast

end

section \<open>Halting\<close>

text \<open>
  When the machine is in a final state the implementation needs a bounded number of cycles more
  to notice.
\<close>

locale lockstep_halting = lockstep +
  fixes final :: "'a \<Rightarrow> bool"
    and lag :: "'c \<Rightarrow> nat"
    and last :: nat
  assumes final_fixed: "final a \<Longrightarrow> astep a = Inr a"
    and final_step: "rel c a \<Longrightarrow> final a \<Longrightarrow> running c \<Longrightarrow>
          \<exists>c'. cstep c = Inr c' \<and> rel c' a \<and> lag c' < lag c"
    and lag_le: "lag c \<le> last"
begin

lemma run_drains:
  "rel c a \<Longrightarrow> final a \<Longrightarrow> lag c \<le> N \<Longrightarrow>
   \<exists>c'. run_while running cstep N c = Inr c' \<and> rel c' a \<and> \<not> running c'"
proof (induction N arbitrary: c)
  case 0
  then show ?case using final_step[of c a] by auto
next
  case (Suc N)
  show ?case
  proof (cases "running c")
    case False
    then show ?thesis using Suc.prems by auto
  next
    case True
    then obtain d where "cstep c = Inr d" "rel d a" "lag d < lag c"
      using final_step Suc.prems by blast
    then show ?thesis using Suc.IH[of d] Suc.prems True by auto
  qed
qed

lemma run_halts:
  assumes "rel c a" "safe a" "iterate astep n a = Inr z" "final z"
    and "n * Suc depth + last \<le> N"
  shows "\<exists>c'. run_while running cstep N c = Inr c' \<and> rel c' z \<and> \<not> running c'"
proof -
  let ?M = "n * Suc depth"
  obtain d where d: "run_while running cstep ?M c = Inr d" "rel d z"
    using run_reaches[OF assms(1-3) final_fixed[OF assms(4)], of ?M] dist_le[of c] by auto
  have "lag d \<le> N - ?M" using lag_le[of d] assms(5) by simp
  from run_drains[OF d(2) assms(4) this] show ?thesis
    using d(1) assms(5) run_while_add[of running cstep ?M "N - ?M" c] by auto
qed

end

end
