(* ===== verification/Pipeline_Correct.thy ===== *)
theory Pipeline_Correct
  imports Pipeline_Step Lockstep
begin

text \<open>
  Whole runs of the pipeline: the simulation of one cycle provides the interface of theory
  \<open>Lockstep\<close>, and its conclusions, written out over the model, are the correctness of the
  simulator.
\<close>

unbundle bit_operations_syntax

section \<open>Runs\<close>

definition cycle :: "CPU \<times> PipelineRegisters \<Rightarrow> (CPU \<times> PipelineRegisters) result" where
  "cycle cp = run_pipeline_cycle (fst cp) (snd cp)"

definition not_halted :: "CPU \<times> PipelineRegisters \<Rightarrow> bool" where
  "not_halted cp \<longleftrightarrow> \<not> cpu_halted (fst cp)"

text \<open>At most \<open>n\<close> cycles, stopping when the CPU halts: the loop of \<open>main\<close> with its limit.\<close>

definition run_cycles ::
  "nat \<Rightarrow> CPU \<times> PipelineRegisters \<Rightarrow> (CPU \<times> PipelineRegisters) result" where
  "run_cycles = run_while not_halted cycle"

text \<open>
  The program does not overwrite instructions shortly before it executes them: at every state
  of the run, fetching up to two instructions ahead is harmless.
\<close>

definition code_stable :: "Arch \<Rightarrow> bool" where
  "code_stable s \<longleftrightarrow> (\<forall>n t. isa_steps n s = Inr t \<longrightarrow> fetch_stable t)"

definition halt_lag :: "CPU \<times> PipelineRegisters \<Rightarrow> nat" where
  "halt_lag cp =
     (if cpu_halted (fst cp) then 0
      else if memwb_valid (mem_wb (snd cp)) \<and> halt_signal (memwb_control (mem_wb (snd cp))) then 1
      else 2)"

lemma isa_steps_iterate: "isa_steps n s = iterate isa_step n s"
proof (induction n arbitrary: s)
  case (Suc n)
  then have "isa_steps n = iterate isa_step n" by (intro ext)
  then show ?case by simp
qed simp

section \<open>The interface\<close>

lemma code_stable_step: "code_stable s \<Longrightarrow> isa_step s = Inr t \<Longrightarrow> code_stable t"
  unfolding code_stable_def
proof (intro allI impI)
  fix n u
  assume "\<forall>n t. isa_steps n s = Inr t \<longrightarrow> fetch_stable t" "isa_step s = Inr t"
    "isa_steps n t = Inr u"
  then show "fetch_stable u" by (metis isa_steps.simps(2) res_bind_simps(2))
qed

lemma code_stable_now: "code_stable s \<Longrightarrow> fetch_stable s"
  unfolding code_stable_def by (metis isa_steps.simps(1))

lemma pipeline_simulates:
  assumes r: "refines (fst cp) (snd cp) s" and run: "not_halted cp" and safe: "code_stable s"
  shows "(\<exists>cp' n t. cycle cp = Inr cp' \<and> n \<le> 2 \<and> iterate isa_step n s = Inr t \<and>
             refines (fst cp') (snd cp') t \<and>
             (0 < n \<or> distance (snd cp') < distance (snd cp) \<or> isa_step s = Inr s)) \<or>
          (\<exists>cp' e. cycle cp = Inr cp' \<and> not_halted cp' \<and> isa_step s = Inl e \<and> cycle cp' = Inl e)"
proof -
  obtain c p where cp: "cp = (c, p)" by (cases cp)
  obtain c2 m cd where mid: "mid_cycle c p s c2 m cd"
    using mid_cycleI[of c p s] r run by (auto simp: cp not_halted_def)
  let ?cp = "rest_of_cycle c2 m p"
  have cyc: "cycle cp = Inr ?cp" using mid_cycleD(13)[OF mid] by (simp add: cp cycle_def)
  show ?thesis
  proof (cases "\<exists>e. idex_valid (id_ex p) \<and> isa_step s = Inl e")
    case True
    then obtain e where e: "idex_valid (id_ex p)" "isa_step s = Inl e" by blast
    have "\<not> a_halted s" by (rule ex_readyD(6)[OF mid_cycleD(2)[OF mid] e(1)])
    then have "not_halted ?cp"
      using mid refines_halted[OF mid_cycleD(1)[OF mid]] by (auto simp: not_halted_def mid_cycle_def)
    moreover have "cycle ?cp = Inl e" using failing_step[OF mid e] by (simp add: cycle_def)
    ultimately show ?thesis using cyc e(2) by blast
  next
    case False
    then have "\<exists>t. moved p s t"
      by (cases "idex_valid (id_ex p)"; cases "isa_step s") (auto simp: moved_def)
    then obtain t where m: "moved p s t" ..
    let ?n = "of_bool (idex_valid (id_ex p)) + of_bool (skipped p) :: nat"
    have steps: "iterate isa_step ?n s = Inr (next_arch p t)"
      using next_steps[OF mid m] by (simp only: isa_steps_iterate)
    have rel: "refines (fst ?cp) (snd ?cp) (next_arch p t)"
      by (rule refines_step[OF mid m code_stable_now[OF safe]])
    have prog: "0 < ?n \<or> distance (snd ?cp) < distance (snd cp) \<or> isa_step s = Inr s"
      using distance_decreases[OF mid] by (auto simp: cp)
    have "?n \<le> 2" by simp
    with cyc steps rel prog show ?thesis by blast
  qed
qed

text \<open>
  Exceptions are precise: a cycle that throws does so in MEM, after WB has brought the CPU into
  the machine's state before the failing instruction.
\<close>

lemma precise_exception:
  assumes r: "refines (fst cp) (snd cp) s" and run: "not_halted cp" and safe: "code_stable s"
    and cyc: "cycle cp = Inr cp'" and run': "not_halted cp'" and fail: "cycle cp' = Inl e"
  shows "\<exists>c1. stage_WB (fst cp') (snd cp') = Inr c1 \<and> arch_at (a_pc s) c1 = s \<and>
    stage_MEM c1 (snd cp') = Inl e"
proof -
  obtain c p where cp: "cp = (c, p)" by (cases cp)
  obtain c2 m cd where mid: "mid_cycle c p s c2 m cd"
    using mid_cycleI[of c p s] r run by (auto simp: cp not_halted_def)
  have cp': "cp' = rest_of_cycle c2 m p"
    using mid_cycleD(13)[OF mid] cyc by (simp add: cp cycle_def)
  show ?thesis
  proof (cases "\<exists>e. idex_valid (id_ex p) \<and> isa_step s = Inl e")
    case True
    then obtain e' where e': "idex_valid (id_ex p)" "isa_step s = Inl e'" by blast
    have "e' = e" using failing_step[OF mid e'] fail by (simp add: cp' cycle_def)
    then have "stage_MEM cd (snd cp') = Inl e"
      using failing_memory[OF mid e'] by (simp add: cp' stage_MEM_latch)
    moreover have "stage_WB (fst cp') (snd cp') = Inr cd"
      using mid_cycleD(11)[OF mid] by (simp add: cp' stage_WB_latch)
    moreover have "a_pc s = commit_pc c p" using mid_cycleD(12)[OF mid] by auto
    then have "arch_at (a_pc s) cd = s" using mid_cycleD(12)[OF mid] by simp
    ultimately show ?thesis by blast
  next
    case False
    then obtain t where "moved p s t"
      by (cases "idex_valid (id_ex p)"; cases "isa_step s") (auto simp: moved_def)
    from refines_step[OF mid this code_stable_now[OF safe]]
    have "refines (fst cp') (snd cp') (next_arch p t)" by (simp add: cp')
    then have "\<exists>cp''. cycle cp' = Inr cp''"
      using run' mid_cycleI mid_cycleD(13) by (fastforce simp: not_halted_def cycle_def)
    then show ?thesis using fail by auto
  qed
qed

lemma pipeline_drains:
  assumes r: "refines (fst cp) (snd cp) s" and h: "a_halted s" and run: "not_halted cp"
  shows "\<exists>cp'. cycle cp = Inr cp' \<and> refines (fst cp') (snd cp') s \<and> halt_lag cp' < halt_lag cp"
proof -
  obtain c p where cp: "cp = (c, p)" by (cases cp)
  obtain c2 m cd where mid: "mid_cycle c p s c2 m cd"
    using mid_cycleI[of c p s] r run by (auto simp: cp not_halted_def)
  let ?cp = "rest_of_cycle c2 m p"
  have cyc: "cycle cp = Inr ?cp" using mid_cycleD(13)[OF mid] by (simp add: cp cycle_def)
  have empty: "\<not> idex_valid (id_ex p)" "\<not> ifid_valid (if_id p)"
    using h ex_readyD(6)[OF mid_cycleD(2)[OF mid]] id_readyD(1)[OF mid_cycleD(3)[OF mid]] by blast+
  have m: "moved p s s" using empty by (simp add: moved_def)
  have fixed: "fetch_stable s"
  proof -
    have "isa_steps n s = Inr s" for n
      using h by (simp add: isa_steps_iterate iterate_fixed)
    then show ?thesis by (auto simp: fetch_stable_def)
  qed
  have "next_arch p s = s" using empty by (simp add: next_arch_def skipped_def)
  then have rel: "refines (fst ?cp) (snd ?cp) s" using refines_step[OF mid m fixed] by simp
  have "\<not> cpu_halted c" using run by (simp add: cp not_halted_def)
  then have "halt_lag ?cp < halt_lag cp"
    using mid h refines_halted[OF mid_cycleD(1)[OF mid]]
    by (auto simp: halt_lag_def cp mid_cycle_def)
  with cyc rel show ?thesis by blast
qed

lemma refines_stopped:
  assumes "refines c p s" "cpu_halted c"
  shows "a_halted s" "s = arch_at (cpu_pc c) c"
proof -
  show h: "a_halted s" using refines_halted[OF assms(1)] assms(2) by simp
  have e: "ex_ready c p s" "id_ready c p s" "halt_ready c p"
    "res_map (arch_at (commit_pc c p)) (drain c p) = Inr s"
    using assms(1) by (simp_all add: refines_def)
  have v: "\<not> idex_valid (id_ex p)" "\<not> ifid_valid (if_id p)"
    using h ex_readyD(6)[OF e(1)] id_readyD(1)[OF e(2)] by blast+
  have "\<not> exmem_valid (ex_mem p)" "\<not> memwb_valid (mem_wb p)"
    using e(3) assms(2) by (simp_all add: halt_ready_def)
  then show "s = arch_at (cpu_pc c) c"
    using e(4) v by (simp add: drain_def commit_pc_def front_pc_def)
qed

interpretation pipeline: lockstep_halting isa_step cycle
  "\<lambda>cp s. refines (fst cp) (snd cp) s" not_halted code_stable "\<lambda>cp. distance (snd cp)" 2 2
  a_halted halt_lag 2
proof
  fix cp s t
  show "code_stable s \<Longrightarrow> isa_step s = Inr t \<Longrightarrow> code_stable t" by (rule code_stable_step)
  show "refines (fst cp) (snd cp) s \<Longrightarrow> \<not> not_halted cp \<Longrightarrow> isa_step s = Inr s"
    using refines_stopped(1) by (simp add: not_halted_def)
  show "distance (snd cp) \<le> 2" by (simp add: distance_def)
  show "halt_lag cp \<le> 2" by (simp add: halt_lag_def)
  show "a_halted s \<Longrightarrow> isa_step s = Inr s" by simp
qed (rule pipeline_simulates pipeline_drains; assumption)+

section \<open>From an empty pipeline\<close>

lemma refines_start:
  "regs_ok c \<Longrightarrow> refines c empty_pipeline (arch_at (cpu_pc c) c)"
  by (simp add: refines_def empty_pipeline_def mem_wf_def wb_wf_def drain_def commit_pc_def
      front_pc_def ex_ready_def id_ready_def halt_ready_def)

definition start :: "CPU \<Rightarrow> CPU \<times> PipelineRegisters" where
  "start c = (c, empty_pipeline)"

definition arch_of :: "CPU \<Rightarrow> Arch" where
  "arch_of c = arch_at (cpu_pc c) c"

lemma run_sound_start:
  assumes "regs_ok c" "code_stable (arch_of c)" "run_cycles n (start c) = Inr cp"
  shows "(\<exists>m \<le> 2 * n. \<exists>s. isa_steps m (arch_of c) = Inr s \<and> refines (fst cp) (snd cp) s) \<or>
    (\<exists>m e. isa_steps m (arch_of c) = Inl e \<and> \<not> cpu_halted (fst cp) \<and> cycle cp = Inl e)"
  using pipeline.run_sound[of "start c" "arch_of c" n cp] refines_start[OF assms(1)] assms(2,3)
  by (simp add: start_def arch_of_def run_cycles_def isa_steps_iterate not_halted_def)

lemma run_halts_start:
  assumes "regs_ok c" "code_stable (arch_of c)" "isa_steps n (arch_of c) = Inr z" "a_halted z"
    and "3 * n + 2 \<le> N"
  shows "\<exists>c' p'. run_cycles N (start c) = Inr (c', p') \<and> cpu_halted c' \<and> arch_of c' = z"
proof -
  have "n * Suc 2 + 2 \<le> N" using assms(5) by simp
  from pipeline.run_halts[of "start c" "arch_of c" n z N, OF _ assms(2) _ assms(4) this]
  obtain cp where "run_cycles N (start c) = Inr cp" "refines (fst cp) (snd cp) z"
    "\<not> not_halted cp"
    using refines_start[OF assms(1)] assms(3)
    by (auto simp: start_def arch_of_def run_cycles_def isa_steps_iterate)
  then show ?thesis
    using refines_stopped(2)[of "fst cp" "snd cp" z]
    by (cases cp) (auto simp: not_halted_def arch_of_def)
qed

lemma run_halted_start:
  assumes "regs_ok c" "code_stable (arch_of c)" "run_cycles n (start c) = Inr (c', p')"
    "cpu_halted c'"
  shows "\<exists>m \<le> 2 * n. isa_steps m (arch_of c) = Inr (arch_of c') \<and> a_halted (arch_of c')"
  using run_sound_start[OF assms(1-3)] assms(4) refines_stopped[of c' p']
  by (auto simp: arch_of_def)

lemma run_fails_start:
  assumes "regs_ok c" "code_stable (arch_of c)" "isa_steps n (arch_of c) = Inl e"
    and "3 * n + 1 \<le> N"
  shows "run_cycles N (start c) = Inl e"
proof -
  have "n * Suc 2 + distance (snd (start c)) + 1 \<le> N + 2"
    using assms(4) by (simp add: distance_def)
  from pipeline.run_fails[of "start c" "arch_of c" n e N, OF _ assms(2) _ this]
  show ?thesis
    using refines_start[OF assms(1)] assms(3)
    by (simp add: start_def arch_of_def run_cycles_def isa_steps_iterate)
qed

lemma run_fails_precisely:
  assumes "regs_ok c" "code_stable (arch_of c)" "isa_steps n (arch_of c) = Inl e"
    and "3 * n + 1 \<le> N"
  shows "\<exists>k c' p' c1 m s. k < N \<and> run_cycles k (start c) = Inr (c', p') \<and>
    m < n \<and> isa_steps m (arch_of c) = Inr s \<and> isa_step s = Inl e \<and>
    stage_WB c' p' = Inr c1 \<and> arch_at (a_pc s) c1 = s \<and> stage_MEM c1 p' = Inl e"
proof -
  have "n * Suc 2 + distance (snd (start c)) + 1 \<le> N + 2"
    using assms(4) by (simp add: distance_def)
  from pipeline.run_fails_at[of "start c" "arch_of c" n e N, OF _ assms(2) _ this]
  obtain k d d' m s where f: "k + 1 < N" "run_while not_halted cycle k (start c) = Inr d"
    "not_halted d" "refines (fst d) (snd d) s" "code_stable s" "m < n"
    "isa_steps m (arch_of c) = Inr s" "isa_step s = Inl e" "cycle d = Inr d'" "not_halted d'"
    "cycle d' = Inl e"
    using refines_start[OF assms(1)] assms(3)
    by (auto simp: start_def arch_of_def isa_steps_iterate)
  have "run_cycles (k + 1) (start c) = Inr d'"
    unfolding run_cycles_def run_while_add f(2) using f(3,9) by simp
  moreover obtain c1 where "stage_WB (fst d') (snd d') = Inr c1" "arch_at (a_pc s) c1 = s"
    "stage_MEM c1 (snd d') = Inl e"
    using precise_exception[OF f(4,3,5,9-11)] by blast
  ultimately show ?thesis
    using f(1,6-8)
    by (intro exI[of _ "k + 1"] exI[of _ "fst d'"] exI[of _ "snd d'"] exI[of _ c1] exI[of _ m]
        exI[of _ s]) simp
qed

lemma run_fails_sound_start:
  assumes "regs_ok c" "code_stable (arch_of c)" "run_cycles n (start c) = Inl e"
  shows "\<exists>m. isa_steps m (arch_of c) = Inl e"
  using pipeline.run_fails_sound[of "start c" "arch_of c" n e] refines_start[OF assms(1)] assms(2,3)
  by (simp add: start_def arch_of_def run_cycles_def isa_steps_iterate)

section \<open>Determinism, operands and single instructions\<close>

lemma isa_halts_once:
  assumes "isa_steps m s = Inr t" "a_halted t" "isa_steps n s = Inr u" "a_halted u"
  shows "t = u"
proof -
  have "isa_steps (m + n) s = Inr t" "isa_steps (n + m) s = Inr u"
    using assms by (simp_all add: isa_steps_iterate iterate_add iterate_fixed)
  then show ?thesis by (simp add: add.commute)
qed

lemma refines_operands:
  assumes r: "refines c p s" and v: "idex_valid (id_ex p)"
  shows "a_pc s = idex_pc (id_ex p) \<and>
    (let d = decode_instruction (idex_instruction (id_ex p));
         operands = resolve_forwarding (id_ex p) p in
     (fst (kind_uses (d_kind d)) \<longrightarrow> fo_rs1_value operands = isa_get s (d_rs1 d)) \<and>
     (snd (kind_uses (d_kind d)) \<longrightarrow> fo_rs2_value operands = isa_get s (d_rs2 d)))"
proof -
  have "ex_ready c p s" using r by (simp add: refines_def)
  then have "\<not> a_halted s" using ex_readyD(6) v by blast
  then have "\<not> cpu_halted c" using refines_halted[OF r] by simp
  then obtain c2 m cd where mid: "mid_cycle c p s c2 m cd" using mid_cycleI r by blast
  let ?d = "decode_instruction (idex_instruction (id_ex p))"
  have s: "arch_at (idex_pc (id_ex p)) cd = s"
    using mid_cycleD(12)[OF mid] v by (simp add: commit_pc_def)
  have get: "isa_get s (d_rs1 ?d) = reg_val cd (d_rs1 ?d)" "isa_get s (d_rs2 ?d) = reg_val cd (d_rs2 ?d)"
    using mid_cycleD(7)[OF mid] s by (auto simp: decode_fields)
  have "a_pc s = idex_pc (id_ex p)" using s by auto
  then show ?thesis
    using mid_cycle_in_ex[OF mid v]
    by (simp add: in_ex_def operand1_def operand2_def resolve_forwarding_values get Let_def)
qed

lemma decoded_executes:
  assumes "regs_ok c" "ifid_valid f"
    and "is_valid_instruction (decode_instruction (ifid_instruction f))"
  defines "d \<equiv> decode_instruction (ifid_instruction f)"
  shows "res_map (arch_at (ex_target (id_latch c f) (reg_val c (d_rs1 d)) (reg_val c (d_rs2 d))))
      (finish c (ex_latch (id_latch c f) (reg_val c (d_rs1 d)) (reg_val c (d_rs2 d)))) =
    isa_execute d (arch_at (ifid_pc f) c)"
proof -
  have k: "d_kind d \<noteq> K_Invalid" using assms(3) by (simp add: d_def is_valid_instruction_def)
  then have v: "idex_valid (id_latch c f)" using assms(2) by (simp add: id_latch_valid d_def)
  have "in_ex c d (id_latch c f) (reg_val c (d_rs1 d)) (reg_val c (d_rs2 d))"
    using assms(1) id_latch_simps(8)[OF v] by (simp add: in_ex_def d_def decode_fields)
  from datapath_executes[OF this k] show ?thesis
    using id_latch_simps(3)[OF v] by (simp add: executes_def d_def decode_control)
qed

end
