(* ===== verification/Code_Stable.thy ===== *)
theory Code_Stable
  imports Pipeline_Correct
begin

text \<open>
  When a program is stable in the sense of the correctness theorems: a sufficient condition in
  terms of a code region no store reaches, and an executable check for programs that halt.
\<close>

section \<open>A code region\<close>

text \<open>
  Every instruction is fetched between \<open>lo\<close> and \<open>hi\<close>, and the bytes there never change.
\<close>

definition runs_within :: "nat \<Rightarrow> nat \<Rightarrow> Arch \<Rightarrow> bool" where
  "runs_within lo hi s \<longleftrightarrow> (\<forall>n t. isa_steps n s = Inr t \<longrightarrow>
     lo \<le> unat (a_pc t) \<and> unat (a_pc t) + 4 \<le> hi \<and> hi \<le> length (a_memory t) \<and>
     take (hi - lo) (drop lo (a_memory t)) = take (hi - lo) (drop lo (a_memory s)))"

lemma isa_fetch_region:
  assumes "lo \<le> unat pc" "unat pc + 4 \<le> hi" "hi \<le> length m" "hi \<le> length m'"
    and "take (hi - lo) (drop lo m) = take (hi - lo) (drop lo m')"
  shows "isa_fetch m pc = isa_fetch m' pc"
proof -
  have slice: "take 4 (drop (unat pc) xs) =
      take 4 (drop (unat pc - lo) (take (hi - lo) (drop lo xs)))" for xs :: "u8 list"
    using assms(1,2) by (simp add: drop_take min_def)
  show ?thesis
    unfolding isa_fetch_def slice[of m] slice[of m'] assms(5) using assms(2-4) by simp
qed

lemma runs_within_stable:
  assumes "runs_within lo hi s"
  shows "code_stable s"
  unfolding code_stable_def fetch_stable_def
proof (intro allI impI)
  fix n t k u
  assume t: "isa_steps n s = Inr t" and u: "isa_steps k t = Inr u"
  then have u': "isa_steps (n + k) s = Inr u" by (simp add: isa_steps_add)
  show "isa_fetch (a_memory u) (a_pc u) = isa_fetch (a_memory t) (a_pc u)"
    using assms[unfolded runs_within_def, rule_format, OF t]
      assms[unfolded runs_within_def, rule_format, OF u']
    by (intro isa_fetch_region[of lo _ hi]) simp_all
qed

text \<open>
  The pipeline on such a program: it follows the machine, and whatever it brings to EX is the
  word that was in memory at the start.
\<close>

lemma region_run:
  assumes "regs_ok c" "runs_within lo hi (arch_of c)" "run_cycles n (start c) = Inr (c', p')"
    and "run_pipeline_cycle c' p' = Inr cp"
  shows "\<exists>m \<le> 2 * n. \<exists>s. isa_steps m (arch_of c) = Inr s \<and>
    res_map (arch_at (commit_pc c' p')) (drain c' p') = Inr s \<and>
    (idex_valid (id_ex p') \<longrightarrow>
       isa_fetch (cpu_memory c) (idex_pc (id_ex p')) = Some (idex_instruction (id_ex p')))"
proof -
  obtain m s where m: "m \<le> 2 * n" "isa_steps m (arch_of c) = Inr s" "refines c' p' s"
    using run_sound_start[OF assms(1) runs_within_stable[OF assms(2)] assms(3)] assms(4)
    by (auto simp: cycle_def)
  have s: "res_map (arch_at (commit_pc c' p')) (drain c' p') = Inr s" "ex_ready c' p' s"
    using m(3) by (simp_all add: refines_def)
  have "isa_fetch (cpu_memory c) (idex_pc (id_ex p')) = Some (idex_instruction (id_ex p'))"
    if v: "idex_valid (id_ex p')"
  proof -
    have pc: "a_pc s = idex_pc (id_ex p')"
      using s(1) v by (auto simp: res_map_def res_bind_eq_Inr commit_pc_def)
    have "isa_fetch (a_memory (arch_of c)) (a_pc s) = isa_fetch (a_memory s) (a_pc s)"
      using assms(2)[unfolded runs_within_def, rule_format, OF m(2)]
        assms(2)[unfolded runs_within_def, rule_format, of 0 "arch_of c"]
      by (intro isa_fetch_region[of lo _ hi]) simp_all
    then show ?thesis
      using ex_readyD(5)[OF s(2) v] by (simp add: pc arch_of_def)
  qed
  then show ?thesis using m(1,2) s(1) by blast
qed

section \<open>A check by execution\<close>

definition fetch_kept :: "Arch \<Rightarrow> Arch \<Rightarrow> bool" where
  "fetch_kept s t \<longleftrightarrow> isa_fetch (a_memory t) (a_pc t) = isa_fetch (a_memory s) (a_pc t)"

definition stable_now :: "Arch \<Rightarrow> bool" where
  "stable_now s = (case isa_step s of Inl e \<Rightarrow> True
     | Inr t \<Rightarrow> fetch_kept s t \<and> (case isa_step t of Inl e \<Rightarrow> True | Inr u \<Rightarrow> fetch_kept s u))"

primrec stable_run :: "nat \<Rightarrow> Arch \<Rightarrow> bool" where
  "stable_run 0 s = a_halted s"
| "stable_run (Suc n) s \<longleftrightarrow> stable_now s \<and>
     (case isa_step s of Inl e \<Rightarrow> True | Inr t \<Rightarrow> stable_run n t)"

lemma stable_now_fetch: "stable_now s \<Longrightarrow> fetch_stable s"
  unfolding fetch_stable_def
proof (intro allI impI)
  fix n :: nat and t
  assume a: "stable_now s" "n \<le> 2" "isa_steps n s = Inr t"
  consider "n = 0" | "n = Suc 0" | "n = Suc (Suc 0)" using a(2) by linarith
  then show "isa_fetch (a_memory t) (a_pc t) = isa_fetch (a_memory s) (a_pc t)"
    using a by cases (auto simp: stable_now_def fetch_kept_def res_bind_eq_Inr)
qed

lemma halted_stable: "a_halted s \<Longrightarrow> code_stable s"
  by (auto simp: code_stable_def fetch_stable_def isa_steps_iterate iterate_fixed)

lemma stable_run_stable: "stable_run n s \<Longrightarrow> code_stable s"
proof (induction n arbitrary: s)
  case 0
  then show ?case by (simp add: halted_stable)
next
  case (Suc n)
  show ?case
    unfolding code_stable_def
  proof (intro allI impI)
    fix k t
    assume k: "isa_steps k s = Inr t"
    show "fetch_stable t"
    proof (cases k)
      case 0
      then show ?thesis using Suc.prems k by (simp add: stable_now_fetch)
    next
      case (Suc j)
      then obtain u where "isa_step s = Inr u" "isa_steps j u = Inr t"
        using k by (auto simp: res_bind_eq_Inr)
      then show ?thesis
        using Suc.IH[of u] Suc.prems unfolding code_stable_def by auto
    qed
  qed
qed

end
