(* ===== verification/Cycle_Effects.thy ===== *)
theory Cycle_Effects
  imports Pipeline_Correct
begin

text \<open>
  What one cycle does to the parts of the state the machine does not have: the statistics, the
  predictor, the program counter and the latches when the pipeline stalls or recovers from a
  wrong prediction. And the invariants of the CPU that every cycle keeps.
\<close>

unbundle bit_operations_syntax

section \<open>Statistics\<close>

text \<open>
  The statistics after a cycle: one clock tick, one instruction if one is in writeback, one
  stall if decode has to wait, one prediction per branch in EX, wrong if it redirects.
\<close>

definition counted :: "PipelineRegisters \<Rightarrow> ExecutionStats \<Rightarrow> ExecutionStats" where
  "counted p st =
     \<lparr>clock_cycles = clock_cycles st + 1,
      instruction_count = instruction_count st + of_bool (memwb_valid (mem_wb p)),
      stall_cycles = stall_cycles st + of_bool (stalled p),
      branch_predictions = branch_predictions st +
        of_bool (idex_valid (id_ex p) \<and> branch (idex_control (id_ex p))),
      branch_mispredictions = branch_mispredictions st +
        of_bool (redirected p \<and> branch (idex_control (id_ex p)))\<rparr>"

lemma wb_latch_stats:
  "wb_latch c r = Inr c' \<Longrightarrow> cpu_stats c' = (cpu_stats c)\<lparr>instruction_count :=
     instruction_count (cpu_stats c) + of_bool (memwb_valid r)\<rparr>"
  by (auto simp: wb_latch_def stage_WB_def Let_def res_bind_eq_Inr write_reg_def halt_def
      validate_register_index_def count_instruction_def split: if_splits)

lemma wb_latch_kept:
  "wb_latch c r = Inr c' \<Longrightarrow> cpu_predictor c' = cpu_predictor c \<and> cpu_config c' = cpu_config c \<and>
     cpu_memory_writes c' = cpu_memory_writes c \<and> cpu_memory c' = cpu_memory c"
  by (auto simp: wb_latch_def stage_WB_def Let_def res_bind_eq_Inr write_reg_def halt_def
      validate_register_index_def count_instruction_def split: if_splits)

lemma write_memory_kept:
  "write_memory c a v k = Inr c' \<Longrightarrow> cpu_stats c' = cpu_stats c \<and> cpu_config c' = cpu_config c \<and>
     cpu_predictor c' = cpu_predictor c \<and> length (cpu_memory c') = length (cpu_memory c)"
  by (auto simp: write_memory_def write_u8_def write_u16_def write_u32_def Let_def
      res_bind_eq_Inr set_byte_def record_memory_write_def split: MemoryAccessWidth.splits)

lemma mem_latch_kept:
  "mem_latch c r = Inr (c', l) \<Longrightarrow> cpu_stats c' = cpu_stats c \<and> cpu_config c' = cpu_config c \<and>
     cpu_predictor c' = cpu_predictor c \<and> length (cpu_memory c') = length (cpu_memory c)"
  by (cases "exmem_valid r")
    (auto simp: mem_latch_valid res_bind_eq_Inr dest: write_memory_kept split: if_splits)

lemma if_out_stats:
  "cpu_stats (fst (if_out c p)) = cpu_stats (after_hazard c p)"
  "cpu_predictor (fst (if_out c p)) = cpu_predictor (after_hazard c p)"
  "cpu_config (fst (if_out c p)) = cpu_config c" "cpu_regs (fst (if_out c p)) = cpu_regs c"
  "cpu_memory (fst (if_out c p)) = cpu_memory c"
  by (simp_all add: if_out_def if_latch_def set_pc_def split: option.splits)

lemma after_hazard_stats:
  "cpu_stats (after_hazard c p) = (cpu_stats c)
     \<lparr>stall_cycles := stall_cycles (cpu_stats c) + of_bool (stalled p),
      branch_predictions := branch_predictions (cpu_stats c) +
        of_bool (idex_valid (id_ex p) \<and> branch (idex_control (id_ex p))),
      branch_mispredictions := branch_mispredictions (cpu_stats c) +
        of_bool (redirected p \<and> branch (idex_control (id_ex p)))\<rparr>"
  by (auto simp: after_hazard_def after_EX_def count_stall_def ex_cpu_def Let_def
      count_branch_def count_mispredict_def update_branch_predictor_def set_pc_def redirected_def)

lemma after_hazard_predictor:
  "cpu_predictor (after_hazard c p) =
     (if idex_valid (id_ex p) \<and> branch (idex_control (id_ex p))
      then update_predictor (cpu_predictor c) (idex_pc (id_ex p))
             (ex_taken (id_ex p) (operand1 p) (operand2 p)) (branch_predictor_type (cpu_config c))
      else cpu_predictor c)"
  by (simp add: after_hazard_def after_EX_def ex_cpu_def Let_def count_branch_def
      count_mispredict_def update_branch_predictor_def set_pc_def)

lemma cycleE:
  assumes "regs_ok c" "run_pipeline_cycle c p = Inr cp"
  obtains c1 c2 m where "wb_latch c (mem_wb p) = Inr c1" "mem_latch c1 (ex_mem p) = Inr (c2, m)"
    "cp = rest_of_cycle c2 m p"
  using assms by (auto simp: run_pipeline_cycle_normal res_bind_eq_Inr)

lemma cycle_counted:
  assumes "regs_ok c" "run_pipeline_cycle c p = Inr (c', p')"
  shows "cpu_stats c' = counted p (cpu_stats c)"
proof -
  obtain c1 c2 m where f: "wb_latch c (mem_wb p) = Inr c1" "mem_latch c1 (ex_mem p) = Inr (c2, m)"
    "(c', p') = rest_of_cycle c2 m p"
    by (rule cycleE[OF assms])
  have "cpu_stats c' = (cpu_stats (fst (if_out c2 p)))
      \<lparr>clock_cycles := clock_cycles (cpu_stats (fst (if_out c2 p))) + 1\<rparr>"
    using f(3) by (simp add: rest_of_cycle_def tick_def)
  then show ?thesis
    using wb_latch_stats[OF f(1)] mem_latch_kept[OF f(2)]
    by (simp add: if_out_stats after_hazard_stats counted_def)
qed

section \<open>Invariants of the CPU\<close>

text \<open>Every recorded write lies in memory.\<close>

definition writes_ok :: "CPU \<Rightarrow> bool" where
  "writes_ok c \<longleftrightarrow> (\<forall>w \<in> set (cpu_memory_writes c).
     unat (mw_address w) + unat (mw_byte_count w) \<le> length (cpu_memory c))"

lemma write_memory_writes_ok:
  assumes "regs_ok c" "writes_ok c" "write_memory c a v k = Inr c'"
  shows "writes_ok c'"
proof -
  have len: "length (cpu_memory c) \<le> 2 ^ 32" using assms(1) by (simp add: regs_ok_def)
  have go: "writes_ok (set_memory c a bs)"
    if "unat a + length bs \<le> length (cpu_memory c)" "length bs < 2 ^ 32" for bs
    using that assms(2) by (auto simp: writes_ok_def unsigned_of_nat take_bit_nat_eq_self)
  show ?thesis
  proof (cases "memory_width k")
    case MW_None
    then show ?thesis using assms by (simp add: write_memory_def)
  next
    case MW_Byte
    then show ?thesis using assms(3) write_in(1)[OF len, of a] access_out(4)[of c a]
        go[of "le_bytes 1 (ucast (v AND 0xFF) :: u8)"]
      by (cases "unat a + 1 \<le> length (cpu_memory c)") (auto simp: write_memory_def not_le)
  next
    case MW_HalfWord
    then show ?thesis using assms(3) write_in(2)[OF len, of a] access_out(5)[of c a]
        go[of "le_bytes 2 (ucast (v AND 0xFFFF) :: u16)"]
      by (cases "unat a + 2 \<le> length (cpu_memory c)") (auto simp: write_memory_def not_le)
  next
    case MW_Word
    then show ?thesis using assms(3) write_in(3)[OF len, of a] access_out(6)[of c a]
        go[of "le_bytes 4 v"]
      by (cases "unat a + 4 \<le> length (cpu_memory c)") (auto simp: write_memory_def not_le)
  qed
qed

lemma wb_latch_writes_ok: "wb_latch c r = Inr c' \<Longrightarrow> writes_ok c \<Longrightarrow> writes_ok c'"
  by (drule wb_latch_kept) (simp add: writes_ok_def)

lemma mem_latch_writes_ok:
  "regs_ok c \<Longrightarrow> writes_ok c \<Longrightarrow> mem_latch c r = Inr (c', l) \<Longrightarrow> writes_ok c'"
  by (cases "exmem_valid r")
    (auto simp: mem_latch_valid res_bind_eq_Inr write_memory_writes_ok split: if_splits)

lemma after_EX_writes: "cpu_memory_writes (after_hazard c p) = cpu_memory_writes c"
  using after_hazard_simps(4)[of 0 c p] by (simp add: arch_at_def)

lemma if_out_writes: "cpu_memory_writes (fst (if_out c p)) = cpu_memory_writes c"
  by (simp add: if_out_def if_latch_def set_pc_def after_EX_writes split: option.splits)

lemma cpu_ok_regs_ok: "cpu_ok c \<Longrightarrow> regs_ok c"
  by (simp add: cpu_ok_def regs_ok_def)

lemma cycle_invariants:
  assumes "cpu_ok c" "writes_ok c" "run_pipeline_cycle c p = Inr (c', p')"
  shows "cpu_ok c' \<and> writes_ok c' \<and> cpu_config c' = cpu_config c \<and>
     length (cpu_memory c') = length (cpu_memory c)"
proof -
  have ok: "regs_ok c" using assms(1) by (rule cpu_ok_regs_ok)
  obtain c1 c2 m where f: "wb_latch c (mem_wb p) = Inr c1" "mem_latch c1 (ex_mem p) = Inr (c2, m)"
    "(c', p') = rest_of_cycle c2 m p"
    by (rule cycleE[OF ok assms(3)])
  have ok1: "regs_ok c1" using ok f(1) by (rule wb_latch_ok)
  have ok2: "regs_ok c2" using ok1 f(2) by (rule mem_latch_ok)
  have w2: "writes_ok c2"
    using mem_latch_writes_ok[OF ok1 wb_latch_writes_ok[OF f(1) assms(2)] f(2)] .
  have k: "cpu_predictor c2 = cpu_predictor c" "cpu_config c2 = cpu_config c"
    "length (cpu_memory c2) = length (cpu_memory c)"
    using wb_latch_kept[OF f(1)] mem_latch_kept[OF f(2)] by auto
  have c': "c' = tick (fst (if_out c2 p))" using f(3) by (simp add: rest_of_cycle_def)
  have "predictor_ok (cpu_predictor c')"
    using assms(1) k(1)
    by (simp add: c' tick_def if_out_stats after_hazard_predictor cpu_ok_def update_bounded)
  then show ?thesis
    using ok2 w2 k
    by (simp add: c' tick_def cpu_ok_def regs_ok_def writes_ok_def if_out_stats if_out_writes)
qed

lemma run_invariants:
  "cpu_ok (fst cp) \<Longrightarrow> writes_ok (fst cp) \<Longrightarrow> run_cycles n cp = Inr cp' \<Longrightarrow>
   cpu_ok (fst cp') \<and> writes_ok (fst cp') \<and> cpu_config (fst cp') = cpu_config (fst cp) \<and>
   length (cpu_memory (fst cp')) = length (cpu_memory (fst cp))"
  unfolding run_cycles_def
proof (induction n arbitrary: cp)
  case 0
  then show ?case by simp
next
  case (Suc n)
  show ?case
  proof (cases "not_halted cp")
    case False
    then show ?thesis using Suc.prems by simp
  next
    case True
    then obtain cp1 where c: "cycle cp = Inr cp1" "run_while not_halted cycle n cp1 = Inr cp'"
      using Suc.prems(3) by (auto simp: res_bind_eq_Inr)
    have "run_pipeline_cycle (fst cp) (snd cp) = Inr (fst cp1, snd cp1)"
      using c(1) by (simp add: cycle_def)
    from cycle_invariants[OF Suc.prems(1,2) this] Suc.IH[OF _ _ c(2)] show ?thesis by simp
  qed
qed

section \<open>Stalls and recovery\<close>

lemma cycle_stalls:
  assumes "regs_ok c" "run_pipeline_cycle c p = Inr (c', p')" "stalled p"
    and "\<not> halt_is_in_flight p"
  shows "cpu_pc c' = cpu_pc c \<and> if_id p' = if_id p \<and> id_ex p' = empty_IDEX"
proof -
  obtain c1 c2 m where f: "wb_latch c (mem_wb p) = Inr c1" "mem_latch c1 (ex_mem p) = Inr (c2, m)"
    "(c', p') = rest_of_cycle c2 m p"
    by (rule cycleE[OF assms(1,2)])
  have "\<not> redirected p" using assms(3) by (simp add: stalled_def)
  moreover have "cpu_pc c2 = cpu_pc c"
  proof -
    have "cpu_pc c1 = cpu_pc c"
      using f(1) by (auto simp: wb_latch_def stage_WB_def Let_def res_bind_eq_Inr write_reg_def
          halt_def validate_register_index_def count_instruction_def split: if_splits)
    moreover have "cpu_pc c2 = cpu_pc c1"
      using f(2)
      by (cases "exmem_valid (ex_mem p)")
        (auto simp: mem_latch_valid res_bind_eq_Inr write_memory_def write_u8_def write_u16_def
          write_u32_def Let_def set_byte_def record_memory_write_def
          split: if_splits MemoryAccessWidth.splits)
    ultimately show ?thesis by simp
  qed
  ultimately show ?thesis
    using f(3) assms(3,4)
    by (simp add: rest_of_cycle_def if_out_def fetch_stops_def id_out_def tick_def)
qed

lemma cycle_redirects:
  assumes "regs_ok c" "run_pipeline_cycle c p = Inr (c', p')" "redirected p"
    and "\<not> halt_is_in_flight p"
  defines "target \<equiv> ex_target (id_ex p) (operand1 p) (operand2 p)"
  shows "id_ex p' = empty_IDEX \<and>
    (case isa_fetch (cpu_memory c') target of
       None \<Rightarrow> cpu_pc c' = target \<and> if_id p' = empty_IFID
     | Some i \<Rightarrow> ifid_valid (if_id p') \<and> ifid_pc (if_id p') = target \<and>
         ifid_instruction (if_id p') = i \<and> ifid_predicted_next_pc (if_id p') = cpu_pc c')"
proof -
  obtain c1 c2 m where f: "wb_latch c (mem_wb p) = Inr c1" "mem_latch c1 (ex_mem p) = Inr (c2, m)"
    "(c', p') = rest_of_cycle c2 m p"
    by (rule cycleE[OF assms(1,2)])
  have "\<not> stalled p" using assms(3) by (simp add: stalled_def)
  then show ?thesis
    using f(3) assms(3,4)
    by (auto simp: rest_of_cycle_def if_out_def fetch_stops_def id_out_def tick_def if_latch_def
        fetched_def set_pc_def Let_def target_def split: option.splits)
qed

text \<open>A wrongly predicted branch, with its operands written out.\<close>

lemma cycle_predictor:
  assumes "regs_ok c" "run_pipeline_cycle c p = Inr (c', p')"
  shows "cpu_predictor c' =
     (if idex_valid (id_ex p) \<and> branch (idex_control (id_ex p))
      then update_predictor (cpu_predictor c) (idex_pc (id_ex p))
             (ex_taken (id_ex p) (operand1 p) (operand2 p)) (branch_predictor_type (cpu_config c))
      else cpu_predictor c)"
proof -
  obtain c1 c2 m where f: "wb_latch c (mem_wb p) = Inr c1" "mem_latch c1 (ex_mem p) = Inr (c2, m)"
    "(c', p') = rest_of_cycle c2 m p"
    by (rule cycleE[OF assms])
  then have "c' = tick (fst (if_out c2 p))" by (simp add: rest_of_cycle_def)
  then show ?thesis
    using wb_latch_kept[OF f(1)] mem_latch_kept[OF f(2)]
    by (simp add: tick_def if_out_stats after_hazard_predictor)
qed

lemma branch_recovery:
  assumes ok: "regs_ok c" "run_pipeline_cycle c p = Inr (c', p')" "\<not> halt_is_in_flight p"
    and v: "idex_valid (id_ex p)" "branch (idex_control (id_ex p))"
  defines "taken \<equiv> evaluate_branch (branch_condition (idex_control (id_ex p)))
      (forwarded_value p (idex_rs1 (id_ex p)) (idex_rs1_value (id_ex p)))
      (forwarded_value p (idex_rs2 (id_ex p)) (idex_rs2_value (id_ex p)))"
  defines "target \<equiv> (if taken then idex_pc (id_ex p) + idex_immediate (id_ex p)
      else idex_pc (id_ex p) + 4)"
  assumes miss: "idex_predicted_next_pc (id_ex p) \<noteq> target"
  shows "id_ex p' = empty_IDEX \<and>
    (if ifid_valid (if_id p') then ifid_pc (if_id p') = target else cpu_pc c' = target) \<and>
    cpu_predictor c' = update_predictor (cpu_predictor c) (idex_pc (id_ex p)) taken
      (branch_predictor_type (cpu_config c)) \<and>
    branch_mispredictions (cpu_stats c') = branch_mispredictions (cpu_stats c) + 1"
proof -
  have t: "ex_taken (id_ex p) (operand1 p) (operand2 p) = taken"
    by (simp add: ex_taken_def operand1_def operand2_def taken_def)
  have tgt: "ex_target (id_ex p) (operand1 p) (operand2 p) = target"
    using v by (simp add: ex_target_def t target_def)
  have r: "redirected p"
    using v miss by (simp add: redirected_def ex_redirects_def ex_resolves_def tgt)
  show ?thesis
    using cycle_redirects[OF ok(1,2) r ok(3)] cycle_predictor[OF ok(1,2)] cycle_counted[OF ok(1,2)]
      v r
    by (auto simp: tgt t counted_def empty_IFID_def split: option.splits)
qed

lemma first_cycle:
  assumes "regs_ok c"
  shows "\<exists>cp. run_pipeline_cycle c empty_pipeline = Inr cp"
  using assms by (simp add: run_pipeline_cycle_normal empty_pipeline_def)

lemma control_of_load:
  "mem_read (control_of k) \<and> reg_write (control_of k) \<longleftrightarrow> k \<in> {K_Lb, K_Lh, K_Lw, K_Lbu, K_Lhu}"
  by (cases k) (simp_all add: signal_defs load_control_def store_control_def)

end
