(* ===== verification/Examples.thy ===== *)
theory Examples
  imports Encoder Code_Stable Cycle_Effects
begin

text \<open>
  Small programs on which the properties are shown to apply: a countdown loop, a program with a
  load-use hazard, one that loads from outside of memory and one that overwrites its own next
  instruction.
\<close>

definition loaded :: "u8 list \<Rightarrow> BranchPredictorType \<Rightarrow> CPU" where
  "loaded img ty =
     (case load_program (new_CPU 32 (default_Config\<lparr>branch_predictor_type := ty\<rparr>)) img 0 of
        Inl e \<Rightarrow> new_CPU 32 default_Config | Inr c \<Rightarrow> c)"

definition words :: "u32 list \<Rightarrow> u8 list" where
  "words ws = concat (map (le_bytes 4) ws)"

text \<open>\<open>addi x1, x0, 2; loop: addi x1, x1, -1; bne x1, x0, loop; ecall\<close>\<close>

definition countdown :: "u8 list" where
  "countdown = words [0x00200093, 0xFFF08093, 0xFE009EE3, 0x00000073]"

text \<open>\<open>lw x1, 0(x0); add x2, x1, x1; ecall\<close>\<close>

definition load_use :: "u8 list" where
  "load_use = words [0x00002083, 0x00108133, 0x00000073]"

text \<open>\<open>lw x1, 100(x0)\<close> in a memory of 32 bytes\<close>

definition bad_load :: "u8 list" where
  "bad_load = words [0x06402083]"

lemma loaded_eq:
  assumes "img \<noteq> []" "length img \<le> 32"
  shows "loaded img ty = (new_CPU 32 (default_Config\<lparr>branch_predictor_type := ty\<rparr>))
     \<lparr>cpu_memory := img @ replicate (32 - length img) 0, cpu_pc := 0\<rparr>"
proof -
  let ?c = "new_CPU 32 (default_Config\<lparr>branch_predictor_type := ty\<rparr>)"
  have "load_program ?c img 0 = Inr (?c\<lparr>cpu_memory := splice_at (cpu_memory ?c) (unat (0 :: u32)) img,
      cpu_pc := 0, cpu_halted := False, cpu_memory_writes := []\<rparr>)"
    by (rule load_program_in) (use assms in \<open>simp_all add: new_CPU_def\<close>)
  then show ?thesis by (simp add: loaded_def new_CPU_def splice_at_def)
qed

lemma loaded_ok:
  "img \<noteq> [] \<Longrightarrow> length img \<le> 32 \<Longrightarrow> cpu_ok (loaded img ty) \<and> writes_ok (loaded img ty)"
  by (simp add: loaded_eq cpu_ok_def new_CPU_def writes_ok_def kNumRegisters_def new_predictor_ok)

lemma arch_of_loaded:
  "img \<noteq> [] \<Longrightarrow> length img \<le> 32 \<Longrightarrow>
   arch_of (loaded img ty) = arch_of (loaded img TwoBitSaturating)"
  by (simp add: loaded_eq arch_of_def arch_at_def new_CPU_def)

lemma countdown_runs:
  "case isa_steps 6 (arch_of (loaded countdown TwoBitSaturating)) of
     Inl e \<Rightarrow> False | Inr s \<Rightarrow> a_halted s \<and> isa_get s 1 = 0 \<and> a_retired s = 6"
  by code_simp

lemma countdown_stable: "stable_run 6 (arch_of (loaded countdown TwoBitSaturating))"
  by code_simp

lemma bad_load_fails:
  "isa_steps 1 (arch_of (loaded bad_load TwoBitSaturating)) = Inl bad_address"
  by code_simp

lemma bad_load_stable: "stable_run 1 (arch_of (loaded bad_load TwoBitSaturating))"
  by code_simp

lemma example_lengths:
  "length countdown = 16" "length load_use = 12" "length bad_load = 4"
  by (simp_all add: countdown_def load_use_def bad_load_def words_def)

lemma example_nonempty: "countdown \<noteq> []" "load_use \<noteq> []" "bad_load \<noteq> []"
  using example_lengths by auto

lemma countdown_facts:
  "cpu_ok (loaded countdown ty)" "regs_ok (loaded countdown ty)"
  "code_stable (arch_of (loaded countdown ty))"
  "\<exists>s. isa_steps 6 (arch_of (loaded countdown ty)) = Inr s \<and> a_halted s \<and> isa_get s 1 = 0 \<and>
     a_retired s = 6"
proof -
  have arch: "arch_of (loaded countdown ty) = arch_of (loaded countdown TwoBitSaturating)"
    by (rule arch_of_loaded) (simp_all add: example_nonempty example_lengths)
  show "cpu_ok (loaded countdown ty)" "regs_ok (loaded countdown ty)"
    using loaded_ok[of countdown]
    by (simp_all add: example_nonempty example_lengths cpu_ok_regs_ok)
  show "code_stable (arch_of (loaded countdown ty))"
    unfolding arch by (rule stable_run_stable[OF countdown_stable])
  show "\<exists>s. isa_steps 6 (arch_of (loaded countdown ty)) = Inr s \<and> a_halted s \<and>
      isa_get s 1 = 0 \<and> a_retired s = 6"
    using countdown_runs unfolding arch by (auto split: sum.splits)
qed

lemma countdown_halts:
  "\<exists>c' p'. run_cycles 20 (start (loaded countdown ty)) = Inr (c', p') \<and> cpu_halted c'"
  using countdown_facts(4)[of ty] run_halts_start[OF countdown_facts(2,3)[of ty], of 6 _ 20] by auto

lemma bad_load_facts:
  "cpu_ok (loaded bad_load ty)" "regs_ok (loaded bad_load ty)"
  "code_stable (arch_of (loaded bad_load ty))"
  "isa_steps 1 (arch_of (loaded bad_load ty)) = Inl bad_address"
proof -
  have arch: "arch_of (loaded bad_load ty) = arch_of (loaded bad_load TwoBitSaturating)"
    by (rule arch_of_loaded) (simp_all add: example_nonempty example_lengths)
  show "cpu_ok (loaded bad_load ty)" "regs_ok (loaded bad_load ty)"
    using loaded_ok[of bad_load]
    by (simp_all add: example_nonempty example_lengths cpu_ok_regs_ok)
  show "code_stable (arch_of (loaded bad_load ty))"
    unfolding arch by (rule stable_run_stable[OF bad_load_stable])
  show "isa_steps 1 (arch_of (loaded bad_load ty)) = Inl bad_address"
    unfolding arch by (rule bad_load_fails)
qed

text \<open>
  The states in which the countdown has its first decrement in EX, with an operand that is still
  in EX/MEM, and its branch in EX, wrongly predicted.
\<close>

definition countdown_at :: "nat \<Rightarrow> CPU \<times> PipelineRegisters" where
  "countdown_at n = (case run_cycles n (start (loaded countdown TwoBitSaturating)) of
     Inl e \<Rightarrow> start (loaded countdown TwoBitSaturating) | Inr cp \<Rightarrow> cp)"

lemma countdown_ok: "cpu_ok (fst (countdown_at n))"
  using loaded_ok[of countdown TwoBitSaturating]
    run_invariants[of "start (loaded countdown TwoBitSaturating)" n]
  by (auto simp: countdown_at_def start_def example_nonempty example_lengths split: sum.splits)

lemma countdown_third:
  "run_cycles 3 (start (loaded countdown TwoBitSaturating)) = Inr (countdown_at 3) \<and>
   cpu_ok (fst (countdown_at 3)) \<and> idex_valid (id_ex (snd (countdown_at 3))) \<and>
   idex_instruction (id_ex (snd (countdown_at 3))) = 0xFFF08093 \<and>
   (\<exists>cp. cycle (countdown_at 3) = Inr cp)"
proof -
  have "case run_cycles 3 (start (loaded countdown TwoBitSaturating)) of Inl e \<Rightarrow> False
     | Inr cp \<Rightarrow> idex_valid (id_ex (snd cp)) \<and>
         idex_instruction (id_ex (snd cp)) = 0xFFF08093 \<and>
         (case cycle cp of Inl e \<Rightarrow> False | Inr cp' \<Rightarrow> True)"
    by code_simp
  then show ?thesis using countdown_ok[of 3] by (auto simp: countdown_at_def split: sum.splits)
qed

definition load_use_at :: "nat \<Rightarrow> CPU \<times> PipelineRegisters" where
  "load_use_at n = (case run_cycles n (start (loaded load_use TwoBitSaturating)) of
     Inl e \<Rightarrow> start (loaded load_use TwoBitSaturating) | Inr cp \<Rightarrow> cp)"

lemma load_use_ok: "cpu_ok (fst (load_use_at n))"
  using loaded_ok[of load_use TwoBitSaturating]
    run_invariants[of "start (loaded load_use TwoBitSaturating)" n]
  by (auto simp: load_use_at_def start_def example_nonempty example_lengths split: sum.splits)

lemma load_use_second:
  "cpu_ok (fst (load_use_at 2)) \<and> \<not> halt_is_in_flight (snd (load_use_at 2)) \<and>
   ifid_valid (if_id (snd (load_use_at 2))) \<and> idex_valid (id_ex (snd (load_use_at 2))) \<and>
   idex_control (id_ex (snd (load_use_at 2))) = control_of K_Lw \<and>
   idex_rd (id_ex (snd (load_use_at 2))) = 1 \<and>
   reads_register (ifid_instruction (if_id (snd (load_use_at 2)))) 1 \<and>
   reg_write (control_of K_Lw) \<and> mem_read (control_of K_Lw) \<and> \<not> branch (control_of K_Lw) \<and>
   \<not> jump (control_of K_Lw) \<and> (\<exists>cp. cycle (load_use_at 2) = Inr cp)"
proof -
  have "case run_cycles 2 (start (loaded load_use TwoBitSaturating)) of Inl e \<Rightarrow> False
     | Inr cp \<Rightarrow> \<not> halt_is_in_flight (snd cp) \<and>
        ifid_valid (if_id (snd cp)) \<and> idex_valid (id_ex (snd cp)) \<and>
        idex_control (id_ex (snd cp)) = control_of K_Lw \<and> idex_rd (id_ex (snd cp)) = 1 \<and>
        reads_register (ifid_instruction (if_id (snd cp))) 1 \<and>
        reg_write (control_of K_Lw) \<and> mem_read (control_of K_Lw) \<and>
        \<not> branch (control_of K_Lw) \<and> \<not> jump (control_of K_Lw) \<and>
        (case cycle cp of Inl e \<Rightarrow> False | Inr cp' \<Rightarrow> True)"
    by code_simp
  then show ?thesis using load_use_ok[of 2] by (auto simp: load_use_at_def split: sum.splits)
qed

definition mispredicts :: "CPU \<times> PipelineRegisters \<Rightarrow> bool" where
  "mispredicts cp \<longleftrightarrow> \<not> halt_is_in_flight (snd cp) \<and>
     idex_valid (id_ex (snd cp)) \<and> branch (idex_control (id_ex (snd cp))) \<and>
     branch_mispredictions (cpu_stats (fst cp)) = 0 \<and>
     idex_predicted_next_pc (id_ex (snd cp)) \<noteq>
      (if evaluate_branch (branch_condition (idex_control (id_ex (snd cp))))
            (fo_rs1_value (resolve_forwarding (id_ex (snd cp)) (snd cp)))
            (fo_rs2_value (resolve_forwarding (id_ex (snd cp)) (snd cp)))
       then idex_pc (id_ex (snd cp)) + idex_immediate (id_ex (snd cp))
       else idex_pc (id_ex (snd cp)) + 4) \<and>
     (case cycle cp of Inl e \<Rightarrow> False | Inr cp' \<Rightarrow> True)"

lemma countdown_fourth:
  "cpu_ok (fst (countdown_at 4)) \<and> \<not> halt_is_in_flight (snd (countdown_at 4)) \<and>
   idex_valid (id_ex (snd (countdown_at 4))) \<and>
   branch (idex_control (id_ex (snd (countdown_at 4)))) \<and>
   branch_mispredictions (cpu_stats (fst (countdown_at 4))) = 0 \<and>
   idex_predicted_next_pc (id_ex (snd (countdown_at 4))) \<noteq>
     (if evaluate_branch (branch_condition (idex_control (id_ex (snd (countdown_at 4)))))
           (fo_rs1_value (resolve_forwarding (id_ex (snd (countdown_at 4))) (snd (countdown_at 4))))
           (fo_rs2_value (resolve_forwarding (id_ex (snd (countdown_at 4))) (snd (countdown_at 4))))
      then idex_pc (id_ex (snd (countdown_at 4))) + idex_immediate (id_ex (snd (countdown_at 4)))
      else idex_pc (id_ex (snd (countdown_at 4))) + 4) \<and>
   (\<exists>cp. cycle (countdown_at 4) = Inr cp)"
proof -
  have "case run_cycles 4 (start (loaded countdown TwoBitSaturating)) of Inl e \<Rightarrow> False
     | Inr cp \<Rightarrow> mispredicts cp" by code_simp
  then have "mispredicts (countdown_at 4)" by (auto simp: countdown_at_def split: sum.splits)
  then show ?thesis
    using countdown_ok[of 4] unfolding mispredicts_def by (auto split: sum.splits)
qed

text \<open>
  \<open>addi x1, x0, 0x73; sw x1, 8(x0); addi x2, x0, 1; loop: jal x0, loop\<close>: the store replaces the
  third instruction by an \<open>ecall\<close>.
\<close>

definition self_modifying :: CPU where
  "self_modifying = loaded (words [0x07300093, 0x00102423, 0x00100113, 0x0000006F]) TwoBitSaturating"

lemma self_modifying_runs:
  "case isa_steps 3 (arch_of self_modifying) of Inl e \<Rightarrow> False
     | Inr s \<Rightarrow> a_halted s \<and> isa_get s 2 = 0"
  "case run_cycles 9 (start self_modifying) of Inl e \<Rightarrow> False
     | Inr cp \<Rightarrow> \<not> cpu_halted (fst cp) \<and> reg_val (fst cp) 2 = 1"
  by code_simp+

text \<open>\<open>loop: jal x0, loop\<close>: a program that never halts and never stores.\<close>

definition spin :: CPU where
  "spin = loaded (words [0x0000006F]) AlwaysTaken"

lemma spin_step:
  assumes "a_pc s = 0" "\<not> a_halted s" "a_memory s = cpu_memory spin"
  shows "\<exists>t. isa_step s = Inr t \<and> a_pc t = 0 \<and> \<not> a_halted t \<and> a_memory t = cpu_memory spin"
proof -
  have "isa_fetch (cpu_memory spin) 0 = Some 0x6F" by code_simp
  moreover have "d_kind (decode_instruction 0x6F) = K_Jal"
    "d_immediate (decode_instruction 0x6F) = 0"
    by code_simp+
  ultimately show ?thesis
    using assms by (simp add: isa_step_def isa_execute_def)
qed

lemma spin_steps:
  "isa_steps n (arch_of spin) = Inr t \<Longrightarrow>
   a_pc t = 0 \<and> a_memory t = cpu_memory spin \<and> length (cpu_memory spin) = 32"
proof -
  have len: "length (cpu_memory spin) = 32" by code_simp
  have "isa_steps n s = Inr t \<Longrightarrow> a_pc s = 0 \<Longrightarrow> \<not> a_halted s \<Longrightarrow> a_memory s = cpu_memory spin \<Longrightarrow>
      a_pc t = 0 \<and> a_memory t = cpu_memory spin" for s
  proof (induction n arbitrary: s)
    case (Suc n)
    from spin_step[OF Suc.prems(2-4)] Suc.prems(1) Suc.IH show ?case by auto
  qed simp
  moreover have "a_pc (arch_of spin) = 0" "\<not> a_halted (arch_of spin)" by code_simp+
  moreover have "a_memory (arch_of spin) = cpu_memory spin" by (simp add: arch_of_def)
  ultimately show "isa_steps n (arch_of spin) = Inr t \<Longrightarrow>
      a_pc t = 0 \<and> a_memory t = cpu_memory spin \<and> length (cpu_memory spin) = 32"
    using len by blast
qed

lemma spin_second:
  "\<exists>c p cp. run_cycles 2 (start spin) = Inr (c, p) \<and> run_pipeline_cycle c p = Inr cp \<and>
     idex_valid (id_ex p)"
proof -
  have "case run_cycles 2 (start spin) of Inl e \<Rightarrow> False
     | Inr cp \<Rightarrow> idex_valid (id_ex (snd cp)) \<and>
         (case run_pipeline_cycle (fst cp) (snd cp) of Inl e \<Rightarrow> False | Inr cp' \<Rightarrow> True)"
    by code_simp
  then show ?thesis by (auto split: sum.splits)
qed

lemma spin_ok: "cpu_ok spin"
proof -
  have len: "length (words [0x0000006F]) = 4" by (simp add: words_def)
  then have "words [0x0000006F] \<noteq> []" by (metis list.size(3) zero_neq_numeral)
  from loaded_ok[OF this, of AlwaysTaken] len show ?thesis by (simp add: spin_def)
qed

end
