(* ===== verification/Cpp_Stream.thy ===== *)
theory Cpp_Stream
  imports Prelude
begin

text \<open>
  What the printing functions use of \<open>std::ostream\<close>: the text written so far and the formatting
  state that outlives an insertion (base, fill character, adjustment), with the field width, which
  every formatted insertion resets. A chain \<open>output << a << b\<close> is \<open>emit [a, b]\<close>.
\<close>

section \<open>Numbers as text\<close>

definition digit_char :: "nat \<Rightarrow> char" where
  "digit_char d = ''0123456789abcdef'' ! d"

function nat_text :: "nat \<Rightarrow> nat \<Rightarrow> string" where
  "nat_text b n = (if b < 2 \<or> n < b then [digit_char n]
                   else nat_text b (n div b) @ [digit_char (n mod b)])"
  by pat_completeness auto

termination
  by (relation "measure snd") (auto intro: div_less_dividend)

declare nat_text.simps [simp del]

definition digit_value :: "char \<Rightarrow> nat option" where
  "digit_value c =
     (let k = of_char c :: nat in
      if 48 \<le> k \<and> k \<le> 57 then Some (k - 48)
      else if 97 \<le> k \<and> k \<le> 122 then Some (k - 87)
      else if 65 \<le> k \<and> k \<le> 90 then Some (k - 55)
      else None)"

definition is_digit :: "nat \<Rightarrow> char \<Rightarrow> bool" where
  "is_digit b c = (case digit_value c of None \<Rightarrow> False | Some d \<Rightarrow> d < b)"

definition text_value :: "nat \<Rightarrow> string \<Rightarrow> nat" where
  "text_value b t = foldl (\<lambda>v c. v * b + (case digit_value c of None \<Rightarrow> 0 | Some d \<Rightarrow> d)) 0 t"

lemma digit_char_value: "d < 16 \<Longrightarrow> digit_value (digit_char d) = Some d"
proof -
  assume "d < 16"
  then have "d \<in> {15, 14, 13, 12, 11, 10, 9, 8, 7, 6, 5, 4, 3, 2, 1, 0}"
    by (auto simp: numeral_eq_Suc less_Suc_eq)
  then show ?thesis
    by (elim insertE emptyE) (simp_all add: digit_char_def digit_value_def)
qed

lemma text_value_snoc:
  "text_value b (t @ [c]) = text_value b t * b + (case digit_value c of None \<Rightarrow> 0 | Some d \<Rightarrow> d)"
  by (simp add: text_value_def)

lemma text_value_nat_text:
  assumes "2 \<le> b" "b \<le> 16"
  shows "text_value b (nat_text b n) = n"
proof (induction n rule: less_induct)
  case (less n)
  show ?case
  proof (cases "n < b")
    case True
    then show ?thesis
      using assms by (subst nat_text.simps) (simp add: text_value_def digit_char_value)
  next
    case False
    then have "text_value b (nat_text b (n div b)) = n div b"
      using assms by (intro less) simp
    moreover have "n mod b < 16" using assms mod_less_divisor[of b n] by linarith
    ultimately show ?thesis
      using assms False by (subst nat_text.simps) (simp add: text_value_snoc digit_char_value)
  qed
qed

lemma nat_text_digits:
  assumes "2 \<le> b" "b \<le> 16"
  shows "list_all (is_digit b) (nat_text b n) \<and> nat_text b n \<noteq> []"
proof (induction n rule: less_induct)
  case (less n)
  show ?case
  proof (cases "n < b")
    case True
    then show ?thesis
      using assms by (subst (1 2) nat_text.simps) (simp add: is_digit_def digit_char_value)
  next
    case False
    then have "list_all (is_digit b) (nat_text b (n div b))"
      using assms less[of "n div b"] by simp
    moreover have "n mod b < b" "n mod b < 16" using assms mod_less_divisor[of b n] by linarith+
    ultimately show ?thesis
      using False assms
      by (subst (1 2) nat_text.simps) (simp add: is_digit_def digit_char_value)
  qed
qed

lemma length_nat_text:
  assumes "2 \<le> b"
  shows "n < b ^ k \<Longrightarrow> 0 < k \<Longrightarrow> length (nat_text b n) \<le> k"
proof (induction k arbitrary: n)
  case 0
  then show ?case by simp
next
  case (Suc k)
  show ?case
  proof (cases "n < b")
    case True
    then show ?thesis by (subst nat_text.simps) simp
  next
    case False
    then have "0 < k" using Suc.prems(1) by (cases k) simp_all
    moreover have "n div b < b ^ k"
      using Suc.prems(1) assms by (simp add: less_mult_imp_div_less mult.commute)
    ultimately have "length (nat_text b (n div b)) \<le> k" by (intro Suc.IH)
    then show ?thesis using False assms by (subst nat_text.simps) simp
  qed
qed

section \<open>The stream\<close>

record Stream =
  s_text :: string
  s_hex :: bool
  s_fill :: char
  s_left :: bool
  s_width :: nat

definition new_stream :: Stream where
  "new_stream = \<lparr>s_text = '''', s_hex = False, s_fill = CHR '' '', s_left = False, s_width = 0\<rparr>"

datatype Item =
  Str string | Num nat | Hex | Dec | Setw nat | Setfill char | Left | Right

definition pad :: "Stream \<Rightarrow> string \<Rightarrow> string" where
  "pad s t = (let fill = replicate (s_width s - length t) (s_fill s) in
              if s_left s then t @ fill else fill @ t)"

definition put :: "Stream \<Rightarrow> string \<Rightarrow> Stream" where
  "put s t = s\<lparr>s_text := s_text s @ pad s t, s_width := 0\<rparr>"

fun emit1 :: "Item \<Rightarrow> Stream \<Rightarrow> Stream" where
  "emit1 (Str t) s = put s t"
| "emit1 (Num n) s = put s (nat_text (if s_hex s then 16 else 10) n)"
| "emit1 Hex s = s\<lparr>s_hex := True\<rparr>"
| "emit1 Dec s = s\<lparr>s_hex := False\<rparr>"
| "emit1 (Setw w) s = s\<lparr>s_width := w\<rparr>"
| "emit1 (Setfill c) s = s\<lparr>s_fill := c\<rparr>"
| "emit1 Left s = s\<lparr>s_left := True\<rparr>"
| "emit1 Right s = s\<lparr>s_left := False\<rparr>"

definition emit :: "Item list \<Rightarrow> Stream \<Rightarrow> Stream" where
  "emit items s = fold emit1 items s"

lemma emit_simps [simp]:
  "emit [] s = s" "emit (i # is) s = emit is (emit1 i s)"
  by (simp_all add: emit_def)

lemma emit_append: "emit (is @ js) s = emit js (emit is s)"
  by (simp add: emit_def)

text \<open>Characters that need no escape in the sources' literals are written as such.\<close>

definition newline :: string where "newline = [CHR 0x0A]"
definition quote :: string where "quote = [CHR 0x22]"

text \<open>A stream in its initial format, whatever it has written.\<close>

definition plain :: "string \<Rightarrow> Stream" where
  "plain t = new_stream\<lparr>s_text := t\<rparr>"

lemma plain_simps [simp]:
  "s_text (plain t) = t" "\<not> s_hex (plain t)" "s_fill (plain t) = CHR '' ''" "\<not> s_left (plain t)"
  "s_width (plain t) = 0"
  by (simp_all add: plain_def new_stream_def)

lemma new_stream_plain: "new_stream = plain ''''"
  by (simp add: plain_def new_stream_def)

lemma put_plain [simp]: "put (plain t) u = plain (t @ u)"
  by (simp add: plain_def new_stream_def put_def pad_def)

text \<open>A number in a zero-filled field of fixed width.\<close>

definition field :: "nat \<Rightarrow> nat \<Rightarrow> nat \<Rightarrow> string" where
  "field b w n = replicate (w - length (nat_text b n)) (CHR ''0'') @ nat_text b n"

lemma length_field: "2 \<le> b \<Longrightarrow> 0 < w \<Longrightarrow> n < b ^ w \<Longrightarrow> length (field b w n) = w"
  using length_nat_text[of b n w] by (simp add: field_def)

lemma text_value_zeros: "text_value b (replicate k (CHR ''0'') @ t) = text_value b t"
proof -
  have "foldl (\<lambda>v c. v * b + (case digit_value c of None \<Rightarrow> 0 | Some d \<Rightarrow> d)) 0
      (replicate k (CHR ''0'')) = 0"
    by (induction k) (simp_all add: digit_value_def)
  then show ?thesis by (simp add: text_value_def)
qed

lemma text_value_field: "2 \<le> b \<Longrightarrow> b \<le> 16 \<Longrightarrow> text_value b (field b w n) = n"
  by (simp add: field_def text_value_zeros text_value_nat_text)

lemma field_inject: "2 \<le> b \<Longrightarrow> b \<le> 16 \<Longrightarrow> field b w m = field b w n \<longleftrightarrow> m = n"
  by (metis text_value_field)

text \<open>The chains the sources use for such fields, which end in the initial format.\<close>

lemma emit_hex_field:
  "emit [Hex, Setw w, Setfill (CHR ''0''), Num n, Dec, Setfill (CHR '' '')] (plain t) =
     plain (t @ field 16 w n)"
  by (simp add: plain_def new_stream_def put_def pad_def field_def)

end
