(* ===== verification/State_Dump.thy ===== *)
theory State_Dump
  imports Cpp_Stream Cpu
begin

text \<open>
  \<open>include/state_dump.hpp\<close> and \<open>src/state_dump.cpp\<close>: selecting and merging memory ranges, the
  human-readable dumps and the canonical JSON of the architectural state. The text a function
  has written before it throws is not tracked.
\<close>

unbundle bit_operations_syntax

record MemoryDumpRange =
  range_start :: u32
  range_count :: u32

section \<open>Merging ranges\<close>

text \<open>
  \<open>for (uint32_t address = start; address < end; ++address) selected[address] = true;\<close> with a
  64-bit \<open>end\<close>: the loop never ends if \<open>end\<close> is \<open>2\<^sup>3\<^sup>2\<close>, since the address wraps.
\<close>

partial_function (option) mark_range :: "bool list \<Rightarrow> u32 \<Rightarrow> nat \<Rightarrow> bool list option" where
  "mark_range selected address end_address =
     (if unat address < end_address
      then mark_range (selected[unat address := True]) (address + 1) end_address
      else Some selected)"

text \<open>The sum of a 32-bit address and a 32-bit count is exact in \<open>uint64_t\<close>.\<close>

definition range_end :: "u32 \<Rightarrow> u32 \<Rightarrow> nat" where
  "range_end address byte_count = unat address + unat byte_count"

fun mark_all :: "nat \<Rightarrow> cpp_exception \<Rightarrow> (u32 \<times> u32) list \<Rightarrow> bool list \<Rightarrow> bool list outcome" where
  "mark_all mem_size e [] selected = Some (Inr selected)"
| "mark_all mem_size e ((address, byte_count) # ranges) selected =
     (if range_end address byte_count > mem_size then Some (Inl e)
      else case mark_range selected address (range_end address byte_count) of
        None \<Rightarrow> None
      | Some selected \<Rightarrow> mark_all mem_size e ranges selected)"

text \<open>The two inner \<open>while\<close> loops and the outer one, on indices of type \<open>std::size_t\<close>.\<close>

function skip_clear :: "bool list \<Rightarrow> nat \<Rightarrow> nat" where
  "skip_clear selected address =
     (if address < length selected \<and> \<not> selected ! address
      then skip_clear selected (address + 1) else address)"
  by pat_completeness auto

termination
  by (relation "measure (\<lambda>(sel, a). length sel - a)") auto

function skip_set :: "bool list \<Rightarrow> nat \<Rightarrow> nat" where
  "skip_set selected address =
     (if address < length selected \<and> selected ! address
      then skip_set selected (address + 1) else address)"
  by pat_completeness auto

termination
  by (relation "measure (\<lambda>(sel, a). length sel - a)") auto

declare skip_clear.simps [simp del] skip_set.simps [simp del]

lemma skip_clear_spec:
  "a \<le> skip_clear sel a \<and> (\<forall>i. a \<le> i \<and> i < skip_clear sel a \<longrightarrow> i < length sel \<and> \<not> sel ! i) \<and>
   (skip_clear sel a < length sel \<longrightarrow> sel ! skip_clear sel a) \<and>
   (a \<le> length sel \<longrightarrow> skip_clear sel a \<le> length sel)"
proof (induction sel a rule: skip_clear.induct)
  case (1 sel a)
  show ?case
  proof (cases "a < length sel \<and> \<not> sel ! a")
    case True
    then have e: "skip_clear sel a = skip_clear sel (a + 1)" by (subst skip_clear.simps) simp
    show ?thesis using 1[OF True] True unfolding e by (auto simp: Suc_le_eq nat_less_le)
  next
    case False
    then have "skip_clear sel a = a" by (subst skip_clear.simps) auto
    then show ?thesis using False by auto
  qed
qed

lemma skip_set_spec:
  "a \<le> skip_set sel a \<and> (\<forall>i. a \<le> i \<and> i < skip_set sel a \<longrightarrow> i < length sel \<and> sel ! i) \<and>
   (skip_set sel a < length sel \<longrightarrow> \<not> sel ! skip_set sel a) \<and>
   (a \<le> length sel \<longrightarrow> skip_set sel a \<le> length sel)"
proof (induction sel a rule: skip_set.induct)
  case (1 sel a)
  show ?case
  proof (cases "a < length sel \<and> sel ! a")
    case True
    then have e: "skip_set sel a = skip_set sel (a + 1)" by (subst skip_set.simps) simp
    show ?thesis using 1[OF True] True unfolding e by (auto simp: Suc_le_eq nat_less_le)
  next
    case False
    then have "skip_set sel a = a" by (subst skip_set.simps) auto
    then show ?thesis using False by auto
  qed
qed

lemma skip_set_advances:
  assumes "a < length sel" "sel ! a"
  shows "a < skip_set sel a"
proof -
  have "skip_set sel a = skip_set sel (a + 1)" using assms by (subst skip_set.simps) simp
  then show ?thesis using skip_set_spec[of "a + 1" sel] by simp
qed

function runs :: "bool list \<Rightarrow> nat \<Rightarrow> (nat \<times> nat) list" where
  "runs selected address =
     (if address < length selected then
        (let start = skip_clear selected address in
         if start = length selected then []
         else let stop = skip_set selected start in (start, stop) # runs selected stop)
      else [])"
  by pat_completeness auto

termination
proof (relation "measure (\<lambda>(sel, a). length sel - a)")
  fix sel :: "bool list" and a x xa
  assume a: "a < length sel" "x = skip_clear sel a" "x \<noteq> length sel" "xa = skip_set sel x"
  have "x < length sel" using skip_clear_spec[of a sel] a by simp
  moreover from this have "sel ! x" using skip_clear_spec[of a sel] a by simp
  ultimately have "x < xa" using skip_set_advances a by simp
  moreover have "a \<le> x" using skip_clear_spec[of a sel] a by simp
  ultimately show "((sel, xa), sel, a) \<in> measure (\<lambda>(sel, a). length sel - a)"
    using a(1) by simp
qed simp

declare runs.simps [simp del]

definition normalize_memory_ranges ::
  "CPU \<Rightarrow> MemoryDumpRange list \<Rightarrow> MemoryDumpRange list outcome" where
  "normalize_memory_ranges cpu requested_ranges =
     (let selected = replicate (memory_size cpu) False in
      out_bind
        (if requested_ranges = [] then
           mark_all (memory_size cpu)
             (Out_of_range ''recorded memory write exceeds simulated RAM bounds'')
             (map (\<lambda>w. (mw_address w, mw_byte_count w)) (cpu_memory_writes cpu)) selected
         else
           mark_all (memory_size cpu)
             (Out_of_range ''architectural-state memory range exceeds simulated RAM bounds'')
             (map (\<lambda>r. (range_start r, range_count r)) requested_ranges) selected)
        (\<lambda>selected. Some (Inr (map (\<lambda>(start, stop).
           \<lparr>range_start = of_nat start, range_count = of_nat (stop - start)\<rparr>)
           (runs selected 0)))))"

section \<open>Dumps for people\<close>

definition print_hex32 :: "u32 \<Rightarrow> Stream \<Rightarrow> Stream" where
  "print_hex32 v = emit [Str ''0x'', Hex, Setw 8, Setfill (CHR ''0''), Num (unat v), Dec,
                         Setfill (CHR '' '')]"

definition print_register_line :: "CPU \<Rightarrow> nat \<Rightarrow> Stream \<Rightarrow> Stream result" where
  "print_register_line cpu reg s =
     res_bind (read_reg cpu (of_nat reg)) (\<lambda>v.
       Inr (emit [Str ''  x'', Dec, Setw 2, Setfill (CHR ''0''), Num reg, Str '' = 0x'', Hex,
                  Setw 8, Setfill (CHR ''0''), Num (unat v), Dec, Setfill (CHR '' ''),
                  Str '' ('', Num (unat v), Str ('')'' @ newline)] s))"

definition print_register_dump :: "CPU \<Rightarrow> Stream \<Rightarrow> Stream result" where
  "print_register_dump cpu s =
     res_fold (print_register_line cpu) [0..<32] (emit [Str (newline @ ''Register dump:'' @ newline)] s)"

text \<open>The bytes of one line, \<open>address\<close> being that of the first.\<close>

definition print_byte :: "CPU \<Rightarrow> u32 \<Rightarrow> nat \<Rightarrow> Stream \<Rightarrow> Stream result" where
  "print_byte cpu address i s =
     res_bind (read_u8 cpu (address + of_nat i)) (\<lambda>b.
       Inr (emit [Str '' '', Setw 2, Setfill (CHR ''0''), Num (unat b)] s))"

definition print_memory_line :: "CPU \<Rightarrow> u32 \<Rightarrow> u32 \<Rightarrow> u32 \<Rightarrow> Stream \<Rightarrow> Stream result" where
  "print_memory_line cpu start_address byte_count offset s =
     (let address = start_address + offset;
          s = emit [Str ''  0x'', Hex, Setw 8, Setfill (CHR ''0''), Num (unat address), Str '':''] s;
          bytes_this_line = min 16 (byte_count - offset)
      in res_bind (res_fold (print_byte cpu address) [0..<unat bytes_this_line] s)
           (\<lambda>s. Inr (emit [Dec, Setfill (CHR '' ''), Str newline] s)))"

text \<open>\<open>offset\<close> is a \<open>uint32_t\<close> that moves in steps of 16 and may wrap past \<open>byte_count\<close>.\<close>

partial_function (option) print_memory_lines ::
  "CPU \<Rightarrow> u32 \<Rightarrow> u32 \<Rightarrow> u32 \<Rightarrow> Stream \<Rightarrow> Stream outcome" where
  "print_memory_lines cpu start_address byte_count offset s =
     (if offset < byte_count then
        (case print_memory_line cpu start_address byte_count offset s of
           Inl e \<Rightarrow> Some (Inl e)
         | Inr s \<Rightarrow> print_memory_lines cpu start_address byte_count (offset + 16) s)
      else Some (Inr s))"

definition print_memory_dump :: "CPU \<Rightarrow> u32 \<Rightarrow> u32 \<Rightarrow> Stream \<Rightarrow> Stream outcome" where
  "print_memory_dump cpu start_address byte_count s =
     (let end_address = range_end start_address byte_count in
      if end_address > memory_size cpu
      then Some (Inl (Out_of_range ''memory dump range exceeds simulated RAM bounds''))
      else print_memory_lines cpu start_address byte_count 0
        (emit [Str (newline @ ''Memory dump [0x''), Hex, Setw 8, Setfill (CHR ''0''),
               Num (unat start_address), Str ''..0x'', Setw 8, Num end_address, Dec,
               Setfill (CHR '' ''), Str (''):'' @ newline)] s))"

function print_rows :: "CPU \<Rightarrow> nat \<Rightarrow> nat \<Rightarrow> Stream \<Rightarrow> Stream result" where
  "print_rows cpu row stop s =
     (if row < stop then
        (let s = emit [Str ''    0x'', Hex, Setw 8, Setfill (CHR ''0''), Num row, Str '':''] s;
             bytes_this_line = min 16 (stop - row)
         in res_bind (res_fold (print_byte cpu (of_nat row)) [0..<bytes_this_line] s)
              (\<lambda>s. print_rows cpu (row + 16) stop
                 (emit [Dec, Setfill (CHR '' ''), Str newline] s)))
      else Inr s)"
  by pat_completeness auto

termination
  by (relation "measure (\<lambda>(cpu, row, stop, s). stop - row)") auto

declare print_rows.simps [simp del]

definition print_written_range :: "CPU \<Rightarrow> nat \<times> nat \<Rightarrow> Stream \<Rightarrow> Stream result" where
  "print_written_range cpu r s =
     print_rows cpu (fst r) (snd r)
       (emit [Str ''  Range [0x'', Hex, Setw 8, Setfill (CHR ''0''), Num (fst r), Str ''..0x'',
              Setw 8, Num (snd r), Dec, Setfill (CHR '' ''), Str (''):'' @ newline)] s)"

definition print_written_memory_dump :: "CPU \<Rightarrow> Stream \<Rightarrow> Stream outcome" where
  "print_written_memory_dump cpu s =
     (let s = emit [Str (newline @ ''Written memory dump:'' @ newline)] s in
      if cpu_memory_writes cpu = [] then Some (Inr (emit [Str (''  <no memory writes>'' @ newline)] s))
      else out_bind
        (mark_all (memory_size cpu)
           (Out_of_range ''recorded memory write exceeds simulated RAM bounds'')
           (map (\<lambda>w. (mw_address w, mw_byte_count w)) (cpu_memory_writes cpu))
           (replicate (memory_size cpu) False))
        (\<lambda>touched. Some (res_fold (print_written_range cpu) (runs touched 0) s)))"

section \<open>The canonical JSON\<close>

definition json_register :: "CPU \<Rightarrow> nat \<Rightarrow> Stream \<Rightarrow> Stream result" where
  "json_register cpu reg s =
     (let s = emit [Str (''    '' @ quote @ ''x''), Dec, Setw 2, Setfill (CHR ''0''), Num reg,
                    Str (quote @ '': '' @ quote)] s in
      res_bind (read_reg cpu (of_nat reg)) (\<lambda>v.
        Inr (emit [Str quote, Str (if reg + 1 = kNumRegisters then newline else '','' @ newline)]
               (print_hex32 v s))))"

definition json_byte :: "CPU \<Rightarrow> u32 \<Rightarrow> nat \<Rightarrow> Stream \<Rightarrow> Stream result" where
  "json_byte cpu start offset s =
     res_bind (read_u8 cpu (start + of_nat offset)) (\<lambda>b.
       Inr (emit [Hex, Setw 2, Setfill (CHR ''0''), Num (unat b)] s))"

definition json_range :: "CPU \<Rightarrow> nat \<Rightarrow> nat \<times> MemoryDumpRange \<Rightarrow> Stream \<Rightarrow> Stream result" where
  "json_range cpu n ir s =
     (let index = fst ir; range = snd ir;
          s = emit [Str (''    {'' @ quote @ ''start'' @ quote @ '': '' @ quote)] s;
          s = print_hex32 (range_start range) s;
          s = emit [Str (quote @ '', '' @ quote @ ''length'' @ quote @ '': ''),
                    Num (unat (range_count range)),
                    Str ('', '' @ quote @ ''bytes'' @ quote @ '': '' @ quote)] s
      in res_bind (res_fold (json_byte cpu (range_start range)) [0..<unat (range_count range)] s)
           (\<lambda>s. Inr (emit [Dec, Setfill (CHR '' ''), Str (quote @ ''}''),
              Str (if index + 1 = n then newline else '','' @ newline)] s)))"

definition print_architectural_state_json ::
  "CPU \<Rightarrow> MemoryDumpRange list \<Rightarrow> Stream \<Rightarrow> Stream outcome" where
  "print_architectural_state_json cpu memory_ranges s =
     out_bind (normalize_memory_ranges cpu memory_ranges) (\<lambda>ranges. Some (
       let s = emit [Str (''{'' @ newline),
                 Str (''  '' @ quote @ ''schema'' @ quote @ '': '' @ quote @
                      ''rv32i-architectural-state-v1'' @ quote @ '','' @ newline),
                 Str (''  '' @ quote @ ''pc'' @ quote @ '': '' @ quote)] s;
           s = print_hex32 (cpu_pc cpu) s;
           s = emit [Str (quote @ '','' @ newline),
                 Str (''  '' @ quote @ ''halted'' @ quote @ '': ''),
                 Str (if cpu_halted cpu then ''true'' else ''false''), Str ('','' @ newline),
                 Str (''  '' @ quote @ ''registers'' @ quote @ '': {'' @ newline)] s
       in res_bind (res_fold (json_register cpu) [0..<kNumRegisters] s) (\<lambda>s.
          let s = emit [Str (''  },'' @ newline), Str (''  '' @ quote @ ''memory'' @ quote @ '': ['')] s;
              s = (if ranges \<noteq> [] then emit [Str newline] s else s)
          in res_bind (res_fold (json_range cpu (length ranges)) (enumerate 0 ranges) s)
               (\<lambda>s. Inr (emit [Str (''  ]'' @ newline), Str (''}'' @ newline)] s)))))"

section \<open>What merging computes\<close>

lemma mark_range_spec:
  assumes "end_address \<le> length sel" "end_address < 2 ^ 32"
  shows "\<exists>sel'. mark_range sel a end_address = Some sel' \<and> length sel' = length sel \<and>
    (\<forall>i < length sel. sel' ! i \<longleftrightarrow> sel ! i \<or> unat a \<le> i \<and> i < end_address)"
  using assms
proof (induction "end_address - unat a" arbitrary: sel a rule: less_induct)
  case less
  show ?case
  proof (cases "unat a < end_address")
    case False
    then show ?thesis by (subst mark_range.simps) auto
  next
    case True
    then have na: "unat (a + 1) = Suc (unat a)"
      using less.prems(2) by (simp add: unat_word_ariths)
    have "\<exists>sel'. mark_range (sel[unat a := True]) (a + 1) end_address = Some sel' \<and>
        length sel' = length (sel[unat a := True]) \<and>
        (\<forall>i < length (sel[unat a := True]). sel' ! i \<longleftrightarrow>
           sel[unat a := True] ! i \<or> unat (a + 1) \<le> i \<and> i < end_address)"
      using True less.prems by (intro less.hyps) (simp_all add: na)
    then obtain sel' where s: "mark_range (sel[unat a := True]) (a + 1) end_address = Some sel'"
      "length sel' = length sel"
      "\<And>i. i < length sel \<Longrightarrow> sel' ! i \<longleftrightarrow>
         sel[unat a := True] ! i \<or> Suc (unat a) \<le> i \<and> i < end_address"
      by (auto simp: na)
    have "mark_range sel a end_address = Some sel'"
      using True s(1) by (subst mark_range.simps) simp
    moreover have "sel' ! i \<longleftrightarrow> sel ! i \<or> unat a \<le> i \<and> i < end_address"
      if "i < length sel" for i
      using s(3)[OF that] that True by (cases "i = unat a") auto
    ultimately show ?thesis using s(2) by blast
  qed
qed

text \<open>The bytes a list of ranges names.\<close>

definition covered :: "(u32 \<times> u32) list \<Rightarrow> nat set" where
  "covered ranges = (\<Union>(a, n) \<in> set ranges. {unat a ..< range_end a n})"

lemma covered_simps [simp]:
  "covered [] = {}" "covered ((a, n) # rs) = {unat a ..< range_end a n} \<union> covered rs"
  by (auto simp: covered_def)

definition ranges_fit :: "nat \<Rightarrow> (u32 \<times> u32) list \<Rightarrow> bool" where
  "ranges_fit mem_size ranges = list_all (\<lambda>(a, n). range_end a n \<le> mem_size) ranges"

lemma mark_all_spec:
  assumes "length sel = mem_size" "mem_size < 2 ^ 32"
  shows "if ranges_fit mem_size ranges
    then \<exists>sel'. mark_all mem_size e ranges sel = Some (Inr sel') \<and> length sel' = mem_size \<and>
      (\<forall>i < mem_size. sel' ! i \<longleftrightarrow> sel ! i \<or> i \<in> covered ranges)
    else mark_all mem_size e ranges sel = Some (Inl e)"
  using assms(1)
proof (induction ranges arbitrary: sel)
  case Nil
  then show ?case by (simp add: ranges_fit_def)
next
  case (Cons r ranges)
  obtain a n where r: "r = (a, n)" by (cases r)
  show ?case
  proof (cases "range_end a n \<le> mem_size")
    case False
    then show ?thesis by (simp add: r ranges_fit_def)
  next
    case True
    obtain sel1 where m: "mark_range sel a (range_end a n) = Some sel1" "length sel1 = mem_size"
      "\<And>i. i < mem_size \<Longrightarrow> sel1 ! i \<longleftrightarrow> sel ! i \<or> unat a \<le> i \<and> i < range_end a n"
      using mark_range_spec[of "range_end a n" sel a] True Cons.prems assms(2) by auto
    have fit: "ranges_fit mem_size (r # ranges) = ranges_fit mem_size ranges"
      using True by (simp add: r ranges_fit_def)
    have step: "mark_all mem_size e (r # ranges) sel = mark_all mem_size e ranges sel1"
      using True m(1) by (simp add: r)
    show ?thesis using Cons.IH[OF m(2)] m(3) unfolding fit step by (auto simp: r split: if_splits)
  qed
qed

text \<open>Maximal runs: in ascending order, nonempty, with a gap between neighbours.\<close>

fun separated :: "nat \<Rightarrow> (nat \<times> nat) list \<Rightarrow> bool" where
  "separated low [] = True"
| "separated low ((start, stop) # rs) = (low \<le> start \<and> start < stop \<and> separated (stop + 1) rs)"

definition run_bytes :: "(nat \<times> nat) list \<Rightarrow> nat set" where
  "run_bytes rs = (\<Union>(start, stop) \<in> set rs. {start ..< stop})"

lemma run_bytes_simps [simp]:
  "run_bytes [] = {}" "run_bytes ((a, b) # rs) = {a ..< b} \<union> run_bytes rs"
  by (auto simp: run_bytes_def)

lemma runs_spec:
  "run_bytes (runs sel a) = {i. a \<le> i \<and> i < length sel \<and> sel ! i} \<and>
    list_all (\<lambda>r. snd r \<le> length sel) (runs sel a)"
proof (induction sel a rule: runs.induct)
  case (1 sel a)
  define start where "start = skip_clear sel a"
  define stop where "stop = skip_set sel start"
  show ?case
  proof (cases "a < length sel")
    case False
    then show ?thesis by (subst (1 2) runs.simps) auto
  next
    case True
    note clear = skip_clear_spec[of a sel, folded start_def]
    note set = skip_set_spec[of start sel, folded stop_def]
    show ?thesis
    proof (cases "start = length sel")
      case end_reached: True
      then have "runs sel a = []" using True by (subst runs.simps) (simp add: start_def Let_def)
      then show ?thesis using clear end_reached by auto
    next
      case False
      then have eq: "runs sel a = (start, stop) # runs sel stop"
        using True by (subst runs.simps) (simp add: start_def stop_def Let_def)
      have bounds: "a \<le> start" "start < length sel" "start \<le> stop" "stop \<le> length sel"
        using clear set True False by auto
      have ih: "run_bytes (runs sel stop) = {i. stop \<le> i \<and> i < length sel \<and> sel ! i} \<and>
          list_all (\<lambda>r. snd r \<le> length sel) (runs sel stop)"
        using 1[OF True start_def False stop_def] by simp
      have "{i. a \<le> i \<and> i < length sel \<and> sel ! i} =
          {start ..< stop} \<union> {i. stop \<le> i \<and> i < length sel \<and> sel ! i}"
        using clear set bounds by (auto simp: not_less not_le)
      then show ?thesis using ih bounds by (simp add: eq)
    qed
  qed
qed

lemma runs_separated:
  "low \<le> a \<or> low = Suc a \<and> (a < length sel \<longrightarrow> \<not> sel ! a) \<Longrightarrow> separated low (runs sel a)"
proof (induction sel a arbitrary: low rule: runs.induct)
  case (1 sel a)
  define start where "start = skip_clear sel a"
  define stop where "stop = skip_set sel start"
  note clear = skip_clear_spec[of a sel, folded start_def]
  note set = skip_set_spec[of start sel, folded stop_def]
  show ?case
  proof (cases "a < length sel \<and> start \<noteq> length sel")
    case False
    then have "runs sel a = []" by (subst runs.simps) (auto simp: start_def Let_def)
    then show ?thesis by simp
  next
    case True
    then have eq: "runs sel a = (start, stop) # runs sel stop"
      by (subst runs.simps) (simp add: start_def stop_def Let_def)
    have start: "start < length sel" "sel ! start" using clear True by auto
    then have "start < stop" unfolding stop_def by (intro skip_set_advances)
    moreover have "low \<le> start"
      using "1.prems" clear start True by (cases "start = a") auto
    moreover have "separated (stop + 1) (runs sel stop)"
      using 1(1)[of start stop "stop + 1"] True set by (simp add: start_def stop_def)
    ultimately show ?thesis by (simp add: eq)
  qed
qed

text \<open>The ranges a dump selects: those asked for, or the bytes the program wrote.\<close>

definition selection :: "CPU \<Rightarrow> MemoryDumpRange list \<Rightarrow> (u32 \<times> u32) list" where
  "selection cpu requested =
     (if requested = [] then map (\<lambda>w. (mw_address w, mw_byte_count w)) (cpu_memory_writes cpu)
      else map (\<lambda>r. (range_start r, range_count r)) requested)"

definition selection_error :: "MemoryDumpRange list \<Rightarrow> cpp_exception" where
  "selection_error requested = Out_of_range
     (if requested = [] then ''recorded memory write exceeds simulated RAM bounds''
      else ''architectural-state memory range exceeds simulated RAM bounds'')"

definition as_range :: "nat \<times> nat \<Rightarrow> MemoryDumpRange" where
  "as_range r = \<lparr>range_start = of_nat (fst r), range_count = of_nat (snd r - fst r)\<rparr>"

lemma normalize_spec:
  assumes "memory_size cpu < 2 ^ 32"
  shows "if ranges_fit (memory_size cpu) (selection cpu requested)
    then \<exists>rs. normalize_memory_ranges cpu requested = Some (Inr (map as_range rs)) \<and>
      separated 0 rs \<and> list_all (\<lambda>r. snd r \<le> memory_size cpu) rs \<and>
      run_bytes rs = covered (selection cpu requested)
    else normalize_memory_ranges cpu requested = Some (Inl (selection_error requested))"
proof -
  let ?n = "memory_size cpu"
  let ?m = "mark_all ?n (selection_error requested) (selection cpu requested) (replicate ?n False)"
  have eq: "normalize_memory_ranges cpu requested =
      out_bind ?m (\<lambda>sel. Some (Inr (map as_range (runs sel 0))))"
    by (auto simp: normalize_memory_ranges_def selection_def selection_error_def as_range_def
        Let_def case_prod_unfold intro!: arg_cong[where f = "out_bind _"])
  note all = mark_all_spec[of "replicate ?n False" ?n "selection cpu requested"
      "selection_error requested"]
  show ?thesis
  proof (cases "ranges_fit ?n (selection cpu requested)")
    case False
    then show ?thesis using all assms by (simp add: eq)
  next
    case True
    then obtain sel where m: "?m = Some (Inr sel)" "length sel = ?n"
      "\<And>i. i < ?n \<Longrightarrow> sel ! i \<longleftrightarrow> i \<in> covered (selection cpu requested)"
      using all assms by auto
    have "covered (selection cpu requested) \<subseteq> {..< ?n}"
      using True by (force simp: covered_def ranges_fit_def list_all_iff)
    then have "run_bytes (runs sel 0) = covered (selection cpu requested)"
      using runs_spec[of sel 0] m by auto
    then show ?thesis
      using True runs_spec[of sel 0] runs_separated[of 0 0 sel] m by (auto simp: eq)
  qed
qed

end
