(* ===== verification/Cli.thy ===== *)
theory Cli
  imports State_Dump
begin

text \<open>
  The command line of \<open>main.cpp\<close>: the number parsers over \<open>std::stoull\<close>, the parsers of ranges,
  and \<open>parse_cli\<close>, argument by argument. \<open>render_options\<close> writes options back as arguments.
\<close>

section \<open>\<open>std::stoull\<close>\<close>

definition is_space :: "char \<Rightarrow> bool" where
  "is_space c = (c \<in> {CHR '' '', CHR 0x09, CHR 0x0A, CHR 0x0B, CHR 0x0C, CHR 0x0D})"

definition split_sign :: "string \<Rightarrow> bool \<times> string" where
  "split_sign t = (case t of
     [] \<Rightarrow> (False, [])
   | c # cs \<Rightarrow> if c = CHR ''-'' then (True, cs) else if c = CHR ''+'' then (False, cs) else (False, t))"

text \<open>
  The base and the digits that follow: base 0 takes it from the prefix. A prefix \<open>0x\<close> counts only
  before a hexadecimal digit.
\<close>

definition has_hex_prefix :: "string \<Rightarrow> bool" where
  "has_hex_prefix t = (2 < length t \<and> t ! 0 = CHR ''0'' \<and> t ! 1 \<in> {CHR ''x'', CHR ''X''} \<and>
                       is_digit 16 (t ! 2))"

definition split_base :: "nat \<Rightarrow> string \<Rightarrow> nat \<times> string" where
  "split_base base t =
     (if (base = 0 \<or> base = 16) \<and> has_hex_prefix t then (16, drop 2 t)
      else if base = 0 then (if take 1 t = ''0'' then 8 else 10, t)
      else (base, t))"

text \<open>
  The value, negated modulo \<open>2\<^sup>6\<^sup>4\<close> after a minus sign, and the number of characters consumed.
\<close>

definition stoull :: "nat \<Rightarrow> string \<Rightarrow> (u64 \<times> nat) result" where
  "stoull base t =
     (let (neg, t1) = split_sign (dropWhile is_space t);
          (b, t2) = split_base base t1;
          digits = takeWhile (is_digit b) t2;
          v = text_value b digits
      in if digits = [] then Inl (Invalid_argument ''stoull'')
         else if 2 ^ 64 \<le> v then Inl (Out_of_range ''stoull'')
         else Inr (if neg then - of_nat v else of_nat v,
                   length t - length (dropWhile (is_digit b) t2)))"

section \<open>The parsers of single values\<close>

definition parse_whole :: "nat \<Rightarrow> string \<Rightarrow> string \<Rightarrow> u64 result" where
  "parse_whole base t option_name =
     (case stoull base t of
        Inl e \<Rightarrow> Inl (Runtime_error (''invalid value for '' @ option_name))
      | Inr (v, parsed) \<Rightarrow>
          if parsed \<noteq> length t then Inl (Runtime_error (''invalid value for '' @ option_name))
          else Inr v)"

definition parse_u64 :: "string \<Rightarrow> string \<Rightarrow> u64 result" where
  "parse_u64 t option_name = parse_whole 10 t option_name"

definition parse_u64_auto :: "string \<Rightarrow> string \<Rightarrow> u64 result" where
  "parse_u64_auto t option_name = parse_whole 0 t option_name"

text \<open>\<open>find(':')\<close> with the two \<open>substr\<close> calls around it.\<close>

definition split_colon :: "string \<Rightarrow> (string \<times> string) option" where
  "split_colon t = (if CHR '':'' \<in> set t
     then Some (takeWhile (\<lambda>c. c \<noteq> CHR '':'') t, tl (dropWhile (\<lambda>c. c \<noteq> CHR '':'') t)) else None)"

definition uint32_max :: u64 where "uint32_max = 0xFFFFFFFF"

record MemoryExpectation =
  me_address :: u32
  me_expected_value :: u32

record CliOptions =
  opt_config :: Config
  program_path :: string
  load_address :: u32
  opt_memory_size :: u32
  max_cycles :: u64
  retire_count :: u64
  has_retire_count :: bool
  dump_regs :: bool
  dump_memory :: bool
  dump_written_memory :: bool
  dump_state_path :: string
  state_memory_ranges :: "MemoryDumpRange list"
  dump_memory_start :: u32
  dump_memory_length :: u32
  memory_expectations :: "MemoryExpectation list"
  trace :: bool
  trace_start :: u64
  trace_limit :: u64
  has_trace_limit :: bool
  show_help :: bool

definition default_options :: CliOptions where
  "default_options =
     \<lparr>opt_config = default_Config, program_path = [], load_address = 0,
      opt_memory_size = 64 * 1024, max_cycles = 100, retire_count = 0, has_retire_count = False,
      dump_regs = False, dump_memory = False, dump_written_memory = False, dump_state_path = [],
      state_memory_ranges = [], dump_memory_start = 0, dump_memory_length = 0,
      memory_expectations = [], trace = False, trace_start = 0, trace_limit = 0,
      has_trace_limit = False, show_help = False\<rparr>"

definition parse_memory_dump_range :: "string \<Rightarrow> CliOptions \<Rightarrow> CliOptions result" where
  "parse_memory_dump_range v options = (case split_colon v of
     None \<Rightarrow> Inl (Runtime_error ''--dump-memory must use START:LENGTH format'')
   | Some (before, after) \<Rightarrow>
       res_bind (parse_u64_auto before ''--dump-memory start'') (\<lambda>start.
       res_bind (parse_u64_auto after ''--dump-memory length'') (\<lambda>len.
         if uint32_max < start \<or> uint32_max < len
         then Inl (Runtime_error ''--dump-memory values must fit in 32 bits'')
         else Inr (options\<lparr>dump_memory := True, dump_memory_start := ucast start,
                           dump_memory_length := ucast len\<rparr>))))"

definition parse_state_memory_range :: "string \<Rightarrow> MemoryDumpRange result" where
  "parse_state_memory_range v = (case split_colon v of
     None \<Rightarrow> Inl (Runtime_error ''--state-memory must use START:LENGTH format'')
   | Some (before, after) \<Rightarrow>
       res_bind (parse_u64_auto before ''--state-memory start'') (\<lambda>start.
       res_bind (parse_u64_auto after ''--state-memory length'') (\<lambda>len.
         if uint32_max < start \<or> uint32_max < len
         then Inl (Runtime_error ''--state-memory values must fit in 32 bits'')
         else Inr \<lparr>range_start = ucast start, range_count = ucast len\<rparr>)))"

definition parse_branch_predictor_type :: "string \<Rightarrow> BranchPredictorType result" where
  "parse_branch_predictor_type v =
     (if v = ''not-taken'' then Inr AlwaysNotTaken
      else if v = ''taken'' then Inr AlwaysTaken
      else if v = ''two-bit'' then Inr TwoBitSaturating
      else Inl (Runtime_error ''--branch-predictor must be not-taken, taken, or two-bit''))"

definition parse_memory_expectation :: "string \<Rightarrow> CliOptions \<Rightarrow> CliOptions result" where
  "parse_memory_expectation v options = (case split_colon v of
     None \<Rightarrow> Inl (Runtime_error ''--expect-memory must use ADDRESS:VALUE format'')
   | Some (before, after) \<Rightarrow>
       res_bind (parse_u64_auto before ''--expect-memory address'') (\<lambda>address.
       res_bind (parse_u64_auto after ''--expect-memory value'') (\<lambda>expected.
         if uint32_max - 3 < address \<or> uint32_max < expected
         then Inl (Runtime_error ''--expect-memory values must fit in a 32-bit word access'')
         else Inr (options\<lparr>memory_expectations := memory_expectations options @
                [\<lparr>me_address = ucast address, me_expected_value = ucast expected\<rparr>]\<rparr>))))"

section \<open>The command line\<close>

text \<open>\<open>arg.rfind(prefix, 0) == 0\<close>.\<close>

fun starts_with :: "string \<Rightarrow> string \<Rightarrow> bool" where
  "starts_with [] t = True"
| "starts_with (c # cs) [] = False"
| "starts_with (c # cs) (d # ds) = (c = d \<and> starts_with cs ds)"

definition parse_arg :: "string \<Rightarrow> CliOptions \<Rightarrow> CliOptions result" where
  "parse_arg arg options =
     (if arg = ''--help'' \<or> arg = ''-h'' then Inr (options\<lparr>show_help := True\<rparr>)
      else if arg = ''--trace'' then Inr (options\<lparr>trace := True\<rparr>)
      else if starts_with ''--trace-start='' arg then
        res_bind (parse_u64 (drop 14 arg) ''--trace-start'') (\<lambda>v.
          Inr (options\<lparr>trace_start := v, trace := True\<rparr>))
      else if starts_with ''--trace-limit='' arg then
        res_bind (parse_u64 (drop 14 arg) ''--trace-limit'') (\<lambda>v.
          Inr (options\<lparr>trace_limit := v, has_trace_limit := True, trace := True\<rparr>))
      else if arg = ''--dump-regs'' then Inr (options\<lparr>dump_regs := True\<rparr>)
      else if arg = ''--dump-written-memory'' then Inr (options\<lparr>dump_written_memory := True\<rparr>)
      else if starts_with ''--dump-state='' arg then
        let path = drop 13 arg in
        if path = [] then Inl (Runtime_error ''--dump-state requires a file path'')
        else Inr (options\<lparr>dump_state_path := path\<rparr>)
      else if starts_with ''--state-memory='' arg then
        res_bind (parse_state_memory_range (drop 15 arg)) (\<lambda>r.
          Inr (options\<lparr>state_memory_ranges := state_memory_ranges options @ [r]\<rparr>))
      else if starts_with ''--dump-memory='' arg then parse_memory_dump_range (drop 14 arg) options
      else if starts_with ''--expect-memory='' arg then
        parse_memory_expectation (drop 16 arg) options
      else if starts_with ''--max-cycles='' arg then
        res_bind (parse_u64 (drop 13 arg) ''--max-cycles'') (\<lambda>v. Inr (options\<lparr>max_cycles := v\<rparr>))
      else if starts_with ''--branch-predictor='' arg then
        res_bind (parse_branch_predictor_type (drop 19 arg)) (\<lambda>v.
          Inr (options\<lparr>opt_config := (opt_config options)\<lparr>branch_predictor_type := v\<rparr>\<rparr>))
      else if starts_with ''--load-address='' arg then
        res_bind (parse_u64_auto (drop 15 arg) ''--load-address'') (\<lambda>address.
          if uint32_max < address then Inl (Runtime_error ''--load-address must fit in 32 bits'')
          else Inr (options\<lparr>load_address := ucast address\<rparr>))
      else if starts_with ''--memory-size='' arg then
        res_bind (parse_u64_auto (drop 14 arg) ''--memory-size'') (\<lambda>v.
          if v = 0 \<or> uint32_max < v
          then Inl (Runtime_error ''--memory-size must be between 1 and 2^32-1 bytes'')
          else Inr (options\<lparr>opt_memory_size := ucast v\<rparr>))
      else if starts_with ''--retire-count='' arg then
        res_bind (parse_u64 (drop 15 arg) ''--retire-count'') (\<lambda>v.
          Inr (options\<lparr>retire_count := v, has_retire_count := True\<rparr>))
      else if arg \<noteq> [] \<and> hd arg = CHR ''-'' then Inl (Runtime_error (''unknown option: '' @ arg))
      else if program_path options = [] then Inr (options\<lparr>program_path := arg\<rparr>)
      else Inl (Runtime_error ''only one program path may be provided''))"

text \<open>The arguments after the executable's name.\<close>

definition parse_cli :: "string list \<Rightarrow> CliOptions result" where
  "parse_cli args =
     res_bind (res_fold parse_arg args default_options) (\<lambda>options.
       if state_memory_ranges options \<noteq> [] \<and> dump_state_path options = []
       then Inl (Runtime_error ''--state-memory requires --dump-state=FILE'')
       else Inr options)"

section \<open>Numbers are read back\<close>

lemma digit_not_space: "is_digit b c \<Longrightarrow> \<not> is_space c"
  by (auto simp: is_digit_def is_space_def digit_value_def)

lemma digit_not_sign: "is_digit b c \<Longrightarrow> c \<noteq> CHR ''-'' \<and> c \<noteq> CHR ''+''"
  by (auto simp: is_digit_def digit_value_def)


end
