(* ===== verification/Cli_Roundtrip.thy ===== *)
theory Cli_Roundtrip
  imports Cli
begin

text \<open>
  Options written as arguments are parsed back, and the options the parser can return are exactly
  those that can be written: the well-formed ones.
\<close>

section \<open>Numbers\<close>

lemma u32_bound: "unat (v :: u32) < 2 ^ 32"
  by (rule order_less_le_trans[OF unsigned_less]) simp

lemma u64_bound: "unat (v :: u64) < 2 ^ 64"
  by (rule order_less_le_trans[OF unsigned_less]) simp

lemma nat_text_all:
  assumes "2 \<le> b" "b \<le> 16"
  shows "c \<in> set (nat_text b n) \<Longrightarrow> is_digit b c" "nat_text b n \<noteq> []"
  using nat_text_digits[OF assms, of n] by (auto simp: list_all_iff)

lemma takeWhile_digits [simp]:
  assumes "2 \<le> b" "b \<le> 16"
  shows "takeWhile (is_digit b) (nat_text b n) = nat_text b n"
    "dropWhile (is_digit b) (nat_text b n) = []"
  using nat_text_all(1)[OF assms] by (simp_all add: takeWhile_eq_all_conv)

lemma nat_text_Cons:
  assumes "2 \<le> b" "b \<le> 16"
  obtains c cs where "nat_text b n = c # cs" "is_digit b c"
proof (cases "nat_text b n")
  case Nil
  then show ?thesis using nat_text_all(2)[OF assms] by simp
next
  case (Cons c cs)
  then show ?thesis using that nat_text_all(1)[OF assms, of c n] by simp
qed

lemma nat_text_first:
  assumes "2 \<le> b" "b \<le> 16"
  shows "0 < n \<Longrightarrow> hd (nat_text b n) \<noteq> CHR ''0''"
proof (induction n rule: less_induct)
  case (less n)
  show ?case
  proof (cases "n < b")
    case True
    have "digit_value (digit_char n) = Some n" using True assms(2) by (intro digit_char_value) simp
    moreover have "digit_value (CHR ''0'') = Some 0" by (simp add: digit_value_def)
    ultimately have "digit_char n \<noteq> CHR ''0''" using less.prems by auto
    then show ?thesis using True assms(1) by (subst nat_text.simps) simp
  next
    case False
    then have "hd (nat_text b (n div b)) \<noteq> CHR ''0''"
      using assms by (intro less.IH) (simp_all add: div_greater_zero_iff)
    then show ?thesis
      using False assms nat_text_all(2)[OF assms] by (subst nat_text.simps) simp
  qed
qed

lemma stoull_decimal:
  assumes "n < 2 ^ 64" "base \<in> {0, 10}" "base = 0 \<longrightarrow> 0 < n"
  shows "stoull base (nat_text 10 n) = Inr (of_nat n, length (nat_text 10 n))"
proof -
  obtain c cs where c: "nat_text 10 n = c # cs" "is_digit 10 c" using nat_text_Cons[of 10 n] by auto
  have start: "split_sign (dropWhile is_space (nat_text 10 n)) = (False, nat_text 10 n)"
    using digit_not_space[OF c(2)] digit_not_sign[OF c(2)] by (simp add: c(1) split_sign_def)
  have "\<not> has_hex_prefix (nat_text 10 n)"
  proof
    assume hex: "has_hex_prefix (nat_text 10 n)"
    then have "nat_text 10 n ! 1 \<in> set (nat_text 10 n)" by (simp add: has_hex_prefix_def)
    then have "is_digit 10 (nat_text 10 n ! 1)" by (rule nat_text_all(1)[rotated 2]) simp_all
    then show False using hex by (auto simp: has_hex_prefix_def is_digit_def digit_value_def)
  qed
  moreover have "take 1 (nat_text 10 n) \<noteq> ''0''" if "0 < n"
    using nat_text_first[of 10 n] that by (simp add: c(1))
  ultimately have "split_base base (nat_text 10 n) = (10, nat_text 10 n)"
    using assms(2,3) by (auto simp: split_base_def)
  then show ?thesis
    using assms(1) nat_text_all(2)[of 10 n] by (simp add: stoull_def start text_value_nat_text)
qed

definition hex_text :: "nat \<Rightarrow> string" where
  "hex_text n = ''0x'' @ nat_text 16 n"

lemma stoull_hex:
  assumes "n < 2 ^ 64"
  shows "stoull 0 (hex_text n) = Inr (of_nat n, length (hex_text n))"
proof -
  obtain c cs where c: "nat_text 16 n = c # cs" "is_digit 16 c" using nat_text_Cons[of 16 n] by auto
  have start: "split_sign (dropWhile is_space (hex_text n)) = (False, hex_text n)"
    by (simp add: hex_text_def split_sign_def is_space_def)
  have "split_base 0 (hex_text n) = (16, nat_text 16 n)"
    using c by (simp add: hex_text_def split_base_def has_hex_prefix_def)
  then show ?thesis
    using assms nat_text_all(2)[of 16 n] by (simp add: stoull_def start text_value_nat_text)
qed

lemma parse_u64_decimal: "n < 2 ^ 64 \<Longrightarrow> parse_u64 (nat_text 10 n) name = Inr (of_nat n)"
  by (simp add: parse_u64_def parse_whole_def stoull_decimal)

lemma parse_u64_auto_decimal:
  "n < 2 ^ 64 \<Longrightarrow> 0 < n \<Longrightarrow> parse_u64_auto (nat_text 10 n) name = Inr (of_nat n)"
  by (simp add: parse_u64_auto_def parse_whole_def stoull_decimal)

lemma parse_u64_auto_hex: "n < 2 ^ 64 \<Longrightarrow> parse_u64_auto (hex_text n) name = Inr (of_nat n)"
  by (simp add: parse_u64_auto_def parse_whole_def stoull_hex)

lemma parse_u64_word: "parse_u64 (nat_text 10 (unat (v :: u64))) name = Inr v"
  using u64_bound[of v] by (subst parse_u64_decimal) simp_all

lemma parse_u64_auto_word:
  "parse_u64_auto (hex_text (unat (v :: u32))) name = Inr (ucast v)"
proof -
  have "unat v < 2 ^ 64" using u32_bound[of v] by simp
  moreover have "(of_nat (unat v) :: u64) = ucast v" by simp
  ultimately show ?thesis by (simp only: parse_u64_auto_hex)
qed

text \<open>A minus sign is accepted, and negates modulo \<open>2\<^sup>6\<^sup>4\<close>.\<close>

lemma parse_u64_minus:
  assumes "n < 2 ^ 64"
  shows "parse_u64 (CHR ''-'' # nat_text 10 n) name = Inr (- of_nat n)"
proof -
  have start: "split_sign (CHR ''-'' # nat_text 10 n) = (True, nat_text 10 n)"
    "\<not> is_space (CHR ''-'')"
    by (simp_all add: split_sign_def is_space_def)
  have "split_base 10 (nat_text 10 n) = (10, nat_text 10 n)" by (simp add: split_base_def)
  then have "stoull 10 (CHR ''-'' # nat_text 10 n) =
      Inr (- of_nat n, length (CHR ''-'' # nat_text 10 n))"
    using assms nat_text_all(2)[of 10 n] by (simp add: stoull_def start text_value_nat_text)
  then show ?thesis by (simp add: parse_u64_def parse_whole_def)
qed

section \<open>Ranges\<close>

lemma split_colon_append:
  "CHR '':'' \<notin> set a \<Longrightarrow> split_colon (a @ CHR '':'' # b) = Some (a, b)"
  by (auto simp: split_colon_def takeWhile_append2 takeWhile_tail dropWhile_append)

lemma hex_text_no_colon: "CHR '':'' \<notin> set (hex_text n)"
  using nat_text_all(1)[of 16 "CHR '':''" n] by (auto simp: hex_text_def is_digit_def digit_value_def)

definition pair_text :: "u32 \<Rightarrow> u32 \<Rightarrow> string" where
  "pair_text a b = hex_text (unat a) @ CHR '':'' # hex_text (unat b)"

lemma split_pair_text: "split_colon (pair_text a b) = Some (hex_text (unat a), hex_text (unat b))"
  by (simp add: pair_text_def split_colon_append hex_text_no_colon)

lemma uint32_max_bound: "\<not> uint32_max < ucast (v :: u32)"
proof -
  have "unat (ucast v :: u64) \<le> 0xFFFFFFFF" using u32_bound[of v]
    by (simp add: unsigned_ucast_eq take_bit_nat_eq_self)
  then show ?thesis by (simp add: uint32_max_def word_less_nat_alt)
qed

section \<open>Well-formed options\<close>

definition options_shape :: "CliOptions \<Rightarrow> bool" where
  "options_shape opts \<longleftrightarrow> opt_memory_size opts \<noteq> 0 \<and> enable_forwarding (opt_config opts) \<and>
     (\<not> has_retire_count opts \<longrightarrow> retire_count opts = 0) \<and>
     (\<not> dump_memory opts \<longrightarrow> dump_memory_start opts = 0 \<and> dump_memory_length opts = 0) \<and>
     list_all (\<lambda>e. me_address e \<le> 0xFFFFFFFC) (memory_expectations opts) \<and>
     (\<not> has_trace_limit opts \<longrightarrow> trace_limit opts = 0) \<and> (has_trace_limit opts \<longrightarrow> trace opts) \<and>
     (\<not> trace opts \<longrightarrow> trace_start opts = 0) \<and>
     (program_path opts \<noteq> [] \<longrightarrow> hd (program_path opts) \<noteq> CHR ''-'')"

definition options_ok :: "CliOptions \<Rightarrow> bool" where
  "options_ok opts \<longleftrightarrow> options_shape opts \<and>
     (state_memory_ranges opts \<noteq> [] \<longrightarrow> dump_state_path opts \<noteq> [])"

lemma unat_ucast_small:
  assumes "(v :: u64) \<le> uint32_max"
  shows "unat (ucast v :: u32) = unat v"
  using assms
  by (simp add: unsigned_ucast_eq take_bit_nat_eq_self word_le_nat_alt uint32_max_def)

lemma default_options_shape: "options_shape default_options"
  by (simp add: options_shape_def default_options_def default_Config_def)

lemma parse_memory_dump_rangeD:
  assumes "parse_memory_dump_range v opts = Inr opts'"
  shows "\<exists>s l. opts' = opts\<lparr>dump_memory := True, dump_memory_start := s, dump_memory_length := l\<rparr>"
proof (cases "split_colon v")
  case None
  then show ?thesis using assms by (simp only: parse_memory_dump_range_def option.case sum.distinct)
next
  case (Some r)
  obtain a b where r: "r = (a, b)" by (cases r)
  show ?thesis using assms
    unfolding parse_memory_dump_range_def Some r option.case prod.case
    by (auto simp only: res_bind_eq_Inr sum.inject sum.distinct split: if_splits)
qed

lemma parse_memory_expectationD:
  assumes "parse_memory_expectation v opts = Inr opts'"
  shows "\<exists>e. opts' = opts\<lparr>memory_expectations := memory_expectations opts @ [e]\<rparr> \<and>
    me_address e \<le> 0xFFFFFFFC"
proof (cases "split_colon v")
  case None
  then show ?thesis using assms by (simp only: parse_memory_expectation_def option.case sum.distinct)
next
  case (Some r)
  obtain a b where r: "r = (a, b)" by (cases r)
  obtain x y where xy: "\<not> (uint32_max - 3 < x \<or> uint32_max < y)"
    "opts' = opts\<lparr>memory_expectations := memory_expectations opts @
       [\<lparr>me_address = ucast x, me_expected_value = ucast y\<rparr>]\<rparr>"
    using assms unfolding parse_memory_expectation_def Some r option.case prod.case
    by (auto simp only: res_bind_eq_Inr sum.inject sum.distinct split: if_splits)
  have "x \<le> 0xFFFFFFFC" using xy(1) by (simp add: uint32_max_def not_less)
  moreover from this have "x \<le> uint32_max" by (rule order_trans) (simp add: uint32_max_def)
  ultimately have "(ucast x :: u32) \<le> 0xFFFFFFFC"
    by (simp add: word_le_nat_alt unat_ucast_small)
  then show ?thesis using xy(2) by auto
qed

lemma ucast_nonzero:
  assumes "v \<noteq> 0" "\<not> uint32_max < (v :: u64)"
  shows "(ucast v :: u32) \<noteq> 0"
  using assms unat_ucast_small[of v] by (metis not_le unat_eq_zero)

lemma shape_updates:
  assumes "options_shape opts"
  shows "options_shape (opts\<lparr>show_help := True\<rparr>)" "options_shape (opts\<lparr>trace := True\<rparr>)"
    "options_shape (opts\<lparr>trace_start := v, trace := True\<rparr>)"
    "options_shape (opts\<lparr>trace_limit := v, has_trace_limit := True, trace := True\<rparr>)"
    "options_shape (opts\<lparr>dump_regs := True\<rparr>)" "options_shape (opts\<lparr>dump_written_memory := True\<rparr>)"
    "options_shape (opts\<lparr>dump_state_path := p\<rparr>)" "options_shape (opts\<lparr>state_memory_ranges := rs\<rparr>)"
    "options_shape (opts\<lparr>dump_memory := True, dump_memory_start := a, dump_memory_length := b\<rparr>)"
    "me_address e \<le> 0xFFFFFFFC \<Longrightarrow>
      options_shape (opts\<lparr>memory_expectations := memory_expectations opts @ [e]\<rparr>)"
    "options_shape (opts\<lparr>max_cycles := v\<rparr>)" "options_shape (opts\<lparr>load_address := a\<rparr>)"
    "options_shape (opts\<lparr>opt_config := (opt_config opts)\<lparr>branch_predictor_type := t\<rparr>\<rparr>)"
    "w \<noteq> 0 \<Longrightarrow> \<not> uint32_max < w \<Longrightarrow> options_shape (opts\<lparr>opt_memory_size := ucast w\<rparr>)"
    "options_shape (opts\<lparr>retire_count := v, has_retire_count := True\<rparr>)"
    "p = [] \<or> hd p \<noteq> CHR ''-'' \<Longrightarrow> options_shape (opts\<lparr>program_path := p\<rparr>)"
  using assms ucast_nonzero[of w] by (auto simp: options_shape_def)

lemma parse_arg_shape:
  assumes "parse_arg arg opts = Inr opts'" "options_shape opts"
  shows "options_shape opts'"
  using assms(1) unfolding parse_arg_def Let_def
  by (auto simp only: res_bind_eq_Inr sum.inject sum.distinct not_not de_Morgan_conj de_Morgan_disj
      intro!: shape_updates[OF assms(2)]
      dest!: parse_memory_dump_rangeD parse_memory_expectationD split: if_splits)

lemma parse_args_shape:
  "res_fold parse_arg args opts = Inr opts' \<Longrightarrow> options_shape opts \<Longrightarrow> options_shape opts'"
  by (induction args arbitrary: opts) (auto simp: res_bind_eq_Inr dest: parse_arg_shape)

lemma parse_cli_options_ok:
  assumes "parse_cli args = Inr opts"
  shows "options_ok opts"
proof -
  have "res_fold parse_arg args default_options = Inr opts"
    "\<not> (state_memory_ranges opts \<noteq> [] \<and> dump_state_path opts = [])"
    using assms unfolding parse_cli_def
    by (auto simp only: res_bind_eq_Inr sum.inject sum.distinct split: if_splits)
  then show ?thesis
    using parse_args_shape default_options_shape unfolding options_ok_def by blast
qed

section \<open>Writing options as arguments\<close>

fun predictor_option :: "BranchPredictorType \<Rightarrow> string" where
  "predictor_option AlwaysNotTaken = ''not-taken''"
| "predictor_option AlwaysTaken = ''taken''"
| "predictor_option TwoBitSaturating = ''two-bit''"

definition state_memory_arg :: "MemoryDumpRange \<Rightarrow> string" where
  "state_memory_arg r = ''--state-memory='' @ pair_text (range_start r) (range_count r)"

definition expect_memory_arg :: "MemoryExpectation \<Rightarrow> string" where
  "expect_memory_arg e = ''--expect-memory='' @ pair_text (me_address e) (me_expected_value e)"

definition arg_if :: "bool \<Rightarrow> string \<Rightarrow> string list" where
  "arg_if b arg = (if b then [arg] else [])"

definition render_options :: "CliOptions \<Rightarrow> string list" where
  "render_options opts =
     arg_if (show_help opts) ''--help'' @
     arg_if (trace opts) (''--trace-start='' @ nat_text 10 (unat (trace_start opts))) @
     arg_if (has_trace_limit opts) (''--trace-limit='' @ nat_text 10 (unat (trace_limit opts))) @
     arg_if (dump_regs opts) ''--dump-regs'' @
     arg_if (dump_written_memory opts) ''--dump-written-memory'' @
     arg_if (dump_state_path opts \<noteq> []) (''--dump-state='' @ dump_state_path opts) @
     map state_memory_arg (state_memory_ranges opts) @
     arg_if (dump_memory opts)
       (''--dump-memory='' @ pair_text (dump_memory_start opts) (dump_memory_length opts)) @
     map expect_memory_arg (memory_expectations opts) @
     [''--max-cycles='' @ nat_text 10 (unat (max_cycles opts)),
      ''--branch-predictor='' @ predictor_option (branch_predictor_type (opt_config opts)),
      ''--load-address='' @ hex_text (unat (load_address opts)),
      ''--memory-size='' @ hex_text (unat (opt_memory_size opts))] @
     arg_if (has_retire_count opts) (''--retire-count='' @ nat_text 10 (unat (retire_count opts))) @
     arg_if (program_path opts \<noteq> []) (program_path opts)"

lemma ucast_back: "(ucast (ucast (a :: u32) :: u64) :: u32) = a"
  by (rule bit_word_eqI) (simp add: bit_simps)

lemma ucast_zero: "(ucast (b :: u32) :: u64) = 0 \<longleftrightarrow> b = 0"
  using ucast_back[of b] by (metis ucast_0)

lemma parse_flags:
  "parse_arg ''--help'' opts = Inr (opts\<lparr>show_help := True\<rparr>)"
  "parse_arg ''--dump-regs'' opts = Inr (opts\<lparr>dump_regs := True\<rparr>)"
  "parse_arg ''--dump-written-memory'' opts = Inr (opts\<lparr>dump_written_memory := True\<rparr>)"
  by (simp_all add: parse_arg_def)

lemma parse_counts:
  "parse_arg (''--trace-start='' @ nat_text 10 (unat v)) opts =
     Inr (opts\<lparr>trace_start := v, trace := True\<rparr>)"
  "parse_arg (''--trace-limit='' @ nat_text 10 (unat v)) opts =
     Inr (opts\<lparr>trace_limit := v, has_trace_limit := True, trace := True\<rparr>)"
  "parse_arg (''--max-cycles='' @ nat_text 10 (unat v)) opts = Inr (opts\<lparr>max_cycles := v\<rparr>)"
  "parse_arg (''--retire-count='' @ nat_text 10 (unat v)) opts =
     Inr (opts\<lparr>retire_count := v, has_retire_count := True\<rparr>)"
  by (simp_all add: parse_arg_def parse_u64_word)

lemma parse_sizes:
  "parse_arg (''--load-address='' @ hex_text (unat a)) opts = Inr (opts\<lparr>load_address := a\<rparr>)"
  "b \<noteq> 0 \<Longrightarrow>
     parse_arg (''--memory-size='' @ hex_text (unat b)) opts = Inr (opts\<lparr>opt_memory_size := b\<rparr>)"
  by (simp_all add: parse_arg_def parse_u64_auto_word uint32_max_bound ucast_back ucast_zero)

lemma parse_predictor_option:
  "parse_arg (''--branch-predictor='' @ predictor_option t) opts =
     Inr (opts\<lparr>opt_config := (opt_config opts)\<lparr>branch_predictor_type := t\<rparr>\<rparr>)"
  by (cases t) (simp_all add: parse_arg_def parse_branch_predictor_type_def)

lemma parse_dump_state:
  "p \<noteq> [] \<Longrightarrow> parse_arg (''--dump-state='' @ p) opts = Inr (opts\<lparr>dump_state_path := p\<rparr>)"
  by (simp add: parse_arg_def Let_def)

lemma parse_state_memory:
  "parse_arg (state_memory_arg r) opts =
     Inr (opts\<lparr>state_memory_ranges := state_memory_ranges opts @ [r]\<rparr>)"
  by (simp add: state_memory_arg_def parse_arg_def parse_state_memory_range_def split_pair_text
      parse_u64_auto_word uint32_max_bound ucast_back)

lemma parse_dump_memory:
  "parse_arg (''--dump-memory='' @ pair_text a b) opts =
     Inr (opts\<lparr>dump_memory := True, dump_memory_start := a, dump_memory_length := b\<rparr>)"
  by (simp add: parse_arg_def parse_memory_dump_range_def split_pair_text parse_u64_auto_word
      uint32_max_bound ucast_back)

lemma parse_expect_memory:
  assumes "me_address e \<le> 0xFFFFFFFC"
  shows "parse_arg (expect_memory_arg e) opts =
    Inr (opts\<lparr>memory_expectations := memory_expectations opts @ [e]\<rparr>)"
proof -
  have "unat (ucast (me_address e) :: u64) \<le> 0xFFFFFFFC"
    using assms u32_bound[of "me_address e"]
    by (simp add: unsigned_ucast_eq take_bit_nat_eq_self word_le_nat_alt)
  then have "\<not> uint32_max - 3 < ucast (me_address e)"
    by (simp add: uint32_max_def word_less_nat_alt)
  then show ?thesis
    by (simp add: expect_memory_arg_def parse_arg_def parse_memory_expectation_def split_pair_text
        parse_u64_auto_word uint32_max_bound ucast_back)
qed

lemma parse_path:
  assumes "p \<noteq> []" "hd p \<noteq> CHR ''-''" "program_path opts = []"
  shows "parse_arg p opts = Inr (opts\<lparr>program_path := p\<rparr>)"
proof -
  obtain c cs where p: "p = c # cs" "c \<noteq> CHR ''-''" using assms(1,2) by (cases p) auto
  then show ?thesis using assms(3) by (simp add: parse_arg_def)
qed

section \<open>The round trip\<close>

text \<open>The equations for one argument, with the literals written out as the simplifier has them.\<close>

lemmas parse_steps = parse_flags parse_counts[simplified] parse_sizes[simplified]
  parse_predictor_option[simplified] parse_dump_state[simplified] parse_dump_memory[simplified]

lemma parse_map:
  assumes "\<And>x opts. x \<in> set xs \<Longrightarrow> parse_arg (f x) opts = Inr (g x opts)"
  shows "res_fold parse_arg (map f xs) opts = Inr (fold g xs opts)"
  using assms by (induction xs arbitrary: opts) simp_all

lemma fold_ranges:
  "fold (\<lambda>r opts. opts\<lparr>state_memory_ranges := state_memory_ranges opts @ [r]\<rparr>) rs opts =
   opts\<lparr>state_memory_ranges := state_memory_ranges opts @ rs\<rparr>"
  by (induction rs arbitrary: opts) simp_all

lemma fold_expectations:
  "fold (\<lambda>e opts. opts\<lparr>memory_expectations := memory_expectations opts @ [e]\<rparr>) es opts =
   opts\<lparr>memory_expectations := memory_expectations opts @ es\<rparr>"
  by (induction es arbitrary: opts) simp_all

lemma parse_if:
  assumes "b \<Longrightarrow> parse_arg arg opts = Inr opts'" "\<not> b \<Longrightarrow> opts' = opts"
  shows "res_fold parse_arg (arg_if b arg) opts = Inr opts'"
  using assms by (simp add: arg_if_def)

lemma res_fold_chain:
  "res_fold f xs s = Inr t \<Longrightarrow> res_fold f ys t = r \<Longrightarrow> res_fold f (xs @ ys) s = r"
  by (simp add: res_fold_append)

lemma parse_render:
  assumes "options_ok opts"
  shows "parse_cli (render_options opts) = Inr opts"
proof -
  have shape: "options_shape opts" and dump: "state_memory_ranges opts \<noteq> [] \<longrightarrow> dump_state_path opts \<noteq> []"
    using assms by (simp_all add: options_ok_def)
  note s = shape[unfolded options_shape_def]
  define o1 where "o1 = default_options\<lparr>show_help := show_help opts, trace := trace opts,
    trace_start := trace_start opts, trace_limit := trace_limit opts,
    has_trace_limit := has_trace_limit opts\<rparr>"
  have 1: "res_fold parse_arg
      (arg_if (show_help opts) ''--help'' @
       arg_if (trace opts) (''--trace-start='' @ nat_text 10 (unat (trace_start opts))) @
       arg_if (has_trace_limit opts) (''--trace-limit='' @ nat_text 10 (unat (trace_limit opts))))
      default_options = Inr o1"
    using s
    by (cases "show_help opts"; cases "trace opts"; cases "has_trace_limit opts")
      (simp_all add: res_fold_append arg_if_def parse_steps o1_def default_options_def)
  define o2 where "o2 = o1\<lparr>dump_regs := dump_regs opts, dump_written_memory := dump_written_memory opts,
    dump_state_path := dump_state_path opts\<rparr>"
  have 2: "res_fold parse_arg
      (arg_if (dump_regs opts) ''--dump-regs'' @
       arg_if (dump_written_memory opts) ''--dump-written-memory'' @
       arg_if (dump_state_path opts \<noteq> []) (''--dump-state='' @ dump_state_path opts)) o1 = Inr o2"
    by (cases "dump_regs opts"; cases "dump_written_memory opts"; cases "dump_state_path opts = []")
      (simp_all add: res_fold_append arg_if_def parse_steps o2_def o1_def
        default_options_def)
  define o3 where "o3 = o2\<lparr>state_memory_ranges := state_memory_ranges opts,
    dump_memory := dump_memory opts, dump_memory_start := dump_memory_start opts,
    dump_memory_length := dump_memory_length opts, memory_expectations := memory_expectations opts\<rparr>"
  have 3: "res_fold parse_arg
      (map state_memory_arg (state_memory_ranges opts) @
       arg_if (dump_memory opts)
         (''--dump-memory='' @ pair_text (dump_memory_start opts) (dump_memory_length opts)) @
       map expect_memory_arg (memory_expectations opts)) o2 = Inr o3"
    using s
    by (cases "dump_memory opts")
      (simp_all add: res_fold_append arg_if_def parse_steps
        parse_map[OF parse_state_memory] parse_map[OF parse_expect_memory] fold_ranges
        fold_expectations list_all_iff o3_def o2_def o1_def default_options_def)
  have 4: "res_fold parse_arg
      ([''--max-cycles='' @ nat_text 10 (unat (max_cycles opts)),
        ''--branch-predictor='' @ predictor_option (branch_predictor_type (opt_config opts)),
        ''--load-address='' @ hex_text (unat (load_address opts)),
        ''--memory-size='' @ hex_text (unat (opt_memory_size opts))] @
       arg_if (has_retire_count opts) (''--retire-count='' @ nat_text 10 (unat (retire_count opts))) @
       arg_if (program_path opts \<noteq> []) (program_path opts)) o3 = Inr opts"
    using s
    by (cases "has_retire_count opts"; cases "program_path opts = []"; cases opts; cases "opt_config opts")
      (simp_all add: res_fold_append arg_if_def parse_steps
        parse_path o3_def o2_def o1_def default_options_def default_Config_def)
  have "res_fold parse_arg (render_options opts) default_options = Inr opts"
    using res_fold_chain[OF 1 res_fold_chain[OF 2 res_fold_chain[OF 3 4]]]
    by (simp only: render_options_def append_assoc)
  then show ?thesis using dump unfolding parse_cli_def by (simp only: res_bind_simps) auto
qed

end
