(* ===== verification/Program_Loader.thy ===== *)
theory Program_Loader
  imports Cpu
begin

text \<open>
  \<open>include/program_loader.hpp\<close> and \<open>src/program_loader.cpp\<close>, with the built-in demonstration
  program of \<open>main.cpp\<close>. The file system is a parameter: the bytes of a path, or none if the
  path cannot be opened.
\<close>

unbundle bit_operations_syntax

record LoadedProgram =
  lp_bytes :: "u8 list"
  lp_instruction_count :: u64

definition empty_program :: LoadedProgram where
  "empty_program = \<lparr>lp_bytes = [], lp_instruction_count = 0\<rparr>"

definition load_binary_program :: "(string \<Rightarrow> u8 list option) \<Rightarrow> string \<Rightarrow> LoadedProgram result" where
  "load_binary_program files path = (case files path of
     None \<Rightarrow> Inl (Runtime_error (''failed to open binary program: '' @ path))
   | Some contents \<Rightarrow>
       let program = empty_program\<lparr>lp_bytes := contents\<rparr> in
       if lp_bytes program = [] then Inl (Runtime_error ''binary program contains no instructions'')
       else if length (lp_bytes program) mod 4 \<noteq> 0
       then Inl (Runtime_error ''binary program byte count must be a multiple of 4'')
       else Inr (program\<lparr>lp_instruction_count := of_nat (length (lp_bytes program) div 4)\<rparr>))"

record DemoInstruction =
  encoding :: u32
  assembly :: string

definition kDemoProgram :: "DemoInstruction list" where
  "kDemoProgram =
     [\<lparr>encoding = 0x00500093, assembly = ''addi x1, x0, 5''\<rparr>,
      \<lparr>encoding = 0x00700113, assembly = ''addi x2, x0, 7''\<rparr>,
      \<lparr>encoding = 0x002081B3, assembly = ''add x3, x1, x2''\<rparr>]"

definition append_word_little_endian :: "u8 list \<Rightarrow> u32 \<Rightarrow> u8 list" where
  "append_word_little_endian bytes w =
     bytes @ [ucast (w AND 0xFF), ucast (drop_bit 8 w AND 0xFF), ucast (drop_bit 16 w AND 0xFF),
              ucast (drop_bit 24 w AND 0xFF)]"

definition make_demo_program :: LoadedProgram where
  "make_demo_program = foldl (\<lambda>program i.
     program\<lparr>lp_bytes := append_word_little_endian (lp_bytes program) (encoding i),
             lp_instruction_count := lp_instruction_count program + 1\<rparr>) empty_program kDemoProgram"

lemma append_word_le_bytes: "append_word_little_endian bytes w = bytes @ le_bytes 4 w"
  by (simp add: append_word_little_endian_def low_byte numeral_eq_Suc)

lemma load_binary_program_iff:
  "load_binary_program files path = Inr program \<longleftrightarrow>
     (\<exists>contents. files path = Some contents \<and> contents \<noteq> [] \<and> 4 dvd length contents \<and>
        program = \<lparr>lp_bytes = contents, lp_instruction_count = of_nat (length contents div 4)\<rparr>)"
  by (auto simp: load_binary_program_def empty_program_def Let_def dvd_eq_mod_eq_0
      split: option.splits)

end
