(* ===== verification/State_Json.thy ===== *)
theory State_Json
  imports State_Dump
begin

text \<open>
  The text of the canonical JSON in closed form, and what it determines: the ranges it lists are
  the unique maximal runs of the selected bytes, and two states have the same text exactly when
  they agree on what is printed.
\<close>

section \<open>The merged ranges are canonical\<close>

lemma separated_low: "separated low rs \<Longrightarrow> i \<in> run_bytes rs \<Longrightarrow> low \<le> i"
proof (induction low rs rule: separated.induct)
  case (2 low start stop rs)
  then show ?case by (cases "i \<in> run_bytes rs") auto
qed simp

lemma separated_first_le:
  assumes "separated low ((a, b) # rs)" "separated low' ((c, d) # rs')"
    and "run_bytes ((a, b) # rs) = run_bytes ((c, d) # rs')"
  shows "c \<le> a" "d \<le> b"
proof -
  have "a \<in> run_bytes ((c, d) # rs')" using assms(1) unfolding assms(3)[symmetric] by simp
  then show "c \<le> a" using assms(2) separated_low[of "d + 1" rs' a] by auto
  have "b \<notin> run_bytes ((a, b) # rs)" using assms(1) separated_low[of "b + 1" rs b] by auto
  then have "b \<notin> {c ..< d}" unfolding assms(3) by simp
  moreover have "c \<in> run_bytes ((a, b) # rs)" using assms(2) unfolding assms(3) by simp
  then have "a \<le> c" using assms(1) separated_low[of "b + 1" rs c] by auto
  then have "c < b" using \<open>c \<le> a\<close> assms(1) by simp
  ultimately show "d \<le> b" by simp
qed

lemma separated_rest:
  assumes "separated low ((a, b) # rs)"
  shows "run_bytes rs = {i \<in> run_bytes ((a, b) # rs). b < i}"
  using assms separated_low[of "b + 1" rs] by force

lemma separated_unique:
  "separated low rs \<Longrightarrow> separated low' rs' \<Longrightarrow> run_bytes rs = run_bytes rs' \<Longrightarrow> rs = rs'"
proof (induction rs arbitrary: rs' low low')
  case Nil
  then show ?case by (cases rs') auto
next
  case (Cons r rs)
  obtain a b where r: "r = (a, b)" by (cases r)
  have "a \<in> run_bytes rs'" using Cons.prems(1) unfolding Cons.prems(3)[symmetric] r by simp
  then obtain c d rs2 where rs': "rs' = (c, d) # rs2" by (cases rs') auto
  note eqs = Cons.prems[unfolded r rs']
  have ab: "a = c" "b = d"
    using separated_first_le[OF eqs] separated_first_le[OF eqs(2,1) eqs(3)[symmetric]] by simp_all
  have "run_bytes rs = {i \<in> run_bytes ((a, b) # rs). b < i}" by (rule separated_rest[OF eqs(1)])
  also have "\<dots> = {i \<in> run_bytes ((c, d) # rs2). d < i}" unfolding eqs(3) by (simp only: ab)
  also have "\<dots> = run_bytes rs2" by (rule separated_rest[OF eqs(2), symmetric])
  finally have "rs = rs2"
    using Cons.IH[of "b + 1" "d + 1" rs2] eqs(1,2) by simp
  then show ?case by (simp add: r rs' ab)
qed

section \<open>The text\<close>

definition register_text :: "nat \<Rightarrow> u32 \<Rightarrow> string" where
  "register_text reg v = ''    '' @ quote @ ''x'' @ field 10 2 reg @ quote @ '': '' @ quote @ ''0x'' @
     field 16 8 (unat v) @ quote @ (if reg + 1 = 32 then newline else '','' @ newline)"

definition chunk_text :: "u32 \<times> u8 list \<Rightarrow> string" where
  "chunk_text c = ''    {'' @ quote @ ''start'' @ quote @ '': '' @ quote @ ''0x'' @
     field 16 8 (unat (fst c)) @ quote @ '', '' @ quote @ ''length'' @ quote @ '': '' @
     nat_text 10 (length (snd c)) @ '', '' @ quote @ ''bytes'' @ quote @ '': '' @ quote @
     concat (map (\<lambda>i. field 16 2 (unat (snd c ! i))) [0..<length (snd c)]) @ quote @ ''}''"

fun chunks_text :: "(u32 \<times> u8 list) list \<Rightarrow> string" where
  "chunks_text [] = ''''"
| "chunks_text [c] = chunk_text c @ newline"
| "chunks_text (c # cs) = chunk_text c @ '','' @ newline @ chunks_text cs"

definition state_text :: "u32 \<Rightarrow> bool \<Rightarrow> (nat \<Rightarrow> u32) \<Rightarrow> (u32 \<times> u8 list) list \<Rightarrow> string" where
  "state_text pc halted regs cs =
     ''{'' @ newline @ ''  '' @ quote @ ''schema'' @ quote @ '': '' @ quote @
     ''rv32i-architectural-state-v1'' @ quote @ '','' @ newline @ ''  '' @ quote @ ''pc'' @ quote @
     '': '' @ quote @ ''0x'' @ field 16 8 (unat pc) @ quote @ '','' @ newline @ ''  '' @ quote @
     ''halted'' @ quote @ '': '' @ (if halted then ''true'' else ''false'') @ '','' @ newline @
     ''  '' @ quote @ ''registers'' @ quote @ '': {'' @ newline @
     concat (map (\<lambda>i. register_text i (regs i)) [0..<32]) @
     ''  },'' @ newline @ ''  '' @ quote @ ''memory'' @ quote @ '': ['' @
     (if cs = [] then '''' else newline) @ chunks_text cs @ ''  ]'' @ newline @ ''}'' @ newline"

definition chunk_of :: "CPU \<Rightarrow> nat \<times> nat \<Rightarrow> u32 \<times> u8 list" where
  "chunk_of cpu r = (of_nat (fst r), map ((!) (cpu_memory cpu)) [fst r..<snd r])"

definition json_text :: "CPU \<Rightarrow> (nat \<times> nat) list \<Rightarrow> string" where
  "json_text cpu rs = state_text (cpu_pc cpu) (cpu_halted cpu) (\<lambda>i. reg_val cpu (of_nat i))
     (map (chunk_of cpu) rs)"

section \<open>The printing code writes this text\<close>

lemma print_hex32_plain: "print_hex32 v (plain t) = plain (t @ ''0x'' @ field 16 8 (unat v))"
  by (simp add: print_hex32_def plain_def new_stream_def put_def pad_def field_def)

lemma json_register_plain:
  assumes "reg < 32"
  shows "json_register cpu reg (plain t) =
    Inr (plain (t @ register_text reg (reg_val cpu (of_nat reg))))"
proof -
  have "unat (of_nat reg :: u8) < 32" using assms by (simp add: unat_of_nat)
  then have "read_reg cpu (of_nat reg) = Inr (reg_val cpu (of_nat reg))" by (rule read_reg_in)
  then show ?thesis
    by (simp add: json_register_def Let_def register_text_def kNumRegisters_def print_hex32_def
        plain_def new_stream_def put_def pad_def field_def)
qed

lemma res_fold_plain:
  "(\<And>x t. x \<in> set xs \<Longrightarrow> f x (plain t) = Inr (plain (t @ g x))) \<Longrightarrow>
   res_fold f xs (plain t) = Inr (plain (t @ concat (map g xs)))"
  by (induction xs arbitrary: t) simp_all

text \<open>
  A run of byte insertions leaves the base and the fill character changed, from the second byte
  on or not at all; the chain that follows restores them.
\<close>

definition settled :: "Stream \<Rightarrow> Stream" where
  "settled s = emit [Dec, Setfill (CHR '' '')] s"

lemma settled_plain [simp]: "settled (plain t) = plain t"
  by (simp add: settled_def plain_def new_stream_def)

lemma json_byte_settled:
  assumes "settled s = plain x" "read_u8 cpu (start + of_nat i) = Inr b"
  shows "\<exists>s'. json_byte cpu start i s = Inr s' \<and> settled s' = plain (x @ field 16 2 (unat b))"
  using assms
  by (cases s)
    (auto simp: settled_def json_byte_def plain_def new_stream_def put_def pad_def field_def)

lemma read_byte_in:
  assumes "i < memory_size cpu" "memory_size cpu \<le> 2 ^ 32" "unat a = i"
  shows "read_u8 cpu a = Inr (cpu_memory cpu ! i)"
  using assms by (simp add: read_u8_def validate_memory_access_def byte_at_def)

lemma read_byte_offset:
  assumes "a + n < memory_size cpu" "memory_size cpu \<le> 2 ^ 32"
  shows "read_u8 cpu (of_nat a + of_nat n) = Inr (cpu_memory cpu ! (a + n))"
proof (rule read_byte_in[OF assms])
  have "(of_nat a + of_nat n :: u32) = of_nat (a + n)" by simp
  then show "unat (of_nat a + of_nat n :: u32) = a + n"
    using assms by (simp only: unat_of_nat) simp
qed

lemma json_bytes_settled:
  assumes "a + n \<le> memory_size cpu" "memory_size cpu \<le> 2 ^ 32"
  shows "\<exists>s. res_fold (json_byte cpu (of_nat a)) [0..<n] (plain t) = Inr s \<and>
    settled s = plain (t @ concat (map (\<lambda>i. field 16 2 (unat (cpu_memory cpu ! (a + i)))) [0..<n]))"
  using assms(1)
proof (induction n)
  case 0
  then show ?case by simp
next
  case (Suc n)
  then obtain s where s: "res_fold (json_byte cpu (of_nat a)) [0..<n] (plain t) = Inr s"
    "settled s =
       plain (t @ concat (map (\<lambda>i. field 16 2 (unat (cpu_memory cpu ! (a + i)))) [0..<n]))"
    by auto
  have "read_u8 cpu (of_nat a + of_nat n) = Inr (cpu_memory cpu ! (a + n))"
    using Suc.prems assms(2) by (intro read_byte_offset) simp_all
  from json_byte_settled[OF s(2) this] show ?case
    by (auto simp: res_fold_append s(1))
qed

lemma json_range_plain:
  assumes "a < b" "b \<le> memory_size cpu" "memory_size cpu < 2 ^ 32"
  shows "json_range cpu n (i, as_range (a, b)) (plain t) =
    Inr (plain (t @ chunk_text (chunk_of cpu (a, b)) @
      (if i + 1 = n then newline else '','' @ newline)))"
proof -
  define e where "e = (if i + 1 = n then newline else '','' @ newline)"
  define u where "u = t @ ''    {'' @ quote @ ''start'' @ quote @ '': '' @ quote @ ''0x'' @
    field 16 8 a @ quote @ '', '' @ quote @ ''length'' @ quote @ '': '' @ nat_text 10 (b - a) @
    '', '' @ quote @ ''bytes'' @ quote @ '': '' @ quote"
  define v where
    "v = concat (map (\<lambda>i. field 16 2 (unat (cpu_memory cpu ! (a + i)))) [0..<b - a])"
  have n: "unat (of_nat a :: u32) = a" "unat (of_nat (b - a) :: u32) = b - a"
    using assms by (simp_all only: unat_of_nat) simp_all
  obtain s where s: "res_fold (json_byte cpu (of_nat a)) [0..<b - a] (plain u) = Inr s"
    "settled s = plain (u @ v)"
    using json_bytes_settled[of a "b - a" cpu u] assms by (auto simp: v_def)
  have "json_range cpu n (i, as_range (a, b)) (plain t) =
      res_bind (res_fold (json_byte cpu (of_nat a)) [0..<b - a] (plain u))
        (\<lambda>s. Inr (emit [Str (quote @ ''}''), Str e] (settled s)))"
    unfolding json_range_def as_range_def fst_conv snd_conv MemoryDumpRange.simps Let_def n
      e_def[symmetric]
    by (simp add: print_hex32_plain settled_def u_def n)
  also have "\<dots> = Inr (plain (u @ v @ quote @ ''}'' @ e))" by (simp add: s)
  moreover have "v = concat (map (\<lambda>i. field 16 2 (unat (map ((!) (cpu_memory cpu)) [a..<b] ! i)))
      [0..<b - a])"
    unfolding v_def by (intro arg_cong[where f = concat] map_cong) simp_all
  then have "u @ v @ quote @ ''}'' @ e = t @ chunk_text (chunk_of cpu (a, b)) @ e"
    by (simp add: u_def chunk_text_def chunk_of_def n)
  ultimately show ?thesis unfolding e_def by simp
qed

lemma json_ranges_plain:
  assumes "list_all (\<lambda>r. fst r < snd r \<and> snd r \<le> memory_size cpu) rs"
    and "memory_size cpu < 2 ^ 32"
  shows "res_fold (json_range cpu (i + length rs)) (enumerate i (map as_range rs)) (plain t) =
    Inr (plain (t @ chunks_text (map (chunk_of cpu) rs)))"
  using assms(1)
proof (induction rs arbitrary: i t rule: induct_list012)
  case 1
  then show ?case by simp
next
  case (2 r)
  then show ?case
    using json_range_plain[of "fst r" "snd r" cpu "Suc i" i t] assms(2) by simp
next
  case (3 r r' rs)
  have "res_fold (json_range cpu (Suc i + length (r' # rs)))
      (enumerate (Suc i) (map as_range (r' # rs))) (plain t') =
      Inr (plain (t' @ chunks_text (map (chunk_of cpu) (r' # rs))))" for t'
    using "3.prems" by (intro "3.IH"(2)) simp
  then show ?case
    using json_range_plain[of "fst r" "snd r" cpu "i + length (r # r' # rs)" i t] assms(2)
      "3.prems" by simp
qed

lemma separated_positive: "separated low rs \<Longrightarrow> list_all (\<lambda>r. fst r < snd r) rs"
  by (induction low rs rule: separated.induct) auto

lemma json_plain:
  assumes "normalize_memory_ranges cpu requested = Some (Inr (map as_range rs))"
    and "separated 0 rs" "list_all (\<lambda>r. snd r \<le> memory_size cpu) rs"
    and "memory_size cpu < 2 ^ 32"
  shows "print_architectural_state_json cpu requested (plain t) =
    Some (Inr (plain (t @ json_text cpu rs)))"
proof -
  have regs: "res_fold (json_register cpu) [0..<32] (plain u) =
      Inr (plain (u @ concat (map (\<lambda>i. register_text i (reg_val cpu (of_nat i))) [0..<32])))" for u
    by (rule res_fold_plain) (simp add: json_register_plain)
  have "list_all (\<lambda>r. fst r < snd r \<and> snd r \<le> memory_size cpu) rs"
    using separated_positive[OF assms(2)] assms(3) by (simp add: list_all_iff)
  from json_ranges_plain[OF this assms(4), of 0]
  have rs: "res_fold (json_range cpu (length rs)) (enumerate 0 (map as_range rs)) (plain u) =
      Inr (plain (u @ chunks_text (map (chunk_of cpu) rs)))" for u
    by simp
  show ?thesis
    unfolding print_architectural_state_json_def assms(1) out_bind_simps
    by (simp add: Let_def print_hex32_plain kNumRegisters_def regs rs json_text_def
        state_text_def)
qed

section \<open>The text determines the state\<close>

lemma concat_inject:
  assumes "\<And>i v w. i \<in> set is \<Longrightarrow> length (f i v) = length (f i w)"
    and "\<And>i v w. i \<in> set is \<Longrightarrow> f i v = f i w \<Longrightarrow> v = w"
    and "concat (map (\<lambda>i. f i (v i)) is) @ r = concat (map (\<lambda>i. f i (w i)) is) @ r'"
  shows "(\<forall>i \<in> set is. v i = w i) \<and> r = r'"
  using assms
proof (induction "is")
  case Nil
  then show ?case by simp
next
  case (Cons i "is")
  have "f i (v i) = f i (w i) \<and>
      concat (map (\<lambda>i. f i (v i)) is) @ r = concat (map (\<lambda>i. f i (w i)) is) @ r'"
    using Cons.prems(1)[of i "v i" "w i"] Cons.prems(3) by simp
  moreover from this have "(\<forall>i \<in> set is. v i = w i) \<and> r = r'"
    by (intro Cons.IH) (metis Cons.prems(1,2) list.set_intros(2))+
  ultimately show ?case using Cons.prems(2)[of i] by simp
qed

lemma digits_then_comma:
  assumes "nat_text 10 m @ CHR '','' # r = nat_text 10 n @ CHR '','' # r'"
  shows "m = n \<and> r = r'"
proof -
  have stop: "takeWhile (is_digit 10) (nat_text 10 k @ CHR '','' # x) = nat_text 10 k" for k x
    using nat_text_digits[of 10 k]
    by (simp add: takeWhile_append2 list_all_iff is_digit_def digit_value_def)
  have "nat_text 10 m = nat_text 10 n" using arg_cong[OF assms, of "takeWhile (is_digit 10)"]
    by (simp only: stop)
  moreover from this have "text_value 10 (nat_text 10 m) = text_value 10 (nat_text 10 n)" by simp
  then have "m = n" by (simp add: text_value_nat_text)
  ultimately show ?thesis using assms by simp
qed

lemma length_hex8: "length (field 16 8 (unat (v :: u32))) = 8"
  using unsigned_less[of v] by (intro length_field) simp_all

lemma length_hex2: "length (field 16 2 (unat (b :: u8))) = 2"
  using unsigned_less[of b] by (intro length_field) simp_all

lemma field_word_inject:
  "field 16 w (unat (a :: 'a :: len word)) = field 16 w (unat b) \<longleftrightarrow> a = b"
  by (simp add: field_inject word_unat_eq_iff)

lemma hex8_append_inject:
  "field 16 8 (unat (v :: u32)) @ r = field 16 8 (unat w) @ r' \<longleftrightarrow> v = w \<and> r = r'"
  by (simp add: append_eq_append_conv length_hex8 field_word_inject)

lemma chunk_text_inject:
  assumes "chunk_text c @ r = chunk_text d @ r'"
  shows "c = d \<and> r = r'"
proof -
  let ?bytes = "\<lambda>c. concat (map (\<lambda>i. field 16 2 (unat (snd c ! i))) [0..<length (snd c)])"
  have first: "fst c = fst d \<and> length (snd c) = length (snd d)"
    and rest: "?bytes c @ quote @ ''}'' @ r = ?bytes d @ quote @ ''}'' @ r'"
    using assms
    by (auto simp: chunk_text_def append_eq_append_conv length_hex8 field_word_inject
        dest!: digits_then_comma)
  have "(\<forall>i \<in> set [0..<length (snd c)]. snd c ! i = snd d ! i) \<and>
      quote @ ''}'' @ r = quote @ ''}'' @ r'"
    using rest first
    by (intro concat_inject[where f = "\<lambda>_ b. field 16 2 (unat b)"])
      (simp_all add: length_hex2 field_word_inject)
  then show ?thesis using first by (auto simp: prod_eq_iff intro: nth_equalityI)
qed

lemma chunks_text_Cons:
  "chunks_text (c # cs) = chunk_text c @ (if cs = [] then newline else '','' @ newline @ chunks_text cs)"
  by (cases cs) simp_all

lemma chunks_text_inject:
  assumes "chunks_text cs @ ''  ]'' @ r = chunks_text ds @ ''  ]'' @ r"
    and "cs \<noteq> []" "ds \<noteq> []"
  shows "cs = ds"
  using assms
proof (induction cs arbitrary: ds)
  case Nil
  then show ?case by simp
next
  case (Cons c cs)
  let ?rest = "\<lambda>cs. (if cs = [] then newline else '','' @ newline @ chunks_text cs) @ ''  ]'' @ r"
  obtain d ds' where ds: "ds = d # ds'" using Cons.prems by (cases ds) auto
  have "chunk_text c @ ?rest cs = chunk_text d @ ?rest ds'"
    using Cons.prems(1) by (simp only: ds chunks_text_Cons append_assoc)
  then have cd: "c = d" and rest: "?rest cs = ?rest ds'" using chunk_text_inject by blast+
  have "cs = [] \<longleftrightarrow> ds' = []" using rest by (auto simp: newline_def split: if_splits)
  moreover have "cs = ds'" if "cs \<noteq> []" "ds' \<noteq> []"
    using rest that by (intro Cons.IH) simp_all
  ultimately show ?case using cd ds by blast
qed

lemma register_text_inject:
  "length (register_text i v) = length (register_text i w)"
  "register_text i v = register_text i w \<longleftrightarrow> v = w"
  by (simp_all add: register_text_def length_hex8 field_word_inject)

definition memory_text :: "(u32 \<times> u8 list) list \<Rightarrow> string" where
  "memory_text cs = ''  },'' @ newline @ ''  '' @ quote @ ''memory'' @ quote @ '': ['' @
     (if cs = [] then [] else newline) @ chunks_text cs @ ''  ]'' @ newline @ ''}'' @ newline"

lemma memory_text_inject:
  assumes "memory_text cs = memory_text ds"
  shows "cs = ds"
  using assms chunks_text_inject[of cs "newline @ ''}'' @ newline" ds]
  by (cases "cs = []"; cases "ds = []") (auto simp: memory_text_def newline_def)

lemma state_text_inject:
  assumes "state_text pc h regs cs = state_text pc' h' regs' cs'"
  shows "pc = pc' \<and> h = h' \<and> (\<forall>i < 32. regs i = regs' i) \<and> cs = cs'"
proof -
  let ?regs = "\<lambda>regs. concat (map (\<lambda>i. register_text i (regs i)) [0..<32])"
  have closed: "state_text pc h regs cs = ''{'' @ newline @ ''  '' @ quote @ ''schema'' @ quote @
     '': '' @ quote @
     ''rv32i-architectural-state-v1'' @ quote @ '','' @ newline @ ''  '' @ quote @ ''pc'' @ quote @
     '': '' @ quote @ ''0x'' @ field 16 8 (unat pc) @ quote @ '','' @ newline @ ''  '' @ quote @
     ''halted'' @ quote @ '': '' @ (if h then ''true'' else ''false'') @ '','' @ newline @
     ''  '' @ quote @ ''registers'' @ quote @ '': {'' @ newline @ ?regs regs @ memory_text cs"
    for pc h regs cs
    by (simp only: state_text_def memory_text_def append_assoc)
  have "pc = pc' \<and> (if h then ''true'' else ''false'') @ '','' @ newline @
     ''  '' @ quote @ ''registers'' @ quote @ '': {'' @ newline @ ?regs regs @ memory_text cs =
     (if h' then ''true'' else ''false'') @ '','' @ newline @
     ''  '' @ quote @ ''registers'' @ quote @ '': {'' @ newline @ ?regs regs' @ memory_text cs'"
    using assms unfolding closed
    by (simp only: append_assoc same_append_eq hex8_append_inject)
  then have start: "pc = pc'" "h = h'" and rest: "?regs regs @ memory_text cs = ?regs regs' @ memory_text cs'"
    by (cases h; cases h'; simp)+
  have "(\<forall>i \<in> set [0..<32]. regs i = regs' i) \<and> memory_text cs = memory_text cs'"
    using rest by (intro concat_inject[where f = register_text])
      (simp_all only: register_text_inject)
  then show ?thesis using start memory_text_inject[of cs cs'] by auto
qed

section \<open>Equal texts, equal states\<close>

lemma chunk_of_eq_iff:
  assumes "a < b" "b \<le> memory_size c1" "memory_size c1 < 2 ^ 32"
    and "a' < b'" "b' \<le> memory_size c2" "memory_size c2 < 2 ^ 32"
  shows "chunk_of c1 (a, b) = chunk_of c2 (a', b') \<longleftrightarrow>
    a = a' \<and> b = b' \<and> (\<forall>i \<in> {a..<b}. cpu_memory c1 ! i = cpu_memory c2 ! i)"
proof -
  have "(of_nat a :: u32) = of_nat a' \<longleftrightarrow> a = a'"
    using assms by (simp add: word_unat_eq_iff unat_of_nat)
  moreover have "b = b'" if "a = a'" "map f [a..<b] = map g [a'..<b']" for f g :: "nat \<Rightarrow> u8"
  proof -
    have "b - a = b' - a'" using arg_cong[OF that(2), of length] by simp
    then show ?thesis using that(1) assms(1,4) by simp
  qed
  ultimately show ?thesis by (cases "a = a' \<and> b = b'") (auto simp: chunk_of_def)
qed

lemma chunks_eq_iff:
  assumes "list_all (\<lambda>r. fst r < snd r \<and> snd r \<le> memory_size c1) rs" "memory_size c1 < 2 ^ 32"
    and "list_all (\<lambda>r. fst r < snd r \<and> snd r \<le> memory_size c2) rs'" "memory_size c2 < 2 ^ 32"
  shows "map (chunk_of c1) rs = map (chunk_of c2) rs' \<longleftrightarrow>
    rs = rs' \<and> (\<forall>i \<in> run_bytes rs. cpu_memory c1 ! i = cpu_memory c2 ! i)"
  using assms(1,3)
proof (induction rs arbitrary: rs')
  case Nil
  then show ?case by auto
next
  case (Cons r rs)
  obtain a b where r: "r = (a, b)" by (cases r)
  show ?case
  proof (cases rs')
    case Nil
    then show ?thesis by simp
  next
    case (Cons r' rs2)
    obtain a' b' where r': "r' = (a', b')" by (cases r')
    have "chunk_of c1 (a, b) = chunk_of c2 (a', b') \<longleftrightarrow>
        a = a' \<and> b = b' \<and> (\<forall>i \<in> {a..<b}. cpu_memory c1 ! i = cpu_memory c2 ! i)"
      using Cons.prems assms(2,4) by (intro chunk_of_eq_iff) (simp_all add: r r' Cons)
    moreover have "map (chunk_of c1) rs = map (chunk_of c2) rs2 \<longleftrightarrow>
        rs = rs2 \<and> (\<forall>i \<in> run_bytes rs. cpu_memory c1 ! i = cpu_memory c2 ! i)"
      using Cons.prems by (intro Cons.IH) (simp_all add: Cons)
    ultimately show ?thesis by (auto simp: r r' Cons)
  qed
qed

text \<open>What the JSON of a CPU shows, for one selection of bytes.\<close>

definition same_view :: "CPU \<Rightarrow> nat set \<Rightarrow> CPU \<Rightarrow> nat set \<Rightarrow> bool" where
  "same_view c1 bytes1 c2 bytes2 \<longleftrightarrow>
     cpu_pc c1 = cpu_pc c2 \<and> cpu_halted c1 = cpu_halted c2 \<and>
     (\<forall>r. unat r < 32 \<longrightarrow> read_reg c1 r = read_reg c2 r) \<and>
     bytes1 = bytes2 \<and> (\<forall>i \<in> bytes1. cpu_memory c1 ! i = cpu_memory c2 ! i)"

lemma registers_eq_iff:
  "(\<forall>r. unat r < 32 \<longrightarrow> read_reg c1 r = read_reg c2 r) \<longleftrightarrow>
   (\<forall>i < 32. reg_val c1 (of_nat i) = reg_val c2 (of_nat i))"
proof
  assume eq: "\<forall>r. unat r < 32 \<longrightarrow> read_reg c1 r = read_reg c2 r"
  show "\<forall>i < 32. reg_val c1 (of_nat i) = reg_val c2 (of_nat i)"
  proof (intro allI impI)
    fix i :: nat assume "i < 32"
    then have "unat (of_nat i :: u8) < 32" by (simp add: unat_of_nat)
    then show "reg_val c1 (of_nat i) = reg_val c2 (of_nat i)"
      using eq by (metis read_reg_in sum.inject(2))
  qed
next
  assume eq: "\<forall>i < 32. reg_val c1 (of_nat i) = reg_val c2 (of_nat i)"
  show "\<forall>r. unat r < 32 \<longrightarrow> read_reg c1 r = read_reg c2 r"
  proof (intro allI impI)
    fix r :: u8 assume r: "unat r < 32"
    then show "read_reg c1 r = read_reg c2 r" using eq[rule_format, OF r] by (simp add: read_reg_in)
  qed
qed

lemma json_text_eq_iff:
  assumes "separated 0 rs" "list_all (\<lambda>r. snd r \<le> memory_size c1) rs" "memory_size c1 < 2 ^ 32"
    and "separated 0 rs'" "list_all (\<lambda>r. snd r \<le> memory_size c2) rs'" "memory_size c2 < 2 ^ 32"
  shows "json_text c1 rs = json_text c2 rs' \<longleftrightarrow> same_view c1 (run_bytes rs) c2 (run_bytes rs')"
proof -
  have in1: "list_all (\<lambda>r. fst r < snd r \<and> snd r \<le> memory_size c1) rs"
    using separated_positive[OF assms(1)] assms(2) by (simp add: list_all_iff)
  have in2: "list_all (\<lambda>r. fst r < snd r \<and> snd r \<le> memory_size c2) rs'"
    using separated_positive[OF assms(4)] assms(5) by (simp add: list_all_iff)
  have "json_text c1 rs = json_text c2 rs' \<longleftrightarrow> cpu_pc c1 = cpu_pc c2 \<and> cpu_halted c1 = cpu_halted c2 \<and>
      (\<forall>i < 32. reg_val c1 (of_nat i) = reg_val c2 (of_nat i)) \<and>
      map (chunk_of c1) rs = map (chunk_of c2) rs'"
  proof
    assume "json_text c1 rs = json_text c2 rs'"
    then show "cpu_pc c1 = cpu_pc c2 \<and> cpu_halted c1 = cpu_halted c2 \<and>
      (\<forall>i < 32. reg_val c1 (of_nat i) = reg_val c2 (of_nat i)) \<and>
      map (chunk_of c1) rs = map (chunk_of c2) rs'"
      unfolding json_text_def by (rule state_text_inject)
  next
    assume eq: "cpu_pc c1 = cpu_pc c2 \<and> cpu_halted c1 = cpu_halted c2 \<and>
      (\<forall>i < 32. reg_val c1 (of_nat i) = reg_val c2 (of_nat i)) \<and>
      map (chunk_of c1) rs = map (chunk_of c2) rs'"
    then have "map (\<lambda>i. register_text i (reg_val c1 (of_nat i))) [0..<32] =
        map (\<lambda>i. register_text i (reg_val c2 (of_nat i))) [0..<32]"
      by (intro map_cong) auto
    then show "json_text c1 rs = json_text c2 rs'"
      using eq by (simp only: json_text_def state_text_def)
  qed
  moreover have "rs = rs' \<longleftrightarrow> run_bytes rs = run_bytes rs'"
    using separated_unique[OF assms(1,4)] by blast
  ultimately show ?thesis
    by (simp only: chunks_eq_iff[OF in1 assms(3) in2 assms(6)] same_view_def registers_eq_iff)
qed

lemma json_of_selection:
  assumes "memory_size cpu < 2 ^ 32" "ranges_fit (memory_size cpu) (selection cpu requested)"
  shows "\<exists>rs. print_architectural_state_json cpu requested (plain t) =
      Some (Inr (plain (t @ json_text cpu rs))) \<and>
    separated 0 rs \<and> list_all (\<lambda>r. snd r \<le> memory_size cpu) rs \<and>
    run_bytes rs = covered (selection cpu requested)"
proof -
  obtain rs where "normalize_memory_ranges cpu requested = Some (Inr (map as_range rs))"
    "separated 0 rs" "list_all (\<lambda>r. snd r \<le> memory_size cpu) rs"
    "run_bytes rs = covered (selection cpu requested)"
    using normalize_spec[OF assms(1), of requested] assms(2) by auto
  then show ?thesis using json_plain assms(1) by blast
qed

end
