(* ===== verification/Memory_Dump.thy ===== *)
theory Memory_Dump
  imports State_Json
begin

text \<open>
  When the dumps return: \<open>print_memory_dump\<close> steps a 32-bit offset by 16, which terminates for
  byte counts up to \<open>2\<^sup>3\<^sup>2 - 16\<close> and not beyond, and the dump of written memory always does.
\<close>

lemma print_byte_succeeds:
  assumes "unat a + i < memory_size cpu" "memory_size cpu \<le> 2 ^ 32"
  shows "\<exists>s'. print_byte cpu a i s = Inr s'"
  using read_byte_offset[of "unat a" i cpu] assms by (simp add: print_byte_def)

lemma print_memory_line_succeeds:
  assumes "range_end start n \<le> memory_size cpu" "memory_size cpu \<le> 2 ^ 32" "off < n"
  shows "\<exists>s'. print_memory_line cpu start n off s = Inr s'"
proof -
  let ?s = "emit [Str ''  0x'', Hex, Setw 8, Setfill (CHR ''0''), Num (unat (start + off)), Str '':''] s"
  have off: "unat off < unat n" using assms(3) by (simp add: word_less_nat_alt)
  have sum: "unat (start + off) = unat start + unat off"
    using assms(1,2) off by (intro unat_add_no_wrap) (simp add: range_end_def)
  have "unat (n - off) = unat n - unat off"
    using assms(3) by (intro unat_sub) simp
  moreover have "unat (min 16 (n - off)) \<le> unat (n - off)"
    by (simp add: min_def word_le_nat_alt)
  ultimately have "unat (min 16 (n - off)) \<le> unat n - unat off" by simp
  then have "\<exists>s'. print_byte cpu (start + off) i s = Inr s'"
    if "i \<in> set [0..<unat (min 16 (n - off))]" for i s
    using that off assms(1,2) by (intro print_byte_succeeds) (simp_all add: range_end_def sum)
  then obtain s2 where
    "res_fold (print_byte cpu (start + off)) [0..<unat (min 16 (n - off))] ?s = Inr s2"
    using res_fold_succeeds by meson
  then show ?thesis unfolding print_memory_line_def Let_def by (simp del: emit_simps)
qed

lemma print_memory_lines_terminates:
  assumes "range_end start n \<le> memory_size cpu" "memory_size cpu \<le> 2 ^ 32" "n \<le> 0xFFFFFFF0"
  shows "\<exists>s'. print_memory_lines cpu start n off s = Some (Inr s')"
proof (induction "unat n - unat off" arbitrary: off s rule: less_induct)
  case less
  show ?case
  proof (cases "off < n")
    case False
    then show ?thesis by (subst print_memory_lines.simps) simp
  next
    case True
    obtain s1 where s1: "print_memory_line cpu start n off s = Inr s1"
      using print_memory_line_succeeds[OF assms(1,2) True] by blast
    have bounds: "unat off < unat n" "unat n \<le> 0xFFFFFFF0"
      using True assms(3) by (simp_all add: word_less_nat_alt word_le_nat_alt)
    then have "unat (off + 16) = unat off + 16"
      by (subst unat_add_no_wrap) simp_all
    then have "unat n - unat (off + 16) < unat n - unat off" using bounds(1) by linarith
    then obtain s2 where "print_memory_lines cpu start n (off + 16) s1 = Some (Inr s2)"
      using less by blast
    then show ?thesis using True s1 by (subst print_memory_lines.simps) simp
  qed
qed

text \<open>Beyond that count every offset, a multiple of 16, stays below the byte count.\<close>

definition dump_wraps :: "CPU \<Rightarrow> u32 \<Rightarrow> u32 \<Rightarrow> u32 \<Rightarrow> bool" where
  "dump_wraps cpu start n off \<longleftrightarrow> range_end start n \<le> memory_size cpu \<and>
     memory_size cpu \<le> 2 ^ 32 \<and> 0xFFFFFFF0 < n \<and> 16 dvd unat off"

lemma dump_wraps_step:
  assumes "dump_wraps cpu start n off"
  shows "off < n" "dump_wraps cpu start n (off + 16)"
proof -
  have "16 dvd unat off" "unat off < 2 ^ 32" "0xFFFFFFF0 < unat n"
    using assms unsigned_less[of off] by (simp_all add: dump_wraps_def word_less_nat_alt)
  moreover from this obtain k where "unat off = 16 * k" by (auto simp: dvd_def)
  ultimately show "off < n" by (simp add: word_less_nat_alt)
  have "(16 :: nat) dvd 2 ^ 32" by simp
  then have "16 dvd (unat off + 16) mod 2 ^ 32"
    using \<open>16 dvd unat off\<close> by (simp only: dvd_mod_iff) simp
  then have "16 dvd unat (off + 16)" by (simp add: unat_word_ariths)
  then show "dump_wraps cpu start n (off + 16)"
    using assms by (simp add: dump_wraps_def)
qed

lemma print_memory_lines_diverges:
  assumes "dump_wraps cpu start n off"
  shows "print_memory_lines cpu start n off s = None"
proof (rule ccontr)
  assume "print_memory_lines cpu start n off s \<noteq> None"
  then obtain r where "print_memory_lines cpu start n off s = Some r" by blast
  then have "dump_wraps cpu start n off \<longrightarrow> False"
  proof (rule print_memory_lines.raw_induct
      [where P = "\<lambda>cpu start n off s r. dump_wraps cpu start n off \<longrightarrow> False", rotated])
    fix lines cpu start n off s r
    assume ih: "\<And>cpu start n off s r. lines cpu start n off s = Some r \<Longrightarrow>
        dump_wraps cpu start n off \<longrightarrow> False"
      and body: "(if off < n
         then case print_memory_line cpu start n off s of
             Inl e \<Rightarrow> Some (Inl e)
           | Inr s \<Rightarrow> lines cpu start n (off + 16) s
         else Some (Inr s)) = Some r"
    show "dump_wraps cpu start n off \<longrightarrow> False"
    proof
      assume wraps: "dump_wraps cpu start n off"
      note step = dump_wraps_step[OF wraps]
      obtain s' where "print_memory_line cpu start n off s = Inr s'"
        using print_memory_line_succeeds step(1) wraps by (meson dump_wraps_def)
      then have "lines cpu start n (off + 16) s' = Some r" using body step(1) by simp
      then show False using ih step(2) by blast
    qed
  qed
  then show False using assms by blast
qed

lemma memory_dump_returns_iff:
  assumes "range_end start n \<le> memory_size cpu" "memory_size cpu \<le> 2 ^ 32"
  shows "(n \<le> 0xFFFFFFF0 \<longrightarrow> (\<exists>s'. print_memory_dump cpu start n s = Some (Inr s'))) \<and>
    (0xFFFFFFF0 < n \<longrightarrow> print_memory_dump cpu start n s = None)"
  using assms print_memory_lines_terminates[OF assms] print_memory_lines_diverges[of cpu start n 0]
  by (simp add: print_memory_dump_def dump_wraps_def del: emit_simps)

section \<open>The dump of written memory\<close>

lemma print_rows_succeeds:
  assumes "stop \<le> memory_size cpu" "memory_size cpu \<le> 2 ^ 32"
  shows "\<exists>s'. print_rows cpu row stop s = Inr s'"
proof (induction "stop - row" arbitrary: row s rule: less_induct)
  case less
  show ?case
  proof (cases "row < stop")
    case False
    then show ?thesis by (subst print_rows.simps) simp
  next
    case True
    let ?s = "emit [Str ''    0x'', Hex, Setw 8, Setfill (CHR ''0''), Num row, Str '':''] s"
    have "unat (of_nat row :: u32) = row"
      using True assms by (simp add: unat_of_nat)
    then have "\<exists>s'. print_byte cpu (of_nat row) i s = Inr s'"
      if "i \<in> set [0..<min 16 (stop - row)]" for i s
      using that assms by (intro print_byte_succeeds) auto
    then obtain s1 where s1: "res_fold (print_byte cpu (of_nat row)) [0..<min 16 (stop - row)] ?s = Inr s1"
      using res_fold_succeeds by meson
    have "stop - (row + 16) < stop - row" using True by simp
    then obtain s2 where
      "print_rows cpu (row + 16) stop (emit [Dec, Setfill (CHR '' ''), Str newline] s1) = Inr s2"
      using less by blast
    then show ?thesis
      using True s1 by (subst print_rows.simps) (simp add: Let_def del: emit_simps)
  qed
qed

lemma print_written_succeeds:
  assumes "memory_size cpu < 2 ^ 32" "ranges_fit (memory_size cpu) (selection cpu [])"
  shows "\<exists>s'. print_written_memory_dump cpu s = Some (Inr s')"
proof (cases "cpu_memory_writes cpu = []")
  case True
  then show ?thesis by (simp add: print_written_memory_dump_def Let_def)
next
  case False
  let ?s = "emit [Str (newline @ ''Written memory dump:'' @ newline)] s"
  obtain sel where sel: "mark_all (memory_size cpu)
      (Out_of_range ''recorded memory write exceeds simulated RAM bounds'')
      (map (\<lambda>w. (mw_address w, mw_byte_count w)) (cpu_memory_writes cpu))
      (replicate (memory_size cpu) False) = Some (Inr sel)" "length sel = memory_size cpu"
    using mark_all_spec[of "replicate (memory_size cpu) False" "memory_size cpu"
        "selection cpu []" "Out_of_range ''recorded memory write exceeds simulated RAM bounds''"] assms
    by (auto simp: selection_def)
  have "\<exists>s'. print_written_range cpu r s = Inr s'" if "r \<in> set (runs sel 0)" for r s
    using that runs_spec[of sel 0] sel(2) assms(1)
    unfolding print_written_range_def by (intro print_rows_succeeds) (auto simp: list_all_iff)
  then obtain s2 where "res_fold (print_written_range cpu) (runs sel 0) ?s = Inr s2"
    using res_fold_succeeds by meson
  then show ?thesis
    using False sel(1) by (simp add: print_written_memory_dump_def Let_def del: emit_simps)
qed

section \<open>The register dump\<close>

lemma register_line_plain:
  assumes "i < 32"
  shows "print_register_line cpu i (plain t) = Inr (plain (t @ ''  x'' @ field 10 2 i @ '' = 0x'' @
    field 16 8 (unat (reg_val cpu (of_nat i))) @ '' ('' @
    nat_text 10 (unat (reg_val cpu (of_nat i))) @ '')'' @ newline))"
proof -
  have "unat (of_nat i :: u8) < 32" using assms by (simp add: unat_of_nat)
  then have "read_reg cpu (of_nat i) = Inr (reg_val cpu (of_nat i))" by (rule read_reg_in)
  then show ?thesis
    by (simp add: print_register_line_def plain_def new_stream_def put_def pad_def field_def)
qed

end
