(* ===== verification/Pipeline_Trace.thy ===== *)
theory Pipeline_Trace
  imports Memory_Dump Pipeline_Registers Instruction
begin

text \<open>
  \<open>src/pipeline_trace.cpp\<close>: one line per latch, with the address, the encoding, the mnemonic and,
  for the two front latches, the prediction of a branch.
\<close>

definition latch_name :: "bool \<Rightarrow> u32 \<Rightarrow> string" where
  "latch_name v instruction =
     (if \<not> v then ''bubble'' else instruction_kind_name (d_kind (decode_instruction instruction)))"

definition print_latch ::
  "string \<Rightarrow> bool \<Rightarrow> u32 \<Rightarrow> u32 \<Rightarrow> bool \<Rightarrow> bool \<Rightarrow> u32 \<Rightarrow> Stream \<Rightarrow> Stream" where
  "print_latch name v pc instruction show_prediction predicted predicted_pc s =
     (let s = emit [Str ''  '', Left, Setw 6, Str name, Str '' ''] s in
      if \<not> v then emit [Str (''bubble'' @ newline)] s
      else
        let s = emit [Right, Str ''pc=0x'', Hex, Setw 8, Setfill (CHR ''0''), Num (unat pc),
                      Str '' inst=0x'', Setw 8, Num (unat instruction), Dec, Setfill (CHR '' ''),
                      Str '' op='', Str (latch_name v instruction)] s;
            decoded = decode_instruction instruction;
            s = (if show_prediction \<and> branch (d_control decoded)
                 then emit [Str '' prediction='', Str (if predicted then ''taken'' else ''not-taken''),
                            Str '' next-pc=0x'', Hex, Setw 8, Setfill (CHR ''0''),
                            Num (unat predicted_pc), Dec, Setfill (CHR '' '')] s
                 else s)
        in emit [Str newline] s)"

definition print_pipeline_trace :: "CPU \<Rightarrow> PipelineRegisters \<Rightarrow> Stream \<Rightarrow> Stream" where
  "print_pipeline_trace cpu pipeline s =
     (let s = emit [Str (newline @ ''Cycle ''), Num (unat (clock_cycles (cpu_stats cpu))),
                    Str ('':'' @ newline)] s;
          s = print_latch ''IF/ID'' (ifid_valid (if_id pipeline)) (ifid_pc (if_id pipeline))
                (ifid_instruction (if_id pipeline)) True (ifid_predicted_taken (if_id pipeline))
                (ifid_predicted_next_pc (if_id pipeline)) s;
          s = print_latch ''ID/EX'' (idex_valid (id_ex pipeline)) (idex_pc (id_ex pipeline))
                (idex_instruction (id_ex pipeline)) True (idex_predicted_taken (id_ex pipeline))
                (idex_predicted_next_pc (id_ex pipeline)) s;
          s = print_latch ''EX/MEM'' (exmem_valid (ex_mem pipeline)) (exmem_pc (ex_mem pipeline))
                (exmem_instruction (ex_mem pipeline)) False False 0 s
      in print_latch ''MEM/WB'' (memwb_valid (mem_wb pipeline)) (memwb_pc (mem_wb pipeline))
           (memwb_instruction (mem_wb pipeline)) False False 0 s)"

section \<open>The format the trace leaves behind\<close>

text \<open>A stream in decimal with blank fill, and the adjustment given.\<close>

definition adjusted :: "bool \<Rightarrow> Stream \<Rightarrow> bool" where
  "adjusted l s \<longleftrightarrow> \<not> s_hex s \<and> s_fill s = CHR '' '' \<and> s_left s = l \<and> s_width s = 0"

lemma print_latch_adjusted:
  "adjusted l s \<Longrightarrow> adjusted (\<not> v) (print_latch name v pc i sp pt ppc s)"
  by (simp add: print_latch_def adjusted_def put_def Let_def)

lemma print_pipeline_trace_adjusted:
  assumes "adjusted l s"
  shows "adjusted (\<not> memwb_valid (mem_wb p)) (print_pipeline_trace cpu p s)"
proof -
  have "adjusted l (emit [Str (newline @ ''Cycle ''), Num (unat (clock_cycles (cpu_stats cpu))),
      Str ('':'' @ newline)] s)"
    using assms by (simp add: adjusted_def put_def)
  then show ?thesis
    unfolding print_pipeline_trace_def Let_def
    by (rule print_latch_adjusted[OF print_latch_adjusted[OF print_latch_adjusted
            [OF print_latch_adjusted]]])
qed

text \<open>Padding to the right of a hexadecimal number multiplies what is read back.\<close>

lemma text_value_padded: "text_value b (t @ replicate k (CHR ''0'')) = text_value b t * b ^ k"
proof (induction k)
  case (Suc k)
  have "t @ replicate (Suc k) (CHR ''0'') = (t @ replicate k (CHR ''0'')) @ [CHR ''0'']"
    by (simp add: replicate_append_same)
  then show ?case using Suc by (simp only: text_value_snoc) (simp add: digit_value_def)
qed simp

definition left_field :: "nat \<Rightarrow> nat \<Rightarrow> nat \<Rightarrow> string" where
  "left_field b w n = nat_text b n @ replicate (w - length (nat_text b n)) (CHR ''0'')"

lemma text_value_left_field:
  "2 \<le> b \<Longrightarrow> b \<le> 16 \<Longrightarrow>
   text_value b (left_field b w n) = n * b ^ (w - length (nat_text b n))"
  by (simp add: left_field_def text_value_padded text_value_nat_text)

lemma register_line_left:
  assumes "adjusted True s" "i < 32"
  shows "\<exists>s'. print_register_line cpu i s = Inr s' \<and> adjusted True s' \<and>
    s_text s' = s_text s @ ''  x'' @ left_field 10 2 i @ '' = 0x'' @
      left_field 16 8 (unat (reg_val cpu (of_nat i))) @ '' ('' @
      nat_text 10 (unat (reg_val cpu (of_nat i))) @ '')'' @ newline"
proof -
  have "unat (of_nat i :: u8) < 32" using assms(2) by (simp add: unat_of_nat)
  then have "read_reg cpu (of_nat i) = Inr (reg_val cpu (of_nat i))" by (rule read_reg_in)
  then show ?thesis
    using assms(1)
    by (simp add: print_register_line_def adjusted_def put_def pad_def left_field_def)
qed

end
