(* ===== verification/Simulator.thy ===== *)
theory Simulator
  imports Cli_Roundtrip Program_Loader Pipeline_Trace Cycle_Effects
begin

text \<open>
  \<open>main.cpp\<close>: the loop that runs the pipeline, what is printed after it, the state file and the
  exit status. The file system and the text of floating-point numbers are parameters, the fields
  of \<open>World\<close>; an exception that reaches the handler of \<open>main\<close> is the left case of a result, and
  what was printed before it is not kept.
\<close>

section \<open>The environment\<close>

text \<open>A quotient of two counters as a \<open>double\<close>, by its operands.\<close>

type_synonym ratio = "u64 \<times> u64"

record World =
  w_files :: "string \<Rightarrow> u8 list option"
  w_can_open :: "string \<Rightarrow> bool"
  w_can_write :: "string \<Rightarrow> bool"
  w_number_text :: "ratio \<Rightarrow> string"
  w_percent_text :: "ratio \<Rightarrow> string"

definition cpi :: "ExecutionStats \<Rightarrow> ratio" where
  "cpi stats = (if instruction_count stats = 0 then (0, 1)
                else (clock_cycles stats, instruction_count stats))"

definition ipc :: "ExecutionStats \<Rightarrow> ratio" where
  "ipc stats = (if clock_cycles stats = 0 then (0, 1)
                else (instruction_count stats, clock_cycles stats))"

definition branch_prediction_accuracy :: "ExecutionStats \<Rightarrow> ratio" where
  "branch_prediction_accuracy stats = (if branch_predictions stats = 0 then (0, 1)
     else (branch_predictions stats - branch_mispredictions stats, branch_predictions stats))"

section \<open>The loop\<close>

definition should_print_trace :: "CliOptions \<Rightarrow> u64 \<Rightarrow> u64 \<Rightarrow> bool" where
  "should_print_trace options current_cycle trace_lines_printed =
     (if \<not> trace options \<or> current_cycle < trace_start options then False
      else \<not> has_trace_limit options \<or> trace_lines_printed < trace_limit options)"

definition keep_running :: "CliOptions \<Rightarrow> CPU \<Rightarrow> bool" where
  "keep_running options cpu \<longleftrightarrow> \<not> cpu_halted cpu \<and>
     (\<not> has_retire_count options \<or> instruction_count (cpu_stats cpu) < retire_count options) \<and>
     clock_cycles (cpu_stats cpu) < max_cycles options"

partial_function (option) simulate ::
  "CliOptions \<Rightarrow> CPU \<Rightarrow> PipelineRegisters \<Rightarrow> u64 \<Rightarrow> Stream \<Rightarrow>
   (CPU \<times> PipelineRegisters \<times> Stream) outcome" where
  "simulate options cpu pipeline trace_lines_printed s =
     (if keep_running options cpu then
        (let printed = should_print_trace options (clock_cycles (cpu_stats cpu)) trace_lines_printed;
             s = (if printed then print_pipeline_trace cpu pipeline s else s);
             trace_lines_printed = (if printed then trace_lines_printed + 1 else trace_lines_printed)
         in case run_pipeline_cycle cpu pipeline of
              Inl e \<Rightarrow> Some (Inl e)
            | Inr cp \<Rightarrow> simulate options (fst cp) (snd cp) trace_lines_printed s)
      else Some (Inr (cpu, pipeline, s)))"

section \<open>What is printed\<close>

definition print_demo_program :: "Stream \<Rightarrow> Stream" where
  "print_demo_program s =
     fold (\<lambda>(k, i). emit [Str ''  0x'', Hex, Setw 8, Setfill (CHR ''0''), Num (4 * k), Str '': 0x'',
                          Setw 8, Num (unat (encoding i)), Dec, Setfill (CHR '' ''), Str ''    '',
                          Str (assembly i), Str newline])
       (enumerate 0 kDemoProgram) (emit [Str (''Loaded built-in demo program:'' @ newline)] s)"

definition print_run_options :: "CliOptions \<Rightarrow> Stream \<Rightarrow> Stream" where
  "print_run_options options =
     emit [Str (newline @ ''Run options:'' @ newline),
           Str ''  Max cycles:       '', Num (unat (max_cycles options)), Str newline,
           Str ''  Load address:     0x'', Hex, Num (unat (load_address options)), Dec, Str newline,
           Str ''  Memory size:      '', Num (unat (opt_memory_size options)),
           Str ('' bytes'' @ newline), Str ''  Branch predictor: '',
           Str (branch_predictor_type_name (branch_predictor_type (opt_config options))),
           Str newline]"

definition print_registers :: "CPU \<Rightarrow> Stream \<Rightarrow> Stream result" where
  "print_registers cpu s =
     res_fold (\<lambda>reg s. res_bind (read_reg cpu (of_nat reg)) (\<lambda>v.
         Inr (emit [Str ''  x'', Num reg, Str '' = '', Num (unat v), Str newline] s)))
       [0..<8] (emit [Str (newline @ ''Architectural registers:'' @ newline)] s)"

definition print_stats :: "World \<Rightarrow> CPU \<Rightarrow> Stream \<Rightarrow> Stream" where
  "print_stats w cpu =
     (let stats = cpu_stats cpu in
      emit [Str (newline @ ''Execution stats:'' @ newline),
            Str ''  Total cycles:          '', Num (unat (clock_cycles stats)), Str newline,
            Str ''  Instructions retired:  '', Num (unat (instruction_count stats)), Str newline,
            Str ''  CPI:                   '', Str (w_number_text w (cpi stats)), Str newline,
            Str ''  IPC:                   '', Str (w_number_text w (ipc stats)), Str newline,
            Str ''  Stall cycles:          '', Num (unat (stall_cycles stats)), Str newline,
            Str ''  Branch predictions:    '', Num (unat (branch_predictions stats)), Str newline,
            Str ''  Branch mispredictions: '', Num (unat (branch_mispredictions stats)), Str newline,
            Str ''  Prediction accuracy:   '',
            Str (w_percent_text w (branch_prediction_accuracy stats)), Str (''%'' @ newline),
            Str ''  Halted:                '', Str (if cpu_halted cpu then ''yes'' else ''no''),
            Str newline])"

definition check_memory_expectation ::
  "CPU \<Rightarrow> MemoryExpectation \<Rightarrow> bool \<times> Stream \<Rightarrow> (bool \<times> Stream) result" where
  "check_memory_expectation cpu check acc =
     res_bind (read_u32 cpu (me_address check)) (\<lambda>actual.
       let passed = actual = me_expected_value check in
       Inr (fst acc \<and> passed,
            emit [Str ''  ['', Str (if passed then ''PASS'' else ''FAIL''), Str ''] memory[0x'', Hex,
                  Setw 8, Setfill (CHR ''0''), Num (unat (me_address check)), Str ''] expected 0x'',
                  Setw 8, Num (unat (me_expected_value check)), Str '', actual 0x'', Setw 8,
                  Num (unat actual), Dec, Setfill (CHR '' ''), Str newline] (snd acc)))"

definition check_memory_expectations ::
  "CPU \<Rightarrow> MemoryExpectation list \<Rightarrow> Stream \<Rightarrow> (bool \<times> Stream) result" where
  "check_memory_expectations cpu checks s =
     (if checks = [] then Inr (True, s)
      else res_fold (check_memory_expectation cpu) checks
        (True, emit [Str (newline @ ''Memory expectations:'' @ newline)] s))"

text \<open>The console and the contents written to the state file, if one was asked for.\<close>

definition write_architectural_state ::
  "World \<Rightarrow> CliOptions \<Rightarrow> CPU \<Rightarrow> Stream \<Rightarrow> (Stream \<times> string option) outcome" where
  "write_architectural_state w options cpu s =
     (let path = dump_state_path options in
      if path = [] then Some (Inr (s, None))
      else if \<not> w_can_open w path
      then Some (Inl (Runtime_error (''failed to open architectural-state file: '' @ path)))
      else out_bind (print_architectural_state_json cpu (state_memory_ranges options) new_stream) (\<lambda>f.
        if \<not> w_can_write w path
        then Some (Inl (Runtime_error (''failed to write architectural-state file: '' @ path)))
        else Some (Inr (emit [Str (newline @ ''Architectural state: ''), Str path, Str newline] s,
                        Some (s_text f)))))"

definition print_usage :: "string \<Rightarrow> Stream \<Rightarrow> Stream" where
  "print_usage executable =
     emit [Str ''Usage: '', Str executable, Str ('' [program.bin] [options]'' @ newline @ newline),
           Str (''Options:'' @ newline), Str (''  --max-cycles=N'' @ newline),
           Str (''  --branch-predictor=not-taken|taken|two-bit'' @ newline),
           Str (''  --load-address=ADDRESS'' @ newline), Str (''  --memory-size=BYTES'' @ newline),
           Str (''  --retire-count=N'' @ newline), Str (''  --dump-regs'' @ newline),
           Str (''  --dump-memory=START:LENGTH'' @ newline),
           Str (''  --dump-written-memory'' @ newline), Str (''  --dump-state=FILE'' @ newline),
           Str (''  --state-memory=START:LENGTH (repeatable)'' @ newline),
           Str (''  --expect-memory=ADDRESS:VALUE'' @ newline), Str (''  --trace'' @ newline),
           Str (''  --trace-start=N'' @ newline), Str (''  --trace-limit=N'' @ newline),
           Str (''  --help'' @ newline)]"

section \<open>The program\<close>

record Report =
  exit_status :: nat
  console :: string
  complaint :: string
  state_file :: "string option"

definition load_phase :: "World \<Rightarrow> CliOptions \<Rightarrow> Stream \<Rightarrow> (CPU \<times> Stream) result" where
  "load_phase w options s =
     res_bind
       (if program_path options = [] then Inr (make_demo_program, print_demo_program s)
        else res_bind (load_binary_program (w_files w) (program_path options)) (\<lambda>program.
          Inr (program, emit [Str ''Loaded binary image: '', Str (program_path options), Str '' ('',
            Num (length (lp_bytes program)), Str '' byte(s), '',
            Num (unat (lp_instruction_count program)), Str ('' word(s))'' @ newline)] s)))
       (\<lambda>(program, s).
          res_bind (load_program (new_CPU (unat (opt_memory_size options)) (opt_config options))
                      (lp_bytes program) (load_address options)) (\<lambda>cpu.
            Inr (cpu, print_run_options options s)))"

definition dump_phase :: "World \<Rightarrow> CliOptions \<Rightarrow> CPU \<Rightarrow> Stream \<Rightarrow> Stream outcome" where
  "dump_phase w options cpu s =
     out_bind (Some (print_registers cpu s)) (\<lambda>s.
     let s = print_stats w cpu s in
     out_bind (if dump_regs options then Some (print_register_dump cpu s) else Some (Inr s)) (\<lambda>s.
     out_bind (if dump_memory options
               then print_memory_dump cpu (dump_memory_start options) (dump_memory_length options) s
               else Some (Inr s)) (\<lambda>s.
     if dump_written_memory options then print_written_memory_dump cpu s else Some (Inr s))))"

definition report_phase :: "World \<Rightarrow> CliOptions \<Rightarrow> CPU \<Rightarrow> Stream \<Rightarrow> Report outcome" where
  "report_phase w options cpu s =
     out_bind (dump_phase w options cpu s) (\<lambda>s.
     out_bind (write_architectural_state w options cpu s) (\<lambda>(s, file).
     out_bind (Some (check_memory_expectations cpu (memory_expectations options) s)) (\<lambda>(passed, s).
       let reached_target =
             (has_retire_count options \<and> retire_count options \<le> instruction_count (cpu_stats cpu))
       in Some (Inr
         (if \<not> cpu_halted cpu \<and> \<not> reached_target
          then \<lparr>exit_status = 1, console = s_text s, complaint = newline @
                 ''Simulation stopped before all instructions retired'' @ newline, state_file = file\<rparr>
          else \<lparr>exit_status = (if passed then 0 else 1), console = s_text s, complaint = [],
                state_file = file\<rparr>)))))"

definition main_body :: "World \<Rightarrow> string \<Rightarrow> string list \<Rightarrow> Report outcome" where
  "main_body w executable args =
     out_bind (Some (parse_cli args)) (\<lambda>options.
       if show_help options
       then Some (Inr \<lparr>exit_status = 0, console = s_text (print_usage executable new_stream),
                       complaint = [], state_file = None\<rparr>)
       else
         out_bind (Some (load_phase w options new_stream)) (\<lambda>(cpu, s).
         out_bind (simulate options cpu empty_pipeline 0 s) (\<lambda>(cpu, pipeline, s).
           report_phase w options cpu s)))"

text \<open>The handler: the message on the error stream and \<open>EXIT_FAILURE\<close>.\<close>

definition main_program :: "World \<Rightarrow> string \<Rightarrow> string list \<Rightarrow> (nat \<times> string \<times> Report option) option"
where
  "main_program w executable args =
     (case main_body w executable args of
        None \<Rightarrow> None
      | Some (Inl e) \<Rightarrow> Some (1, ''error: '' @ what e @ newline @ ''Run with --help for usage.'' @ newline, None)
      | Some (Inr r) \<Rightarrow> Some (exit_status r, complaint r, Some r))"

end
