(* ===== verification/Main_Loop.thy ===== *)
theory Main_Loop
  imports Simulator
begin

text \<open>
  The loop of \<open>main\<close> returns for every limit, and without a retire count it is the run of the
  pipeline that theory \<open>Pipeline_Correct\<close> speaks of; what follows of it for the exit status and
  the state file.
\<close>

section \<open>The loop is a bounded run\<close>

definition sound_cpu :: "CPU \<Rightarrow> bool" where
  "sound_cpu c \<longleftrightarrow> cpu_ok c \<and> writes_ok c"

definition cycles_left :: "CliOptions \<Rightarrow> CPU \<Rightarrow> nat" where
  "cycles_left options c = unat (max_cycles options) - unat (clock_cycles (cpu_stats c))"

abbreviation keep :: "CliOptions \<Rightarrow> CPU \<times> PipelineRegisters \<Rightarrow> bool" where
  "keep options cp \<equiv> keep_running options (fst cp)"

lemma sound_cpu_cycle:
  assumes "sound_cpu c" "run_pipeline_cycle c p = Inr (c', p')"
  shows "sound_cpu c'"
  using assms cycle_invariants[of c p c' p'] by (simp add: sound_cpu_def)

lemma clock_ticks:
  assumes "sound_cpu c" "clock_cycles (cpu_stats c) < limit" "run_pipeline_cycle c p = Inr (c', p')"
  shows "unat (clock_cycles (cpu_stats c')) = unat (clock_cycles (cpu_stats c)) + 1"
proof -
  have "regs_ok c" using assms(1) by (simp add: sound_cpu_def cpu_ok_regs_ok)
  then have "clock_cycles (cpu_stats c') = clock_cycles (cpu_stats c) + 1"
    using cycle_counted[OF _ assms(3)] by (simp add: counted_def)
  then show ?thesis
    using assms(2) u64_bound[of limit] by (simp add: unat_word_ariths word_less_nat_alt)
qed

lemma cycles_left_cycle:
  assumes "sound_cpu c" "keep_running options c" "run_pipeline_cycle c p = Inr (c', p')"
  shows "cycles_left options c = Suc (cycles_left options c')"
    "unat (clock_cycles (cpu_stats c')) = unat (clock_cycles (cpu_stats c)) + 1"
proof -
  have less: "clock_cycles (cpu_stats c) < max_cycles options"
    using assms(2) by (simp add: keep_running_def)
  show "unat (clock_cycles (cpu_stats c')) = unat (clock_cycles (cpu_stats c)) + 1"
    by (rule clock_ticks[OF assms(1) less assms(3)])
  then show "cycles_left options c = Suc (cycles_left options c')"
    using less by (simp add: cycles_left_def word_less_nat_alt)
qed

lemma simulate_runs:
  assumes "sound_cpu c" "cycles_left options c \<le> n"
  shows "case run_while (keep options) cycle n (c, p) of
      Inl e \<Rightarrow> simulate options c p t s = Some (Inl e)
    | Inr cp \<Rightarrow> (\<exists>s'. simulate options c p t s = Some (Inr (fst cp, snd cp, s'))) \<and>
        \<not> keep options cp"
  using assms
proof (induction n arbitrary: c p t s)
  case 0
  then have "\<not> keep_running options c"
    by (simp add: cycles_left_def keep_running_def word_less_nat_alt)
  then show ?case by (subst simulate.simps) simp
next
  case (Suc n)
  show ?case
  proof (cases "keep_running options c")
    case False
    then show ?thesis by (subst simulate.simps) simp
  next
    case True
    show ?thesis
    proof (cases "run_pipeline_cycle c p")
      case (Inl e)
      then show ?thesis using True by (subst simulate.simps) (simp add: cycle_def Let_def)
    next
      case (Inr cp)
      obtain c' p' where cp: "cp = (c', p')" by (cases cp)
      have step: "run_pipeline_cycle c p = Inr (c', p')" using Inr cp by simp
      have "cycles_left options c' \<le> n"
        using cycles_left_cycle(1)[OF Suc.prems(1) True step] Suc.prems(2) by simp
      from Suc.IH[OF sound_cpu_cycle[OF Suc.prems(1) step] this]
      have ih: "case run_while (keep options) cycle n (c', p') of
          Inl e \<Rightarrow> simulate options c' p' t' s' = Some (Inl e)
        | Inr cp \<Rightarrow> (\<exists>s''. simulate options c' p' t' s' = Some (Inr (fst cp, snd cp, s''))) \<and>
            \<not> keep options cp" for t' s' .
      define b where "b = should_print_trace options (clock_cycles (cpu_stats c)) t"
      have "simulate options c p t s = simulate options c' p' (if b then t + 1 else t)
          (if b then print_pipeline_trace c p s else s)"
        using True step by (subst simulate.simps) (simp add: Let_def b_def)
      moreover have "run_while (keep options) cycle (Suc n) (c, p) =
          run_while (keep options) cycle n (c', p')"
        using True step by (simp add: cycle_def)
      ultimately show ?thesis using ih by (simp only:)
    qed
  qed
qed

text \<open>Without a retire count the loop's guard is that of \<open>run_cycles\<close>.\<close>

lemma bounded_run_is_run_cycles:
  assumes "sound_cpu (fst cp)" "\<not> has_retire_count options" "n \<le> cycles_left options (fst cp)"
  shows "run_while (keep options) cycle n cp = run_cycles n cp"
  using assms(1,3) unfolding run_cycles_def
proof (induction n arbitrary: cp)
  case 0
  then show ?case by simp
next
  case (Suc n)
  have guard: "keep options cp \<longleftrightarrow> not_halted cp"
    using Suc.prems(2) assms(2)
    by (auto simp: keep_running_def not_halted_def cycles_left_def word_less_nat_alt)
  show ?case
  proof (cases "not_halted cp \<and> (\<exists>cp'. cycle cp = Inr cp')")
    case True
    then obtain cp' where cp': "cycle cp = Inr cp'" by blast
    then have step: "run_pipeline_cycle (fst cp) (snd cp) = Inr (fst cp', snd cp')"
      by (simp add: cycle_def)
    have "n \<le> cycles_left options (fst cp')"
      using cycles_left_cycle(1)[OF Suc.prems(1) _ step] guard True Suc.prems(2) by simp
    then show ?thesis
      using Suc.IH[OF sound_cpu_cycle[OF Suc.prems(1) step]] True guard cp' by simp
  next
    case False
    then show ?thesis using guard by (cases "cycle cp") auto
  qed
qed

lemma simulate_run_cycles:
  assumes "sound_cpu c" "\<not> has_retire_count options" "clock_cycles (cpu_stats c) = 0"
  shows "case run_cycles (unat (max_cycles options)) (c, p) of
      Inl e \<Rightarrow> simulate options c p t s = Some (Inl e)
    | Inr cp \<Rightarrow> (\<exists>s'. simulate options c p t s = Some (Inr (fst cp, snd cp, s')))"
proof -
  have left: "cycles_left options c = unat (max_cycles options)"
    using assms(3) by (simp add: cycles_left_def)
  show ?thesis
    using simulate_runs[OF assms(1), of options "unat (max_cycles options)" p t s]
      bounded_run_is_run_cycles[of "(c, p)" options "unat (max_cycles options)"] assms(1,2) left
    by (auto split: sum.splits)
qed

section \<open>Loading\<close>

lemma writes_ok_selection: "writes_ok c \<longleftrightarrow> ranges_fit (memory_size c) (selection c [])"
  by (auto simp: writes_ok_def ranges_fit_def selection_def range_end_def memory_size_def
      list_all_iff)

lemma loaded_sound:
  assumes "load_phase w opts s = Inr (c, s')"
  shows "sound_cpu c" "clock_cycles (cpu_stats c) = 0" "memory_size c = unat (opt_memory_size opts)"
    "\<not> cpu_halted c" "cpu_config c = opt_config opts" "cpu_stats c = zero_stats"
proof -
  let ?new = "new_CPU (unat (opt_memory_size opts)) (opt_config opts)"
  have "\<exists>program :: LoadedProgram. load_program ?new (lp_bytes program) (load_address opts) = Inr c"
    using assms unfolding load_phase_def case_prod_unfold
    by (auto simp only: res_bind_eq_Inr sum.inject prod.inject fst_conv snd_conv)
  then obtain program :: LoadedProgram where l: "load_program ?new (lp_bytes program) (load_address opts) = Inr c" ..
  have new: "cpu_ok ?new" using u32_bound[of "opt_memory_size opts"] by (intro new_CPU_ok) simp
  have "writes_ok c \<and> clock_cycles (cpu_stats c) = 0 \<and> memory_size c = unat (opt_memory_size opts) \<and>
      \<not> cpu_halted c \<and> cpu_config c = opt_config opts \<and> cpu_stats c = zero_stats"
  proof (cases "lp_bytes program = []")
    case True
    then show ?thesis using l
      by (auto simp: load_program_def new_CPU_def writes_ok_def zero_stats_def memory_size_def)
  next
    case False
    then have fits: "unat (load_address opts) + length (lp_bytes program) \<le> length (cpu_memory ?new)"
      using l load_program_out[of "lp_bytes program" ?new "load_address opts"] by force
    from load_program_in[OF False this] l fits show ?thesis
      by (auto simp: new_CPU_def writes_ok_def zero_stats_def memory_size_def length_splice_at)
  qed
  then show "sound_cpu c" "clock_cycles (cpu_stats c) = 0"
    "memory_size c = unat (opt_memory_size opts)" "\<not> cpu_halted c" "cpu_config c = opt_config opts"
    "cpu_stats c = zero_stats"
    using load_program_ok[OF new l] by (simp_all add: sound_cpu_def zero_stats_def)
qed

lemma run_while_sound:
  "sound_cpu (fst cp) \<Longrightarrow> run_while (keep opts) cycle n cp = Inr cp' \<Longrightarrow>
   sound_cpu (fst cp') \<and> memory_size (fst cp') = memory_size (fst cp)"
proof (induction n arbitrary: cp)
  case 0
  then show ?case by simp
next
  case (Suc n)
  show ?case
  proof (cases "keep opts cp")
    case False
    then show ?thesis using Suc.prems by simp
  next
    case True
    then obtain cp1 where c: "cycle cp = Inr cp1" "run_while (keep opts) cycle n cp1 = Inr cp'"
      using Suc.prems(2) by (auto simp: res_bind_eq_Inr)
    then have "run_pipeline_cycle (fst cp) (snd cp) = Inr (fst cp1, snd cp1)"
      by (simp add: cycle_def)
    from cycle_invariants[OF _ _ this] Suc.IH[OF _ c(2)] Suc.prems(1) show ?thesis
      by (simp add: sound_cpu_def memory_size_def)
  qed
qed

section \<open>After the loop\<close>

definition word_at :: "u8 list \<Rightarrow> u32 \<Rightarrow> u32" where
  "word_at memory a = le_value (take 4 (drop (unat a) memory))"

definition expectations_hold :: "CliOptions \<Rightarrow> u8 list \<Rightarrow> bool" where
  "expectations_hold opts memory =
     list_all (\<lambda>e. word_at memory (me_address e) = me_expected_value e) (memory_expectations opts)"

lemma check_succeeds:
  assumes "list_all (\<lambda>e. unat (me_address e) + 4 \<le> length (cpu_memory c)) checks"
    and "length (cpu_memory c) \<le> 2 ^ 32"
  shows "\<exists>s'. res_fold (check_memory_expectation c) checks (b, s) =
    Inr (b \<and> list_all (\<lambda>e. word_at (cpu_memory c) (me_address e) = me_expected_value e) checks, s')"
  using assms(1)
proof (induction checks arbitrary: b s)
  case Nil
  then show ?case by simp
next
  case (Cons e checks)
  have "read_u32 c (me_address e) = Inr (word_at (cpu_memory c) (me_address e))"
    using mem32.rd_in[OF assms(2), of "me_address e"] Cons.prems by (simp add: word_at_def)
  then obtain s1 where "check_memory_expectation c e (b, s) =
      Inr (b \<and> word_at (cpu_memory c) (me_address e) = me_expected_value e, s1)"
    by (simp add: check_memory_expectation_def Let_def del: emit_simps)
  then show ?case
    using Cons.IH[of "b \<and> word_at (cpu_memory c) (me_address e) = me_expected_value e" s1]
      Cons.prems by auto
qed

lemma check_all_succeeds:
  assumes "list_all (\<lambda>e. unat (me_address e) + 4 \<le> length (cpu_memory c)) (memory_expectations opts)"
    and "length (cpu_memory c) \<le> 2 ^ 32"
  shows "\<exists>s'. check_memory_expectations c (memory_expectations opts) s =
    Inr (expectations_hold opts (cpu_memory c), s')"
  using check_succeeds[OF assms, of True]
  by (simp add: check_memory_expectations_def expectations_hold_def del: emit_simps)

text \<open>What is asked for lies in memory, and the state file can be written.\<close>

definition requests_fit :: "CliOptions \<Rightarrow> bool" where
  "requests_fit opts \<longleftrightarrow>
     (dump_memory opts \<longrightarrow> dump_memory_length opts \<le> 0xFFFFFFF0 \<and>
        range_end (dump_memory_start opts) (dump_memory_length opts) \<le> unat (opt_memory_size opts)) \<and>
     ranges_fit (unat (opt_memory_size opts))
       (map (\<lambda>r. (range_start r, range_count r)) (state_memory_ranges opts)) \<and>
     list_all (\<lambda>e. unat (me_address e) + 4 \<le> unat (opt_memory_size opts)) (memory_expectations opts)"

definition can_save :: "World \<Rightarrow> CliOptions \<Rightarrow> bool" where
  "can_save w opts \<longleftrightarrow>
     (dump_state_path opts \<noteq> [] \<longrightarrow> w_can_open w (dump_state_path opts) \<and> w_can_write w (dump_state_path opts))"

lemma small_register: "i < 32 \<Longrightarrow> \<exists>v. read_reg c (of_nat i) = Inr v"
  using read_reg_in[of "of_nat i" c] by (simp add: unat_of_nat)

lemma print_registers_succeeds: "\<exists>s'. print_registers c s = Inr s'"
proof -
  have "\<exists>s'. res_bind (read_reg c (of_nat i)) (\<lambda>v.
      Inr (emit [Str ''  x'', Num i, Str '' = '', Num (unat v), Str newline] s)) = Inr s'"
    if "i \<in> set [0..<8]" for i s
    using small_register[of i c] that by (auto simp del: emit_simps)
  then show ?thesis unfolding print_registers_def by (intro res_fold_succeeds)
qed

lemma print_register_dump_succeeds: "\<exists>s'. print_register_dump c s = Inr s'"
proof -
  have "\<exists>s'. print_register_line c i s = Inr s'" if "i \<in> set [0..<32]" for i s
    using small_register[of i c] that by (auto simp: print_register_line_def simp del: emit_simps)
  then show ?thesis unfolding print_register_dump_def by (intro res_fold_succeeds)
qed

lemma dump_phase_succeeds:
  assumes "sound_cpu c" "memory_size c = unat (opt_memory_size opts)" "requests_fit opts"
  shows "\<exists>s'. dump_phase w opts c s = Some (Inr s')"
proof -
  have size: "memory_size c < 2 ^ 32" using assms(2) u32_bound by simp
  obtain s1 where 1: "print_registers c s = Inr s1" using print_registers_succeeds by blast
  define s2 where "s2 = print_stats w c s1"
  obtain s3 where 3: "(if dump_regs opts then Some (print_register_dump c s2) else Some (Inr s2)) =
      Some (Inr s3)"
    using print_register_dump_succeeds[of c s2] by (cases "dump_regs opts") auto
  obtain s4 where 4: "(if dump_memory opts
      then print_memory_dump c (dump_memory_start opts) (dump_memory_length opts) s3
      else Some (Inr s3)) = Some (Inr s4)"
    using memory_dump_returns_iff[of "dump_memory_start opts" "dump_memory_length opts" c s3] assms size
    by (cases "dump_memory opts") (auto simp: requests_fit_def)
  obtain s5 where 5: "(if dump_written_memory opts then print_written_memory_dump c s4
      else Some (Inr s4)) = Some (Inr s5)"
    using print_written_succeeds[OF size, of s4] assms(1)
    by (cases "dump_written_memory opts") (auto simp: sound_cpu_def writes_ok_selection)
  have "dump_phase w opts c s = Some (Inr s5)"
    unfolding dump_phase_def Let_def 1 out_bind_simps 3[unfolded s2_def] 4 5 ..
  then show ?thesis ..
qed

text \<open>The state file, when the selection fits.\<close>

definition dumps_state :: "CliOptions \<Rightarrow> CPU \<Rightarrow> string option \<Rightarrow> bool" where
  "dumps_state opts c saved \<longleftrightarrow>
     (if dump_state_path opts = [] then saved = None
      else \<exists>rs. saved = Some (json_text c rs) \<and> separated 0 rs \<and>
        list_all (\<lambda>r. snd r \<le> memory_size c) rs \<and>
        run_bytes rs = covered (selection c (state_memory_ranges opts)))"

lemma selection_fits:
  assumes "sound_cpu c" "memory_size c = unat (opt_memory_size opts)" "requests_fit opts"
  shows "ranges_fit (memory_size c) (selection c (state_memory_ranges opts))"
proof (cases "state_memory_ranges opts = []")
  case True
  then show ?thesis using assms(1) writes_ok_selection[of c] by (simp add: sound_cpu_def)
next
  case False
  then show ?thesis using assms(2,3) by (simp add: requests_fit_def selection_def)
qed

lemma write_state_succeeds:
  assumes "sound_cpu c" "memory_size c = unat (opt_memory_size opts)" "requests_fit opts"
    and "can_save w opts"
  shows "\<exists>s' saved. write_architectural_state w opts c s = Some (Inr (s', saved)) \<and>
    dumps_state opts c saved"
proof (cases "dump_state_path opts = []")
  case True
  then show ?thesis by (simp add: write_architectural_state_def dumps_state_def)
next
  case False
  have size: "memory_size c < 2 ^ 32" using assms(2) u32_bound by simp
  obtain rs where "print_architectural_state_json c (state_memory_ranges opts) new_stream =
      Some (Inr (plain (json_text c rs)))" "separated 0 rs"
    "list_all (\<lambda>r. snd r \<le> memory_size c) rs"
    "run_bytes rs = covered (selection c (state_memory_ranges opts))"
    using json_of_selection[OF size selection_fits[OF assms(1-3)], of "[]"]
    by (auto simp: new_stream_plain)
  then show ?thesis
    using False assms(4)
    by (auto simp: write_architectural_state_def dumps_state_def can_save_def Let_def
        simp del: emit_simps)
qed

lemma report_succeeds:
  assumes "sound_cpu c" "memory_size c = unat (opt_memory_size opts)" "requests_fit opts"
    and "can_save w opts"
  shows "\<exists>r. report_phase w opts c s = Some (Inr r) \<and> dumps_state opts c (state_file r) \<and>
    (exit_status r = 0 \<longleftrightarrow> (cpu_halted c \<or> has_retire_count opts \<and>
        retire_count opts \<le> instruction_count (cpu_stats c)) \<and> expectations_hold opts (cpu_memory c))"
proof -
  obtain s1 where 1: "dump_phase w opts c s = Some (Inr s1)"
    using dump_phase_succeeds[OF assms(1-3)] by blast
  obtain s2 saved where 2: "write_architectural_state w opts c s1 = Some (Inr (s2, saved))"
    "dumps_state opts c saved"
    using write_state_succeeds[OF assms] by blast
  have "list_all (\<lambda>e. unat (me_address e) + 4 \<le> length (cpu_memory c)) (memory_expectations opts)"
    "length (cpu_memory c) \<le> 2 ^ 32"
    using assms(1-3) by (simp_all add: requests_fit_def memory_size_def sound_cpu_def cpu_ok_def)
  then obtain s3 where 3: "check_memory_expectations c (memory_expectations opts) s2 =
      Inr (expectations_hold opts (cpu_memory c), s3)"
    using check_all_succeeds by blast
  show ?thesis
    unfolding report_phase_def 1 2(1) out_bind_simps prod.case 3 Let_def
    using 2(2) by auto
qed

section \<open>The program\<close>

lemma simulate_result:
  assumes "sound_cpu c" "simulate opts c p t s = Some (Inr (c', p', s'))"
  shows "\<exists>n. run_while (keep opts) cycle n (c, p) = Inr (c', p')" "\<not> keep_running opts c'"
  using simulate_runs[OF assms(1) order_refl, of opts p t s] assms(2)
  by (auto split: sum.splits)

lemma simulate_returns: "sound_cpu c \<Longrightarrow> simulate opts c p t s \<noteq> None"
  using simulate_runs[of c opts "cycles_left opts c" p t s] by (auto split: sum.splits)

lemma simulate_sound:
  assumes "sound_cpu c" "simulate opts c p t s = Some (Inr (c', p', s'))"
  shows "sound_cpu c'" "memory_size c' = memory_size c"
  using simulate_result(1)[OF assms] run_while_sound[of "(c, p)"] assms(1) by auto

lemma main_after_load:
  assumes "parse_cli args = Inr opts" "\<not> show_help opts"
    and "load_phase w opts new_stream = Inr (c, s)"
  shows "main_body w exe args = out_bind (simulate opts c empty_pipeline 0 s)
    (\<lambda>(cpu, pipeline, s). report_phase w opts cpu s)"
  using assms by (simp add: main_body_def)

lemma out_bind_returns:
  "m \<noteq> None \<Longrightarrow> (\<And>x. m = Some (Inr x) \<Longrightarrow> f x \<noteq> None) \<Longrightarrow> out_bind m f \<noteq> None"
  by (auto simp: out_bind_def split: option.splits sum.splits)

lemma json_returns:
  assumes "memory_size c < 2 ^ 32"
  shows "print_architectural_state_json c requested s \<noteq> None"
  using normalize_spec[OF assms, of requested]
  unfolding print_architectural_state_json_def
  by (intro out_bind_returns) (auto split: if_splits)

lemma report_returns:
  assumes "sound_cpu c" "memory_size c < 2 ^ 32"
    and "dump_memory opts \<longrightarrow> dump_memory_length opts \<le> 0xFFFFFFF0"
  shows "report_phase w opts c s \<noteq> None"
proof -
  have "print_memory_dump c (dump_memory_start opts) (dump_memory_length opts) s' \<noteq> None"
    if "dump_memory opts" for s'
    using memory_dump_returns_iff[of "dump_memory_start opts" "dump_memory_length opts" c s'] assms that
    by (cases "range_end (dump_memory_start opts) (dump_memory_length opts) \<le> memory_size c")
      (auto simp: print_memory_dump_def)
  moreover have "print_written_memory_dump c s' \<noteq> None" for s'
    using print_written_succeeds[OF assms(2), of s'] assms(1)
    by (auto simp: sound_cpu_def writes_ok_selection)
  ultimately have "dump_phase w opts c s \<noteq> None"
    unfolding dump_phase_def Let_def by (intro out_bind_returns) (auto split: if_splits)
  moreover have "write_architectural_state w opts c s' \<noteq> None" for s'
  proof -
    obtain y where y: "print_architectural_state_json c (state_memory_ranges opts) new_stream = Some y"
      using json_returns[OF assms(2)] by blast
    show ?thesis
      by (cases y) (simp_all add: write_architectural_state_def Let_def y del: emit_simps)
  qed
  moreover have "out_bind (Some (check_memory_expectations c checks s')) (\<lambda>(passed, s).
      Some (Inr (f passed s))) \<noteq> None" for checks s' and f :: "bool \<Rightarrow> Stream \<Rightarrow> Report"
    by (cases "check_memory_expectations c checks s'") auto
  ultimately show ?thesis
    unfolding report_phase_def Let_def
    by (intro out_bind_returns) (simp_all only: prod.case case_prod_unfold not_False_eq_True)
qed

lemma main_returns:
  assumes "\<And>opts. parse_cli args = Inr opts \<Longrightarrow> dump_memory opts \<Longrightarrow>
    dump_memory_length opts \<le> 0xFFFFFFF0"
  shows "main_body w exe args \<noteq> None"
proof (cases "parse_cli args")
  case (Inl e)
  then show ?thesis by (simp add: main_body_def)
next
  case (Inr opts)
  have "out_bind (simulate opts c empty_pipeline 0 s) (\<lambda>(cpu, pipeline, s). report_phase w opts cpu s)
      \<noteq> None" if l: "load_phase w opts new_stream = Inr (c, s)" for c s
  proof (rule out_bind_returns)
    note sound = loaded_sound(1,3)[OF l]
    show "simulate opts c empty_pipeline 0 s \<noteq> None" using sound(1) by (rule simulate_returns)
    fix x assume x: "simulate opts c empty_pipeline 0 s = Some (Inr x)"
    obtain c' p' s' where x': "x = (c', p', s')" by (cases x)
    note c' = simulate_sound[OF sound(1) x[unfolded x']]
    have "memory_size c' < 2 ^ 32" using c'(2) sound(2) u32_bound by simp
    then have "report_phase w opts c' s' \<noteq> None"
      using c'(1) assms[OF Inr] by (intro report_returns) auto
    then show "(case x of (cpu, pipeline, s) \<Rightarrow> report_phase w opts cpu s) \<noteq> None"
      by (simp only: x' prod.case not_False_eq_True)
  qed
  then show ?thesis
    using Inr by (cases "load_phase w opts new_stream") (auto simp: main_body_def)
qed

lemma main_runs_cpu:
  assumes "parse_cli args = Inr opts" "\<not> show_help opts" "\<not> has_retire_count opts"
    and "load_phase w opts new_stream = Inr (c, s)" "code_stable (arch_of c)"
    and "isa_steps n (arch_of c) = Inr z" "a_halted z" "3 * n + 2 \<le> unat (max_cycles opts)"
    and "requests_fit opts" "can_save w opts"
  shows "\<exists>r c'. main_body w exe args = Some (Inr r) \<and> cpu_halted c' \<and> arch_of c' = z \<and>
    dumps_state opts c' (state_file r) \<and>
    (exit_status r = 0 \<longleftrightarrow> expectations_hold opts (a_memory z)) \<and>
    sound_cpu c' \<and> memory_size c' = unat (opt_memory_size opts)"
proof -
  note sound = loaded_sound[OF assms(4)]
  have regs: "regs_ok c" using sound(1) by (simp add: sound_cpu_def cpu_ok_regs_ok)
  obtain c' p' where run: "run_cycles (unat (max_cycles opts)) (start c) = Inr (c', p')"
    "cpu_halted c'" "arch_of c' = z"
    using run_halts_start[OF regs assms(5-8)] by blast
  obtain s' where sim: "simulate opts c empty_pipeline 0 s = Some (Inr (c', p', s'))"
    using simulate_run_cycles[OF sound(1) assms(3) sound(2), of empty_pipeline 0 s] run(1)
    by (auto simp: start_def)
  have c': "sound_cpu c'" "memory_size c' = unat (opt_memory_size opts)"
    using simulate_sound[OF sound(1) sim] sound(3) by simp_all
  have memory: "cpu_memory c' = a_memory z" using run(3) by (auto simp: arch_of_def arch_at_def)
  from report_succeeds[OF c' assms(9,10), of s'] obtain r where
    r: "report_phase w opts c' s' = Some (Inr r)" "dumps_state opts c' (state_file r)"
      "exit_status r = 0 \<longleftrightarrow> (cpu_halted c' \<or> has_retire_count opts \<and>
         retire_count opts \<le> instruction_count (cpu_stats c')) \<and>
         expectations_hold opts (cpu_memory c')"
    by (elim exE conjE)
  have "main_body w exe args = Some (Inr r)"
    unfolding main_after_load[OF assms(1,2,4)] sim out_bind_simps prod.case r(1) ..
  moreover have "exit_status r = 0 \<longleftrightarrow> expectations_hold opts (a_memory z)"
    unfolding r(3) memory by (simp add: run(2))
  ultimately show ?thesis
    using run(2,3) r(2) c' by (intro exI[of _ r] exI[of _ c'] conjI) assumption+
qed

lemma main_runs:
  assumes "parse_cli args = Inr opts" "\<not> show_help opts" "\<not> has_retire_count opts"
    and "load_phase w opts new_stream = Inr (c, s)" "code_stable (arch_of c)"
    and "isa_steps n (arch_of c) = Inr z" "a_halted z" "3 * n + 2 \<le> unat (max_cycles opts)"
    and "requests_fit opts" "can_save w opts"
  shows "\<exists>r c'. main_body w exe args = Some (Inr r) \<and> cpu_halted c' \<and> arch_of c' = z \<and>
    dumps_state opts c' (state_file r) \<and>
    (exit_status r = 0 \<longleftrightarrow> expectations_hold opts (a_memory z))"
  using main_runs_cpu[OF assms, of exe] by (elim exE conjE) (intro exI conjI)

lemma main_faults:
  assumes "parse_cli args = Inr opts" "\<not> show_help opts" "\<not> has_retire_count opts"
    and "load_phase w opts new_stream = Inr (c, s)" "code_stable (arch_of c)"
    and "isa_steps n (arch_of c) = Inl e" "3 * n + 1 \<le> unat (max_cycles opts)"
  shows "main_body w exe args = Some (Inl e)"
proof -
  note sound = loaded_sound[OF assms(4)]
  have regs: "regs_ok c" using sound(1) by (simp add: sound_cpu_def cpu_ok_regs_ok)
  have "simulate opts c empty_pipeline 0 s = Some (Inl e)"
    using simulate_run_cycles[OF sound(1) assms(3) sound(2), of empty_pipeline 0 s]
      run_fails_start[OF regs assms(5-7)]
    by (simp add: start_def)
  then show ?thesis using main_after_load[OF assms(1,2,4)] by simp
qed

section \<open>A run that reports success\<close>

lemma check_sound:
  assumes "length (cpu_memory c) \<le> 2 ^ 32"
  shows "res_fold (check_memory_expectation c) checks (b, s) = Inr (b', s') \<Longrightarrow>
    b' = (b \<and> list_all (\<lambda>e. word_at (cpu_memory c) (me_address e) = me_expected_value e) checks)"
proof (induction checks arbitrary: b s)
  case Nil
  then show ?case by simp
next
  case (Cons e checks)
  then obtain v where v: "read_u32 c (me_address e) = Inr v"
    by (auto simp: check_memory_expectation_def res_bind_eq_Inr)
  then have "unat (me_address e) + 4 \<le> length (cpu_memory c)"
    using mem32.rd_out[of c "me_address e"] by (metis Inl_Inr_False not_less)
  then have "v = word_at (cpu_memory c) (me_address e)"
    using mem32.rd_in[OF assms, of "me_address e"] v by (simp add: word_at_def)
  then show ?case
    using Cons.prems Cons.IH v
    by (auto simp: check_memory_expectation_def Let_def simp del: emit_simps)
qed

lemma report_success_sound:
  assumes "report_phase w opts c s = Some (Inr r)" "exit_status r = 0" "sound_cpu c"
  shows "(cpu_halted c \<or> has_retire_count opts \<and> retire_count opts \<le> instruction_count (cpu_stats c)) \<and>
    expectations_hold opts (cpu_memory c)"
proof -
  have len: "length (cpu_memory c) \<le> 2 ^ 32" using assms(3) by (simp add: sound_cpu_def cpu_ok_def)
  have eq: "out_bind m f = Some (Inr y) \<Longrightarrow> \<exists>x. m = Some (Inr x) \<and> f x = Some (Inr y)"
    for m :: "'a outcome" and f :: "'a \<Rightarrow> 'b outcome" and y
    by (auto simp: out_bind_def split: option.splits sum.splits)
  obtain s1 where "out_bind (write_architectural_state w opts c s1) (\<lambda>(s, saved).
      out_bind (Some (check_memory_expectations c (memory_expectations opts) s)) (\<lambda>(passed, s).
        Some (Inr (if \<not> cpu_halted c \<and> \<not> (has_retire_count opts \<and>
            retire_count opts \<le> instruction_count (cpu_stats c))
          then \<lparr>exit_status = 1, console = s_text s, complaint = newline @
                 ''Simulation stopped before all instructions retired'' @ newline, state_file = saved\<rparr>
          else \<lparr>exit_status = (if passed then 0 else 1), console = s_text s, complaint = [],
                state_file = saved\<rparr>)))) = Some (Inr r)"
    using assms(1) unfolding report_phase_def Let_def
    by (auto simp: out_bind_def[of "dump_phase w opts c s"] split: option.splits sum.splits)
  then obtain s2 saved passed s3 where
    check: "check_memory_expectations c (memory_expectations opts) s2 = Inr (passed, s3)" and
    r: "r = (if \<not> cpu_halted c \<and> \<not> (has_retire_count opts \<and>
            retire_count opts \<le> instruction_count (cpu_stats c))
          then \<lparr>exit_status = 1, console = s_text s3, complaint = newline @
                 ''Simulation stopped before all instructions retired'' @ newline, state_file = saved\<rparr>
          else \<lparr>exit_status = (if passed then 0 else 1), console = s_text s3, complaint = [],
                state_file = saved\<rparr>)"
    by (cases "write_architectural_state w opts c s1")
      (auto simp: out_bind_def split: sum.splits prod.splits)
  have "passed \<longrightarrow> expectations_hold opts (cpu_memory c)"
  proof (cases "memory_expectations opts = []")
    case True
    then show ?thesis by (simp add: expectations_hold_def)
  next
    case False
    then have "res_fold (check_memory_expectation c) (memory_expectations opts)
        (True, emit [Str (newline @ ''Memory expectations:'' @ newline)] s2) = Inr (passed, s3)"
      using check by (simp add: check_memory_expectations_def del: emit_simps)
    from check_sound[OF len this] show ?thesis by (simp add: expectations_hold_def)
  qed
  then show ?thesis using r assms(2) by (auto split: if_splits)
qed

lemma main_success_sound:
  assumes "main_body w exe args = Some (Inr r)" "exit_status r = 0"
    and "parse_cli args = Inr opts" "\<not> show_help opts" "\<not> has_retire_count opts"
    and "load_phase w opts new_stream = Inr (c, s)" "code_stable (arch_of c)"
  shows "\<exists>n z. n \<le> 2 * unat (max_cycles opts) \<and> isa_steps n (arch_of c) = Inr z \<and> a_halted z \<and>
    expectations_hold opts (a_memory z)"
proof -
  note sound = loaded_sound[OF assms(6)]
  have regs: "regs_ok c" using sound(1) by (simp add: sound_cpu_def cpu_ok_regs_ok)
  have body: "out_bind (simulate opts c empty_pipeline 0 s)
      (\<lambda>(cpu, pipeline, s). report_phase w opts cpu s) = Some (Inr r)"
    using assms(1) main_after_load[OF assms(3,4,6)] by simp
  then obtain c' p' s' where sim: "simulate opts c empty_pipeline 0 s = Some (Inr (c', p', s'))"
    and rep: "report_phase w opts c' s' = Some (Inr r)"
    by (cases "simulate opts c empty_pipeline 0 s") (auto simp: out_bind_def split: sum.splits)
  have run: "run_cycles (unat (max_cycles opts)) (start c) = Inr (c', p')"
    using simulate_run_cycles[OF sound(1) assms(5) sound(2), of empty_pipeline 0 s] sim
    by (auto simp: start_def split: sum.splits)
  have final: "cpu_halted c'" "expectations_hold opts (cpu_memory c')"
    using report_success_sound[OF rep assms(2) simulate_sound(1)[OF sound(1) sim]] assms(5) by auto
  obtain m where "m \<le> 2 * unat (max_cycles opts)" "isa_steps m (arch_of c) = Inr (arch_of c')"
    "a_halted (arch_of c')"
    using run_halted_start[OF regs assms(7) run final(1)] by blast
  moreover have "a_memory (arch_of c') = cpu_memory c'" by (simp add: arch_of_def arch_at_def)
  ultimately show ?thesis using final(2) by metis
qed

section \<open>Statistics\<close>

text \<open>Every counter is bounded by the clock, and the target of retired instructions is not passed.\<close>

definition stats_bounded :: "CliOptions \<Rightarrow> CPU \<Rightarrow> bool" where
  "stats_bounded opts c \<longleftrightarrow> (let st = cpu_stats c in
     instruction_count st \<le> clock_cycles st \<and> stall_cycles st \<le> clock_cycles st \<and>
     branch_predictions st \<le> clock_cycles st \<and>
     branch_mispredictions st \<le> branch_predictions st \<and> clock_cycles st \<le> max_cycles opts \<and>
     (has_retire_count opts \<longrightarrow> instruction_count st \<le> retire_count opts))"

lemma loaded_stats:
  assumes "load_phase w opts s = Inr (c, s')"
  shows "stats_bounded opts c"
  using loaded_sound(6)[OF assms] by (simp add: stats_bounded_def zero_stats_def)

lemma unat_add_bool:
  assumes "unat (v :: u64) < 2 ^ 64 - 1"
  shows "unat (v + of_bool b) = unat v + of_bool b"
  using assms by (cases b) (simp_all add: unat_word_ariths)

lemma stats_bounded_cycle:
  assumes "sound_cpu c" "stats_bounded opts c" "keep_running opts c"
    and "run_pipeline_cycle c p = Inr (c', p')"
  shows "stats_bounded opts c'"
proof -
  have "regs_ok c" using assms(1) by (simp add: sound_cpu_def cpu_ok_regs_ok)
  then have st: "cpu_stats c' = counted p (cpu_stats c)" using assms(4) by (rule cycle_counted)
  let ?s = "cpu_stats c"
  have clock: "unat (clock_cycles ?s) < unat (max_cycles opts)"
    using assms(3) by (simp add: keep_running_def word_less_nat_alt)
  have small: "unat (clock_cycles ?s) < 2 ^ 64 - 1"
    using clock u64_bound[of "max_cycles opts"] by simp
  have le: "unat (instruction_count ?s) \<le> unat (clock_cycles ?s)"
    "unat (stall_cycles ?s) \<le> unat (clock_cycles ?s)"
    "unat (branch_predictions ?s) \<le> unat (clock_cycles ?s)"
    "unat (branch_mispredictions ?s) \<le> unat (branch_predictions ?s)"
    using assms(2) by (simp_all add: stats_bounded_def Let_def word_le_nat_alt)
  have sums: "unat (instruction_count ?s + of_bool b) = unat (instruction_count ?s) + of_bool b"
    "unat (stall_cycles ?s + of_bool b) = unat (stall_cycles ?s) + of_bool b"
    "unat (branch_predictions ?s + of_bool b) = unat (branch_predictions ?s) + of_bool b"
    "unat (branch_mispredictions ?s + of_bool b) = unat (branch_mispredictions ?s) + of_bool b" for b
    by (rule unat_add_bool, use le small in linarith)+
  have tick: "unat (clock_cycles ?s + 1) = unat (clock_cycles ?s) + 1"
    using unat_add_bool[OF small, of True] by simp
  have retired: "has_retire_count opts \<longrightarrow>
      unat (instruction_count ?s) < unat (retire_count opts)"
    using assms(3) by (simp add: keep_running_def word_less_nat_alt)
  have "redirected p \<longrightarrow> idex_valid (id_ex p)" by (simp add: redirected_def)
  then have valid: "of_bool (redirected p \<and> branch (idex_control (id_ex p))) \<le>
      (of_bool (idex_valid (id_ex p) \<and> branch (idex_control (id_ex p))) :: nat)" by auto
  have one: "of_bool b \<le> (1 :: nat)" for b by simp
  show ?thesis
    unfolding stats_bounded_def Let_def st counted_def ExecutionStats.simps word_le_nat_alt tick sums
    using le clock retired valid one by (auto simp: of_bool_def)
qed

lemma run_while_stats:
  "sound_cpu (fst cp) \<Longrightarrow> stats_bounded opts (fst cp) \<Longrightarrow>
   run_while (keep opts) cycle n cp = Inr cp' \<Longrightarrow> stats_bounded opts (fst cp')"
proof (induction n arbitrary: cp)
  case 0
  then show ?case by simp
next
  case (Suc n)
  show ?case
  proof (cases "keep opts cp")
    case False
    then show ?thesis using Suc.prems by simp
  next
    case True
    then obtain cp1 where c: "cycle cp = Inr cp1" "run_while (keep opts) cycle n cp1 = Inr cp'"
      using Suc.prems(3) by (auto simp: res_bind_eq_Inr)
    then have step: "run_pipeline_cycle (fst cp) (snd cp) = Inr (fst cp1, snd cp1)"
      by (simp add: cycle_def)
    show ?thesis
      using Suc.IH[OF sound_cpu_cycle[OF Suc.prems(1) step]
          stats_bounded_cycle[OF Suc.prems(1,2) True step] c(2)] .
  qed
qed

end
