(* ===== verification/Committed.thy ===== *)
theory Committed
  imports Main_Loop
begin

text \<open>
  What is architectural in the middle of a run. The registers, the halt flag and the number of
  retired instructions are those of the machine before the instruction in MEM/WB; the memory,
  which is written one stage earlier, and the write log are those after it. So the state
  \<open>main\<close> reports when it stops at a retire count is that of two nearby states of the machine.
\<close>

section \<open>Two states behind\<close>

text \<open>
  The pipeline trails \<open>u\<close> and \<open>v\<close>: \<open>u\<close> is what has been written back, \<open>v\<close> what will have been once
  MEM/WB is.
\<close>

definition trails :: "CPU \<Rightarrow> PipelineRegisters \<Rightarrow> Arch \<Rightarrow> Arch \<Rightarrow> bool" where
  "trails c p u v \<longleftrightarrow>
     arch_at (a_pc u) c = u\<lparr>a_memory := a_memory v, a_writes := a_writes v\<rparr> \<and>
     res_map (arch_at (a_pc v)) (wb_latch c (mem_wb p)) = Inr v"

lemma mem_latch_arch:
  assumes "mem_latch c r = Inr (c', l)"
  shows "arch_at q c' = (arch_at q c)\<lparr>a_memory := cpu_memory c', a_writes := cpu_memory_writes c'\<rparr>"
  using assms
  by (cases "exmem_valid r")
    (auto simp: mem_latch_valid res_bind_eq_Inr arch_at_def write_memory_def write_u8_def
      write_u16_def write_u32_def Let_def set_byte_def record_memory_write_def
      split: MemoryAccessWidth.splits if_splits)

lemma trails_cycle:
  assumes r: "refines c p s" and t: "trails c p u v" and cyc: "run_pipeline_cycle c p = Inr (c', p')"
  shows "trails c' p' v s"
proof -
  obtain c1 c2 m cd where f: "wb_latch c (mem_wb p) = Inr c1"
    "mem_latch c1 (ex_mem p) = Inr (c2, m)" "wb_latch c2 m = Inr cd"
    "arch_at (commit_pc c p) cd = s" "regs_ok c2" "wb_wf m"
    by (rule refinesD[OF r]) (auto intro: that)
  have "regs_ok c" using r by (simp add: refines_def)
  then have "rest_of_cycle c2 m p = (c', p')"
    using cyc by (simp add: run_pipeline_cycle_normal f(1,2))
  then have n: "c' = fst (rest_of_cycle c2 m p)" "mem_wb p' = m"
    using rest_of_cycle_latches(4)[of c2 m p] by simp_all
  have agr: "agree c2 c'" by (simp add: agree_def n)
  obtain cd' where cd': "wb_latch c' m = Inr cd'" "agree cd cd'"
    using agree_wb_latch[OF agr f(5,6,3)] by blast
  have s: "arch_at (commit_pc c p) cd' = s" using f(4) agree_arch[OF cd'(2)] by simp
  then have s': "arch_at (a_pc s) cd' = s" by auto
  have "arch_at (a_pc v) c1 = v" using t f(1) by (simp add: trails_def)
  then have "arch_at (a_pc v) c' = v\<lparr>a_memory := cpu_memory c2, a_writes := cpu_memory_writes c2\<rparr>"
    using mem_latch_arch[OF f(2), of "a_pc v"] agree_arch[OF agr, of "a_pc v"] by simp
  moreover have "a_memory s = cpu_memory c2" "a_writes s = cpu_memory_writes c2"
    using wb_latch_frame[OF f(3)] wb_latch_kept[OF f(3)] f(4) by auto
  ultimately show ?thesis using cd'(1) s' by (simp add: trails_def n(2))
qed

lemma trails_start: "trails c empty_pipeline (arch_of c) (arch_of c)"
  by (simp add: trails_def arch_of_def empty_pipeline_def)

section \<open>Runs\<close>

lemma run_trails:
  assumes "refines (fst cp) (snd cp) s" "code_stable s" "trails (fst cp) (snd cp) u v"
    and "isa_steps i u = Inr v" "isa_steps j v = Inr s"
    and "\<And>cp. g cp \<Longrightarrow> not_halted cp" "run_while g cycle n cp = Inr cp'"
  shows "\<exists>k l u' v'. isa_steps k u = Inr u' \<and> isa_steps l u' = Inr v' \<and>
    trails (fst cp') (snd cp') u' v'"
  using assms
proof (induction n arbitrary: cp s u v i j)
  case 0
  then show ?case by (intro exI[of _ 0] exI[of _ i] exI[of _ u] exI[of _ v]) simp
next
  case (Suc n)
  show ?case
  proof (cases "g cp")
    case False
    then show ?thesis
      using Suc.prems by (intro exI[of _ 0] exI[of _ i] exI[of _ u] exI[of _ v]) simp
  next
    case True
    then obtain cp1 where c1: "cycle cp = Inr cp1" "run_while g cycle n cp1 = Inr cp'"
      using Suc.prems(7) by (auto simp: res_bind_eq_Inr)
    then have "run_pipeline_cycle (fst cp) (snd cp) = Inr (fst cp1, snd cp1)"
      by (simp add: cycle_def)
    from trails_cycle[OF Suc.prems(1,3) this] have t: "trails (fst cp1) (snd cp1) v s" .
    consider (go) m t' where "isa_steps m s = Inr t'" "refines (fst cp1) (snd cp1) t'"
      | (fails) e where "cycle cp1 = Inl e"
      using pipeline_simulates[OF Suc.prems(1) Suc.prems(6)[OF True] Suc.prems(2)] c1(1)
      by (auto simp: isa_steps_iterate)
    then show ?thesis
    proof cases
      case go
      have "code_stable t'"
        using pipeline.safe_iterate[OF Suc.prems(2), of m t'] go(1) by (simp add: isa_steps_iterate)
      from Suc.IH[OF go(2) this t Suc.prems(5) go(1) Suc.prems(6) c1(2)]
      obtain k l u' v' where "isa_steps k v = Inr u'" "isa_steps l u' = Inr v'"
        "trails (fst cp') (snd cp') u' v'"
        by blast
      then show ?thesis
        using Suc.prems(4) by (intro exI[of _ "i + k"] exI[of _ l]) (auto simp: isa_steps_add)
    next
      case fails
      then have "cp' = cp1" using c1(2) by (cases n) (auto split: if_splits)
      then show ?thesis using t Suc.prems(4,5) by blast
    qed
  qed
qed

lemma simulate_trails:
  assumes "load_phase w opts s = Inr (c, s1)" "code_stable (arch_of c)"
    and "simulate opts c empty_pipeline 0 s2 = Some (Inr (c', p', s3))"
  shows "\<exists>k j u v. isa_steps k (arch_of c) = Inr u \<and> isa_steps j u = Inr v \<and> trails c' p' u v"
proof -
  note sound = loaded_sound[OF assms(1)]
  have "regs_ok c" using sound(1) by (simp add: sound_cpu_def cpu_ok_regs_ok)
  from refines_start[OF this] have r: "refines c empty_pipeline (arch_of c)"
    by (simp only: arch_of_def)
  obtain n where run: "run_while (keep opts) cycle n (c, empty_pipeline) = Inr (c', p')"
    using simulate_result(1)[OF sound(1) assms(3)] by blast
  have "keep opts cp \<Longrightarrow> not_halted cp" for cp by (simp add: keep_running_def not_halted_def)
  then show ?thesis
    using run_trails[of "(c, empty_pipeline)" "arch_of c" "arch_of c" "arch_of c" 0 0 "keep opts" n
        "(c', p')"] r trails_start[of c] assms(2) run by simp
qed

text \<open>What trailing says of the parts of the state.\<close>

lemma trails_parts:
  assumes "trails c p u v" "regs_ok c"
  shows "unat q < 32 \<Longrightarrow> reg_val c q = isa_get u q" "cpu_halted c = a_halted u"
    "instruction_count (cpu_stats c) = a_retired u" "cpu_memory c = a_memory v"
    "cpu_memory_writes c = a_writes v"
    "a_retired v = a_retired u + of_bool (memwb_valid (mem_wb p))"
proof -
  have a: "arch_at (a_pc u) c = u\<lparr>a_memory := a_memory v, a_writes := a_writes v\<rparr>"
    using assms(1) by (simp add: trails_def)
  show "reg_val c q = isa_get u q" if "unat q < 32"
  proof -
    have "reg_val c q = isa_get (arch_at (a_pc u) c) q" using assms(2) that by simp
    then show ?thesis by (simp add: a isa_get_def)
  qed
  have parts: "cpu_halted c = a_halted (arch_at (a_pc u) c)"
    "instruction_count (cpu_stats c) = a_retired (arch_at (a_pc u) c)"
    "cpu_memory c = a_memory (arch_at (a_pc u) c)"
    "cpu_memory_writes c = a_writes (arch_at (a_pc u) c)"
    by simp_all
  show "cpu_halted c = a_halted u" "instruction_count (cpu_stats c) = a_retired u"
    "cpu_memory c = a_memory v" "cpu_memory_writes c = a_writes v"
    unfolding parts a by simp_all
  obtain c1 where c1: "wb_latch c (mem_wb p) = Inr c1" "arch_at (a_pc v) c1 = v"
    using assms(1) by (auto simp: trails_def res_map_def res_bind_eq_Inr)
  have "a_retired v = instruction_count (cpu_stats c1)"
    by (subst c1(2)[symmetric]) simp
  then show "a_retired v = a_retired u + of_bool (memwb_valid (mem_wb p))"
    using wb_latch_stats[OF c1(1)] parts(2) by (simp add: a)
qed

text \<open>A run that stops for neither of the other reasons has retired what was asked for.\<close>

lemma simulate_bounded:
  assumes "load_phase w opts s = Inr (c, s1)"
    and "simulate opts c empty_pipeline 0 s2 = Some (Inr (c', p', s3))"
  shows "stats_bounded opts c'"
proof -
  note sound = loaded_sound[OF assms(1)]
  obtain n where "run_while (keep opts) cycle n (c, empty_pipeline) = Inr (c', p')"
    using simulate_result(1)[OF sound(1) assms(2)] by blast
  then show ?thesis
    using run_while_stats[of "(c, empty_pipeline)" opts n] sound(1) loaded_stats[OF assms(1)] by auto
qed

lemma simulate_stops:
  assumes "load_phase w opts s = Inr (c, s1)"
    and "simulate opts c empty_pipeline 0 s2 = Some (Inr (c', p', s3))"
    and "\<not> cpu_halted c'" "clock_cycles (cpu_stats c') < max_cycles opts"
  shows "has_retire_count opts \<and> instruction_count (cpu_stats c') = retire_count opts"
proof -
  have "has_retire_count opts \<longrightarrow> instruction_count (cpu_stats c') \<le> retire_count opts"
    using simulate_bounded[OF assms(1,2)] by (simp add: stats_bounded_def Let_def)
  moreover have "\<not> keep_running opts c'"
    using simulate_result(2)[OF loaded_sound(1)[OF assms(1)] assms(2)] .
  ultimately show ?thesis using assms(3,4) by (auto simp: keep_running_def)
qed

section \<open>What success means\<close>

text \<open>
  Exit status 0 of a run: the machine has halted, or it has come to the number of instructions
  asked for, with the memory of at most one instruction more.
\<close>

lemma main_success_cases:
  assumes "main_body w exe args = Some (Inr r)" "exit_status r = 0"
    and "parse_cli args = Inr opts" "\<not> show_help opts"
    and "load_phase w opts new_stream = Inr (c, s)" "code_stable (arch_of c)"
  shows "\<exists>k j u v. isa_steps k (arch_of c) = Inr u \<and> isa_steps j u = Inr v \<and>
    expectations_hold opts (a_memory v) \<and>
    (a_halted u \<and> v = u \<and> (\<not> has_retire_count opts \<longrightarrow> k \<le> 2 * unat (max_cycles opts)) \<or>
     has_retire_count opts \<and> a_retired u = retire_count opts \<and>
       (a_retired v = a_retired u \<or> a_retired v = a_retired u + 1))"
proof (cases "has_retire_count opts")
  case False
  from main_success_sound[OF assms(1-4) False assms(5,6)] obtain n z where
    z: "n \<le> 2 * unat (max_cycles opts)" "isa_steps n (arch_of c) = Inr z" "a_halted z"
    "expectations_hold opts (a_memory z)" by blast
  then show ?thesis
    by (intro exI[of _ n] exI[of _ 0] exI[of _ z]) simp
next
  case True
  note sound = loaded_sound[OF assms(5)]
  have body: "out_bind (simulate opts c empty_pipeline 0 s)
      (\<lambda>(cpu, pipeline, s). report_phase w opts cpu s) = Some (Inr r)"
    using assms(1) main_after_load[OF assms(3-5)] by simp
  then obtain c' p' s' where sim: "simulate opts c empty_pipeline 0 s = Some (Inr (c', p', s'))"
    and rep: "report_phase w opts c' s' = Some (Inr r)"
    by (cases "simulate opts c empty_pipeline 0 s") (auto simp: out_bind_def split: sum.splits)
  note sound' = simulate_sound(1)[OF sound(1) sim]
  have final: "cpu_halted c' \<or> retire_count opts \<le> instruction_count (cpu_stats c')"
    "expectations_hold opts (cpu_memory c')"
    using report_success_sound[OF rep assms(2) sound'] by auto
  obtain k j u v where uv: "isa_steps k (arch_of c) = Inr u" "isa_steps j u = Inr v" "trails c' p' u v"
    using simulate_trails[OF assms(5,6) sim] by blast
  have "regs_ok c'" using sound' by (simp add: sound_cpu_def cpu_ok_regs_ok)
  note parts = trails_parts[OF uv(3) this]
  have halted: "v = u" if "a_halted u"
    using uv(2) that by (simp add: isa_steps_iterate iterate_fixed)
  have "instruction_count (cpu_stats c') \<le> retire_count opts"
    using simulate_bounded[OF assms(5) sim] True by (simp add: stats_bounded_def Let_def)
  then have "a_halted u \<or> a_retired u = retire_count opts" using final(1) parts(2,3) by auto
  then show ?thesis
    using uv(1,2) final(2) parts(4,6) True halted by (intro exI[of _ k] exI[of _ j] exI[of _ u] exI[of _ v]) auto
qed

end
