(* ===== verification/Machine_Events.thy ===== *)
theory Machine_Events
  imports Pipeline_Correct
begin

text \<open>
  What a pipeline pays for, read off a run of the machine alone: loads whose result the next
  instruction uses, jumps, and branches that do not go where a static predictor expects. And the
  number of steps after which a machine halts.
\<close>

section \<open>What the machine does\<close>

definition isa_word :: "Arch \<Rightarrow> u32 option" where
  "isa_word s = (if a_halted s then None else isa_fetch (a_memory s) (a_pc s))"

definition executes_kind :: "InstructionKind list \<Rightarrow> Arch \<Rightarrow> bool" where
  "executes_kind ks s = (case isa_word s of None \<Rightarrow> False
     | Some i \<Rightarrow> d_kind (decode_instruction i) \<in> set ks)"

definition load_kinds :: "InstructionKind list" where
  "load_kinds = [K_Lb, K_Lh, K_Lw, K_Lbu, K_Lhu]"

definition branch_kinds :: "InstructionKind list" where
  "branch_kinds = [K_Beq, K_Bne, K_Blt, K_Bge, K_Bltu, K_Bgeu]"

definition jump_kinds :: "InstructionKind list" where
  "jump_kinds = [K_Jal, K_Jalr]"

text \<open>A load whose result the next instruction reads.\<close>

definition load_use_pair :: "Arch \<Rightarrow> Arch \<Rightarrow> bool" where
  "load_use_pair s t \<longleftrightarrow> executes_kind load_kinds s \<and>
     (case (isa_word s, isa_word t) of
        (Some i, Some j) \<Rightarrow> reads_register j (d_rd (decode_instruction i)) | _ \<Rightarrow> False)"

text \<open>A jump to anywhere but the next instruction.\<close>

definition jump_away :: "Arch \<Rightarrow> Arch \<Rightarrow> bool" where
  "jump_away s t \<longleftrightarrow> executes_kind jump_kinds s \<and> a_pc t \<noteq> a_pc s + 4"

definition branch_done :: "Arch \<Rightarrow> Arch \<Rightarrow> bool" where
  "branch_done s t \<longleftrightarrow> executes_kind branch_kinds s"

text \<open>A branch that does not go where a static predictor expects it to.\<close>

definition static_next :: "BranchPredictorType \<Rightarrow> u32 \<Rightarrow> u32 \<Rightarrow> u32" where
  "static_next ty pc i = (if ty = AlwaysTaken then pc + d_immediate (decode_instruction i) else pc + 4)"

definition branch_away :: "BranchPredictorType \<Rightarrow> Arch \<Rightarrow> Arch \<Rightarrow> bool" where
  "branch_away ty s t \<longleftrightarrow> executes_kind branch_kinds s \<and>
     (case isa_word s of None \<Rightarrow> False | Some i \<Rightarrow> a_pc t \<noteq> static_next ty (a_pc s) i)"

text \<open>How many of the first \<open>n\<close> steps have a property.\<close>

primrec tally :: "(Arch \<Rightarrow> Arch \<Rightarrow> bool) \<Rightarrow> nat \<Rightarrow> Arch \<Rightarrow> nat" where
  "tally P 0 s = 0"
| "tally P (Suc n) s = (case isa_step s of Inl e \<Rightarrow> 0 | Inr t \<Rightarrow> of_bool (P s t) + tally P n t)"

lemma tally_add: "isa_steps m s = Inr t \<Longrightarrow> tally P (m + n) s = tally P m s + tally P n t"
  by (induction m arbitrary: s) (auto simp: res_bind_eq_Inr)

lemma control_of_groups:
  "mem_read (control_of k) \<longleftrightarrow> k \<in> set load_kinds" "branch (control_of k) \<longleftrightarrow> k \<in> set branch_kinds"
  "jump (control_of k) \<longleftrightarrow> k \<in> set jump_kinds"
  by (cases k; simp add: signal_defs load_control_def store_control_def load_kinds_def
      branch_kinds_def jump_kinds_def)+

text \<open>The machine halts after exactly \<open>n\<close> steps.\<close>

definition halts_after :: "nat \<Rightarrow> Arch \<Rightarrow> bool" where
  "halts_after n s \<longleftrightarrow> (\<exists>z. isa_steps n s = Inr z \<and> a_halted z) \<and>
     (\<forall>i < n. \<forall>u. isa_steps i s = Inr u \<longrightarrow> \<not> a_halted u)"

lemma halts_after_state:
  assumes "halts_after n s" "isa_steps m s = Inr u" "\<forall>i < m. \<forall>u. isa_steps i s = Inr u \<longrightarrow> \<not> a_halted u"
  shows "m \<le> n" "a_halted u \<longleftrightarrow> m = n"
    "\<not> a_halted u \<Longrightarrow> isa_fetch (a_memory u) (a_pc u) \<noteq> None \<and> (\<exists>t. isa_step u = Inr t)"
proof -
  obtain z where z: "isa_steps n s = Inr z" "a_halted z"
    and before: "\<And>i u. i < n \<Longrightarrow> isa_steps i s = Inr u \<Longrightarrow> \<not> a_halted u"
    using assms(1) by (auto simp: halts_after_def)
  show le: "m \<le> n" using assms(3) z by (meson not_le)
  show iff: "a_halted u \<longleftrightarrow> m = n" using le before[of m u] assms(2) z by (cases "m = n") auto
  show "isa_fetch (a_memory u) (a_pc u) \<noteq> None \<and> (\<exists>t. isa_step u = Inr t)" if u: "\<not> a_halted u"
  proof -
    have rest: "isa_steps (n - m) u = Inr z"
      using isa_steps_add[of m "n - m" s] le z(1) assms(2) by simp
    have "m < n" using iff u le by simp
    then obtain k where k: "n - m = Suc k" by (metis Suc_diff_Suc)
    then have "\<exists>t. isa_step u = Inr t" using rest by (auto simp: res_bind_eq_Inr)
    moreover have "isa_step u \<noteq> Inr u"
      using rest u z(2) by (auto simp: isa_steps_iterate iterate_fixed)
    ultimately show ?thesis using u by (auto simp: isa_step_def split: option.splits)
  qed
qed

text \<open>The same by evaluation.\<close>

definition halts_at :: "nat \<Rightarrow> Arch \<Rightarrow> bool" where
  "halts_at n s \<longleftrightarrow> (case isa_steps n s of Inl e \<Rightarrow> False | Inr z \<Rightarrow> a_halted z) \<and>
     list_all (\<lambda>i. case isa_steps i s of Inl e \<Rightarrow> True | Inr u \<Rightarrow> \<not> a_halted u) [0..<n]"

lemma halts_at_after: "halts_at n s \<Longrightarrow> halts_after n s"
  by (auto simp: halts_at_def halts_after_def list_all_iff split: sum.splits)

section \<open>Memory keeps its size\<close>

lemma isa_fetch_None: "isa_fetch m pc = None \<longleftrightarrow> \<not> unat pc + 4 \<le> length m"
  by (simp add: isa_fetch_def)

lemma isa_group_length:
  "isa_reg_reg d s = Inr t \<Longrightarrow> length (a_memory t) = length (a_memory s)"
  "isa_reg_imm d s = Inr t \<Longrightarrow> length (a_memory t) = length (a_memory s)"
  "isa_branch d s = Inr t \<Longrightarrow> length (a_memory t) = length (a_memory s)"
  "isa_loaded d n ext s = Inr t \<Longrightarrow> length (a_memory t) = length (a_memory s)"
  "isa_stored d n s = Inr t \<Longrightarrow> length (a_memory t) = length (a_memory s)"
  "isa_halt s = Inr t \<Longrightarrow> length (a_memory t) = length (a_memory s)"
  by (auto simp: isa_reg_reg_def isa_reg_imm_def isa_branch_def isa_loaded_def isa_stored_def
      isa_halt_def isa_store_def res_bind_eq_Inr split: if_splits)

lemma isa_step_length:
  assumes "isa_step s = Inr t"
  shows "length (a_memory t) = length (a_memory s)"
proof (cases "a_halted s \<or> isa_fetch (a_memory s) (a_pc s) = None")
  case True
  then show ?thesis using assms by (auto simp: isa_step_def split: if_splits)
next
  case False
  then obtain i where "isa_execute (decode_instruction i) s = Inr t"
    using assms by (auto simp: isa_step_def split: if_splits)
  then show ?thesis unfolding isa_execute_def
    by (cases "d_kind (decode_instruction i)") (simp_all add: isa_group_length, auto)
qed

end
