(* ===== verification/Cycle_Count.thy ===== *)
theory Cycle_Count
  imports Machine_Events Main_Loop
begin

text \<open>
  The clock of the pipeline, exactly: a halting run takes one cycle per step of the machine, four
  to fill and drain the pipeline, and one for each load-use stall, each jump away and each
  misprediction. A state of the pipeline is ahead of the instructions it has performed by its
  slack, the cycles spent on filling it, and every cycle keeps the account balanced.
\<close>

section \<open>The front end\<close>

definition predicted_as :: "BranchPredictorType \<Rightarrow> u32 \<Rightarrow> u32 \<Rightarrow> u32 \<Rightarrow> bool" where
  "predicted_as ty pc i nxt \<longleftrightarrow>
     (if branch (d_control (decode_instruction i)) then ty \<noteq> TwoBitSaturating \<longrightarrow> nxt = static_next ty pc i
      else nxt = pc + 4)"

text \<open>
  The front end is fed: every latch holds the address predicted after it, and an instruction in
  EX has one behind it unless it halts or the next fetch lies outside of memory.
\<close>

definition fed :: "CPU \<Rightarrow> PipelineRegisters \<Rightarrow> bool" where
  "fed c p \<longleftrightarrow> (let ty = branch_predictor_type (cpu_config c) in
     (ifid_valid (if_id p) \<longrightarrow> predicted_as ty (ifid_pc (if_id p)) (ifid_instruction (if_id p))
        (ifid_predicted_next_pc (if_id p))) \<and>
     (idex_valid (id_ex p) \<longrightarrow> predicted_as ty (idex_pc (id_ex p)) (idex_instruction (id_ex p))
        (idex_predicted_next_pc (id_ex p))) \<and>
     (idex_valid (id_ex p) \<and> \<not> ifid_valid (if_id p) \<longrightarrow>
        halt_signal (idex_control (id_ex p)) \<or> isa_fetch (cpu_memory c) (cpu_pc c) = None))"

lemma fed_start: "fed c empty_pipeline"
  by (simp add: fed_def empty_pipeline_def empty_latch_defs)

lemma predicted_pc_as:
  "predicted_as (branch_predictor_type (cpu_config c)) pc i (predicted_pc c pc i)"
  by (cases "branch_predictor_type (cpu_config c)")
    (auto simp: predicted_as_def predicted_pc_def static_next_def Let_def predict_branch_def
      predict.simps is_valid_instruction_def decode_control signal_defs)

lemma mid_cycle_config:
  assumes mid: "mid_cycle c p s c2 m cd"
  shows "cpu_config (fst (rest_of_cycle c2 m p)) = cpu_config c" "cpu_config c2 = cpu_config c"
    "length (cpu_memory c2) = length (cpu_memory c)"
proof -
  have "regs_ok c" using mid_cycleD(1)[OF mid] by (simp add: refines_def)
  from cycleE[OF this mid_cycleD(13)[OF mid]] obtain c1 c2' m' where f:
    "wb_latch c (mem_wb p) = Inr c1" "mem_latch c1 (ex_mem p) = Inr (c2', m')"
    "rest_of_cycle c2 m p = rest_of_cycle c2' m' p" .
  have same: "cpu_config (fst (rest_of_cycle x y p)) = cpu_config x" for x y
    by (simp add: rest_of_cycle_def tick_def if_out_stats)
  have "cpu_config c2' = cpu_config c" "length (cpu_memory c2') = length (cpu_memory c)"
    using wb_latch_kept[OF f(1)] mem_latch_kept[OF f(2)] by simp_all
  moreover have "cpu_config c2 = cpu_config c2'" using same[of c2 m] same[of c2' m'] f(3) by simp
  moreover have "cpu_memory c2 = cpu_memory c2'"
    using rest_of_cycle_cpu(2)[of c2 m p] rest_of_cycle_cpu(2)[of c2' m' p] f(3) by simp
  ultimately show "cpu_config (fst (rest_of_cycle c2 m p)) = cpu_config c"
    "cpu_config c2 = cpu_config c" "length (cpu_memory c2) = length (cpu_memory c)"
    using same[of c2 m] by simp_all
qed

lemma fed_step:
  assumes mid: "mid_cycle c p s c2 m cd" and fed: "fed c p"
  shows "fed (fst (rest_of_cycle c2 m p)) (snd (rest_of_cycle c2 m p))"
proof -
  let ?ty = "branch_predictor_type (cpu_config c)" and ?r = "id_out c2 p"
  note cfg = mid_cycle_config[OF mid]
  have idex: "predicted_as ?ty (idex_pc ?r) (idex_instruction ?r) (idex_predicted_next_pc ?r)"
    if v: "idex_valid ?r"
  proof -
    have "\<not> redirected p" "\<not> stalled p" "ifid_valid (if_id p)" using v by (simp_all add: id_out_valid)
    then have r: "?r = id_latch (after_hazard c2 p) (if_id p)" by (simp add: id_out_def)
    show ?thesis
      using fed \<open>ifid_valid (if_id p)\<close> id_latch_simps[OF v[unfolded r]] by (simp add: fed_def r Let_def)
  qed
  show ?thesis
  proof (cases rule: if_out_cases[of c2 p])
    case stop
    have "halt_signal (idex_control ?r)" if "idex_valid ?r"
      using stop(1) no_halt_before_fetched[OF mid] that by (simp add: fetch_stops_def id_out_valid)
    then show ?thesis using idex cfg by (simp add: fed_def Let_def stop(2))
  next
    case hold
    have "\<not> idex_valid ?r" using hold(2) by (simp add: id_out_valid)
    then show ?thesis using fed stalledD(2)[OF hold(2)] cfg by (simp add: fed_def Let_def hold(3))
  next
    case past_end
    then show ?thesis using idex cfg by (simp add: fed_def Let_def)
  next
    case (fetch i)
    have "predicted_as ?ty (cpu_pc (after_hazard c2 p)) i
        (predicted_pc (after_hazard c2 p) (cpu_pc (after_hazard c2 p)) i)"
      using predicted_pc_as[of "after_hazard c2 p"] cfg by simp
    then show ?thesis using idex cfg by (simp add: fed_def Let_def fetch(4))
  qed
qed

section \<open>The events of a cycle\<close>

lemma ex_word:
  assumes mid: "mid_cycle c p s c2 m cd" and v: "idex_valid (id_ex p)"
  defines "d \<equiv> decode_instruction (idex_instruction (id_ex p))"
  shows "isa_word s = Some (idex_instruction (id_ex p))" "a_pc s = idex_pc (id_ex p)"
    "idex_control (id_ex p) = control_of (d_kind d)" "idex_rd (id_ex p) = d_rd d"
    "d_control d = control_of (d_kind d)"
proof -
  note e = ex_readyD(2,5,6)[OF mid_cycleD(2)[OF mid] v, folded d_def]
  show pc: "a_pc s = idex_pc (id_ex p)" using mid v by (auto simp: mid_cycle_def commit_pc_def)
  show "isa_word s = Some (idex_instruction (id_ex p))" using e(2,3) pc by (simp add: isa_word_def)
  show "idex_control (id_ex p) = control_of (d_kind d)" "idex_rd (id_ex p) = d_rd d"
    "d_control d = control_of (d_kind d)"
    using e(1) by (simp_all add: latch_for_def d_def decode_control)
qed

lemma ex_goes_to:
  assumes mid: "mid_cycle c p s c2 m cd" and m: "moved p s t" and v: "idex_valid (id_ex p)"
  shows "a_pc t = ex_next p"
    "redirected p \<longleftrightarrow> ex_resolves (id_ex p) \<and> idex_predicted_next_pc (id_ex p) \<noteq> a_pc t"
proof -
  have "res_map (arch_at (ex_next p)) (finish cd (ex_out p)) = Inr t"
    using mid_cycle_execute[OF mid v] m v by (simp add: moved_def)
  then show "a_pc t = ex_next p" by (auto simp: res_map_def res_bind_eq_Inr)
  then show "redirected p \<longleftrightarrow> ex_resolves (id_ex p) \<and> idex_predicted_next_pc (id_ex p) \<noteq> a_pc t"
    using v by (simp add: redirected_def ex_redirects_def)
qed

lemma moved_memory:
  assumes mid: "mid_cycle c p s c2 m cd" and m: "moved p s t"
  shows "length (a_memory t) = length (cpu_memory c)"
proof -
  have "length (a_memory s) = length (cpu_memory c)"
    using mid_cycleD(10)[OF mid] mid_cycle_config(3)[OF mid] by simp
  then show ?thesis using m by (auto simp: moved_def dest: isa_step_length split: if_splits)
qed

text \<open>What follows the instruction in EX, unless fetch has been sent elsewhere.\<close>

lemma next_word:
  assumes mid: "mid_cycle c p s c2 m cd" and m: "moved p s t" and fed: "fed c p"
    and nr: "\<not> redirected p" and live: "\<not> a_halted t \<Longrightarrow> isa_fetch (a_memory t) (a_pc t) \<noteq> None"
  shows "ifid_valid (if_id p) \<Longrightarrow> isa_word t = Some (ifid_instruction (if_id p))"
    "idex_valid (id_ex p) \<Longrightarrow> \<not> ifid_valid (if_id p) \<Longrightarrow> a_halted t"
proof -
  have pc: "a_pc t = front_pc c p" using mid_cycle_pc[OF mid m] nr by simp
  show "isa_word t = Some (ifid_instruction (if_id p))" if v: "ifid_valid (if_id p)"
  proof -
    have "\<not> a_halted t" using mid_cycle_halted[OF mid m] no_halt_before_fetched[OF mid v] by simp
    then show ?thesis
      using id_readyD(4)[OF mid_cycleD(3)[OF mid] v m] pc v by (simp add: isa_word_def front_pc_def)
  qed
  show "a_halted t" if v: "idex_valid (id_ex p)" "\<not> ifid_valid (if_id p)"
  proof (rule ccontr)
    assume run: "\<not> a_halted t"
    then have "\<not> halt_signal (idex_control (id_ex p))"
      using mid_cycle_halted[OF mid m] v(1) by (auto simp: halt_is_in_flight_def)
    then have "isa_fetch (cpu_memory c) (cpu_pc c) = None" using fed v by (auto simp: fed_def Let_def)
    then have "isa_fetch (a_memory t) (a_pc t) = None"
      using moved_memory[OF mid m] pc v(2) by (simp add: isa_fetch_None front_pc_def)
    then show False using live[OF run] by simp
  qed
qed

lemma stalled_iff_pair:
  assumes mid: "mid_cycle c p s c2 m cd" and m: "moved p s t" and fed: "fed c p"
    and live: "\<not> a_halted t \<Longrightarrow> isa_fetch (a_memory t) (a_pc t) \<noteq> None"
  shows "stalled p \<longleftrightarrow> idex_valid (id_ex p) \<and> load_use_pair s t"
proof (cases "idex_valid (id_ex p)")
  case False
  then show ?thesis using stalledD(3) by blast
next
  case True
  note w = ex_word[OF mid True] and goes = ex_goes_to(2)[OF mid m True]
  let ?k = "d_kind (decode_instruction (idex_instruction (id_ex p)))"
  show ?thesis
  proof (cases "?k \<in> set load_kinds")
    case False
    then show ?thesis
      using stalledD(4)[of p] w by (auto simp: load_use_pair_def executes_kind_def control_of_groups)
  next
    case load: True
    then have c: "\<not> ex_resolves (id_ex p)" "mem_read (idex_control (id_ex p))"
      "reg_write (idex_control (id_ex p))"
      using w(3) control_of_memory(2)[of ?k]
      by (auto simp: ex_resolves_def control_of_groups load_kinds_def branch_kinds_def jump_kinds_def)
    then have nr: "\<not> redirected p" using goes by simp
    note nxt = next_word[OF mid m fed nr live]
    have "load_use_pair s t \<longleftrightarrow> ifid_valid (if_id p) \<and>
        reads_register (ifid_instruction (if_id p)) (idex_rd (id_ex p))"
      using load w nxt True
      by (cases "ifid_valid (if_id p)") (auto simp: load_use_pair_def executes_kind_def isa_word_def[of t])
    then show ?thesis using True c nr by (auto simp: stalled_def stall_iff)
  qed
qed

lemma redirected_iff_away:
  assumes mid: "mid_cycle c p s c2 m cd" and m: "moved p s t" and fed: "fed c p"
    and v: "idex_valid (id_ex p)"
  defines "ty \<equiv> branch_predictor_type (cpu_config c)"
  shows "redirected p \<and> \<not> branch (idex_control (id_ex p)) \<longleftrightarrow> jump_away s t"
    "ty \<noteq> TwoBitSaturating \<Longrightarrow> redirected p \<and> branch (idex_control (id_ex p)) \<longleftrightarrow> branch_away ty s t"
    "branch (idex_control (id_ex p)) \<longleftrightarrow> branch_done s t"
proof -
  note w = ex_word[OF mid v] and goes = ex_goes_to(2)[OF mid m v]
  have as: "predicted_as ty (idex_pc (id_ex p)) (idex_instruction (id_ex p))
      (idex_predicted_next_pc (id_ex p))"
    using fed v by (simp add: fed_def Let_def ty_def)
  show "redirected p \<and> \<not> branch (idex_control (id_ex p)) \<longleftrightarrow> jump_away s t"
    using as unfolding goes
    by (auto simp: predicted_as_def jump_away_def executes_kind_def w ex_resolves_def
        control_of_groups branch_kinds_def jump_kinds_def)
  show "redirected p \<and> branch (idex_control (id_ex p)) \<longleftrightarrow> branch_away ty s t"
    if "ty \<noteq> TwoBitSaturating"
    using as that unfolding goes
    by (auto simp: predicted_as_def branch_away_def executes_kind_def w ex_resolves_def
        control_of_groups)
  show "branch (idex_control (id_ex p)) \<longleftrightarrow> branch_done s t"
    by (simp add: branch_done_def executes_kind_def w control_of_groups)
qed

text \<open>The bubbles between fetch and EX.\<close>

lemma distance_step:
  assumes mid: "mid_cycle c p s c2 m cd" and m: "moved p s t" and fed: "fed c p"
    and live: "\<not> a_halted t \<Longrightarrow> isa_fetch (a_memory t) (a_pc t) \<noteq> None"
    and live': "isa_fetch (a_memory (next_arch p t)) (a_pc (next_arch p t)) \<noteq> None"
    and run: "\<not> a_halted t"
  shows "1 + distance (snd (rest_of_cycle c2 m p)) =
    of_bool (idex_valid (id_ex p)) + of_bool (skipped p) + of_bool (stalled p) +
    of_bool (redirected p) + distance p"
proof (cases "stalled p")
  case True
  then show ?thesis
    using stalledD[OF True] stalled_fetches[OF mid True]
    by (auto simp: distance_def id_out_valid skipped_def if_out_def)
next
  case nst: False
  have quiet: "\<not> halt_is_in_flight p" using mid_cycle_halted[OF mid m] run by simp
  show ?thesis
  proof (cases "idex_valid (id_out c2 p)")
    case True
    then have i: "\<not> redirected p" "ifid_valid (if_id p)" "\<not> skipped p"
      by (simp_all add: id_out_valid skipped_def)
    then show ?thesis using True nst by (auto simp: distance_def)
  next
    case bubble: False
    then have "\<not> fetch_stops c2 p" using quiet nst
      by (auto simp: fetch_stops_def id_out_def id_latch_def Let_def split: if_splits)
    moreover have "isa_fetch (cpu_memory c2) (cpu_pc (after_hazard c2 p)) \<noteq> None"
    proof -
      have "a_pc (next_arch p t) = cpu_pc (after_hazard c2 p)"
        using next_commit_pc[OF mid m] next_front_pc[OF mid] bubble nst mid_cycleD(9)[OF mid]
        by (simp add: commit_pc_def split: if_splits)
      moreover have "length (a_memory (next_arch p t)) = length (cpu_memory c2)"
        using moved_memory[OF mid m] mid_cycle_config(3)[OF mid] by (simp add: next_arch_def)
      ultimately show ?thesis using live' by (simp add: isa_fetch_None)
    qed
    ultimately have "ifid_valid (snd (if_out c2 p))" using nst
      by (auto simp: if_out_def if_latch_def)
    moreover have "redirected p \<Longrightarrow> idex_valid (id_ex p)" by (simp add: redirected_def)
    moreover have "\<not> redirected p \<Longrightarrow> idex_valid (id_ex p) \<Longrightarrow> ifid_valid (if_id p)"
      using next_word(2)[OF mid m fed _ live] run by blast
    ultimately show ?thesis
      using bubble nst
      by (cases "redirected p"; cases "idex_valid (id_ex p)"; cases "ifid_valid (if_id p)")
        (auto simp: distance_def id_out_valid skipped_def)
  qed
qed

section \<open>The account\<close>

lemma tally_step:
  assumes mid: "mid_cycle c p s c2 m cd" and m: "moved p s t"
    and skip: "skipped p \<Longrightarrow> \<not> P t (next_arch p t)"
  shows "tally P (of_bool (idex_valid (id_ex p)) + of_bool (skipped p)) s =
    of_bool (idex_valid (id_ex p) \<and> P s t)"
  using m skip skip_step[OF mid m]
  by (cases "idex_valid (id_ex p)"; cases "skipped p") (auto simp: moved_def numeral_2_eq_2)

lemma skipped_fetch:
  assumes mid: "mid_cycle c p s c2 m cd" and m: "moved p s t" and k: "skipped p"
  shows "isa_word t = Some (ifid_instruction (if_id p))"
    "d_kind (decode_instruction (ifid_instruction (if_id p))) = K_Invalid"
proof -
  have i: "\<not> redirected p" "ifid_valid (if_id p)"
    "d_kind (decode_instruction (ifid_instruction (if_id p))) = K_Invalid"
    using k by (simp_all add: skipped_def)
  have pc: "a_pc t = ifid_pc (if_id p)" using mid_cycle_pc[OF mid m] i by (simp add: front_pc_def)
  have "\<not> a_halted t" using mid_cycle_halted[OF mid m] no_halt_before_fetched[OF mid i(2)] by simp
  then show "isa_word t = Some (ifid_instruction (if_id p))"
    using id_readyD(4)[OF mid_cycleD(3)[OF mid] i(2) m pc] pc by (simp add: isa_word_def)
  show "d_kind (decode_instruction (ifid_instruction (if_id p))) = K_Invalid" by (rule i(3))
qed

lemma skipped_events:
  assumes mid: "mid_cycle c p s c2 m cd" and m: "moved p s t" and k: "skipped p"
  shows "\<not> load_use_pair t u" "\<not> jump_away t u" "\<not> branch_done t u" "\<not> branch_away ty t u"
  using skipped_fetch[OF mid m k]
  by (simp_all add: load_use_pair_def jump_away_def branch_done_def branch_away_def
      executes_kind_def load_kinds_def jump_kinds_def branch_kinds_def)

text \<open>
  How many cycles a pipeline state is ahead of the instructions it has performed: the fill of the
  front end, or after the halting instruction has left EX its way to WB.
\<close>

definition slack :: "CPU \<times> PipelineRegisters \<Rightarrow> Arch \<Rightarrow> nat" where
  "slack cp s = (if a_halted s then 4 - halt_lag cp else 2 - distance (snd cp))"

definition accounted :: "Arch \<Rightarrow> nat \<Rightarrow> CPU \<times> PipelineRegisters \<Rightarrow> nat \<Rightarrow> Arch \<Rightarrow> nat \<Rightarrow> bool" where
  "accounted s0 k cp n s mis \<longleftrightarrow>
     isa_steps n s0 = Inr s \<and> (\<forall>i < n. \<forall>u. isa_steps i s0 = Inr u \<longrightarrow> \<not> a_halted u) \<and>
     refines (fst cp) (snd cp) s \<and> fed (fst cp) (snd cp) \<and>
     k = n + tally load_use_pair n s0 + tally jump_away n s0 + mis + slack cp s \<and>
     (let st = cpu_stats (fst cp); ty = branch_predictor_type (cpu_config (fst cp)) in
      clock_cycles st = of_nat k \<and> stall_cycles st = of_nat (tally load_use_pair n s0) \<and>
      branch_predictions st = of_nat (tally branch_done n s0) \<and>
      branch_mispredictions st = of_nat mis \<and>
      (ty \<noteq> TwoBitSaturating \<longrightarrow> mis = tally (branch_away ty) n s0))"

lemma slack_step:
  assumes mid: "mid_cycle c p s c2 m cd" and t: "moved p s t" and fed: "fed c p"
    and run: "\<not> a_halted s" and live: "\<not> a_halted t \<Longrightarrow> isa_fetch (a_memory t) (a_pc t) \<noteq> None"
    and live': "\<not> a_halted t \<Longrightarrow>
      isa_fetch (a_memory (next_arch p t)) (a_pc (next_arch p t)) \<noteq> None"
  shows "Suc (slack (c, p) s) = of_bool (idex_valid (id_ex p)) + of_bool (skipped p) +
    of_bool (stalled p) + of_bool (redirected p) + slack (rest_of_cycle c2 m p) (next_arch p t)"
proof (cases "a_halted t")
  case True
  then have halt: "halt_is_in_flight p" "\<not> ifid_valid (if_id p)"
    using mid_cycle_halted[OF mid t] no_halt_before_fetched[OF mid] by blast+
  have quiet: "\<not> (memwb_valid (mem_wb p) \<and> halt_signal (memwb_control (mem_wb p)))"
    "\<not> (exmem_valid (ex_mem p) \<and> halt_signal (exmem_control (ex_mem p)))"
    using refines_halted[OF mid_cycleD(1)[OF mid]] run by blast+
  then have v: "idex_valid (id_ex p)" "halt_signal (idex_control (id_ex p))"
    using halt(1) by (auto simp: halt_is_in_flight_def)
  then have "\<not> ex_resolves (id_ex p)"
    using ex_word(3)[OF mid v(1)] control_of_memory(4) by (auto simp: ex_resolves_def)
  then have "\<not> redirected p" "\<not> stalled p" "\<not> skipped p"
    using halt(2) stalledD(2) by (auto simp: redirected_def ex_redirects_def skipped_def)
  moreover have "halt_lag (rest_of_cycle c2 m p) = 2"
    using mid quiet by (auto simp: halt_lag_def mid_cycle_def)
  ultimately show ?thesis
    using v run True by (simp add: slack_def next_arch_def distance_def)
next
  case False
  have "distance p \<le> 2" "distance (snd (rest_of_cycle c2 m p)) \<le> 2"
    by (simp_all add: distance_def)
  moreover have "\<not> a_halted (next_arch p t)" using False by (simp add: next_arch_def)
  ultimately show ?thesis
    using distance_step[OF mid t fed live live'[OF False] False] run by (simp add: slack_def)
qed

abbreviation steps_of :: "PipelineRegisters \<Rightarrow> nat" where
  "steps_of p \<equiv> of_bool (idex_valid (id_ex p)) + of_bool (skipped p)"

lemma running_before:
  assumes mid: "mid_cycle c p s c2 m cd" and t: "moved p s t" and s: "isa_steps n s0 = Inr s"
    and before: "\<forall>i < n. \<forall>u. isa_steps i s0 = Inr u \<longrightarrow> \<not> a_halted u" and run: "\<not> a_halted s"
  shows "\<forall>i < n + steps_of p. \<forall>u. isa_steps i s0 = Inr u \<longrightarrow> \<not> a_halted u"
proof (intro allI impI)
  fix i u assume i: "i < n + steps_of p" "isa_steps i s0 = Inr u"
  consider "i < n" | "i = n" | "i = n + 1" "idex_valid (id_ex p)" "skipped p"
    using i(1) by (cases "idex_valid (id_ex p)"; cases "skipped p") (auto simp: less_Suc_eq numeral_2_eq_2)
  then show "\<not> a_halted u"
  proof cases
    case 3
    then have "isa_step s = Inr u"
      using i(2) isa_steps_add[of n 1 s0] s isa_steps_1[of s] by (simp only: res_bind_simps)
    then show ?thesis
      using t skipped_fetch(1)[OF mid t 3(3)] 3(2) by (auto simp: moved_def isa_word_def split: if_splits)
  qed (use i(2) s before run in auto)
qed

text \<open>What a cycle adds to the tallies.\<close>

lemma cycle_tallies:
  assumes mid: "mid_cycle c p s c2 m cd" and t: "moved p s t" and fed: "fed c p"
    and live: "\<not> a_halted t \<Longrightarrow> isa_fetch (a_memory t) (a_pc t) \<noteq> None"
    and s: "isa_steps n s0 = Inr s"
  defines "b \<equiv> branch (idex_control (id_ex p))" and "ty \<equiv> branch_predictor_type (cpu_config c)"
  shows "tally load_use_pair (n + steps_of p) s0 = tally load_use_pair n s0 + of_bool (stalled p)"
    "tally jump_away (n + steps_of p) s0 = tally jump_away n s0 + of_bool (redirected p \<and> \<not> b)"
    "tally branch_done (n + steps_of p) s0 =
       tally branch_done n s0 + of_bool (idex_valid (id_ex p) \<and> b)"
    "ty \<noteq> TwoBitSaturating \<Longrightarrow> tally (branch_away ty) (n + steps_of p) s0 =
       tally (branch_away ty) n s0 + of_bool (redirected p \<and> b)"
proof -
  have tallies: "tally P (n + steps_of p) s0 =
      tally P n s0 + of_bool (idex_valid (id_ex p) \<and> P s t)"
    if "skipped p \<Longrightarrow> \<not> P t (next_arch p t)" for P
    using tally_add[OF s, of P "steps_of p"] tally_step[OF mid t, of P] that by simp
  note ev = skipped_events[OF mid t] and away = redirected_iff_away[OF mid t fed, folded b_def ty_def]
  have red: "redirected p \<Longrightarrow> idex_valid (id_ex p)" by (simp add: redirected_def)
  show "tally load_use_pair (n + steps_of p) s0 = tally load_use_pair n s0 + of_bool (stalled p)"
    using tallies[of load_use_pair, OF ev(1)] stalled_iff_pair[OF mid t fed live] by simp
  show "tally jump_away (n + steps_of p) s0 = tally jump_away n s0 + of_bool (redirected p \<and> \<not> b)"
    using tallies[of jump_away, OF ev(2)] away(1) red by auto
  show "tally branch_done (n + steps_of p) s0 =
      tally branch_done n s0 + of_bool (idex_valid (id_ex p) \<and> b)"
    using tallies[of branch_done, OF ev(3)] away(3) by auto
  show "tally (branch_away ty) (n + steps_of p) s0 =
      tally (branch_away ty) n s0 + of_bool (redirected p \<and> b)" if "ty \<noteq> TwoBitSaturating"
    using tallies[of "branch_away ty", OF ev(4)] away(2) that red by auto
qed

lemma accounted_running:
  assumes acc: "accounted s0 k (c, p) n s mis" and halts: "halts_after h s0" "code_stable s0"
    and run: "\<not> a_halted s"
  shows "\<exists>cp n' s' mis'. cycle (c, p) = Inr cp \<and> accounted s0 (Suc k) cp n' s' mis' \<and>
    cpu_config (fst cp) = cpu_config c"
proof -
  have r: "refines c p s" "fed c p" "isa_steps n s0 = Inr s"
    "\<forall>i < n. \<forall>u. isa_steps i s0 = Inr u \<longrightarrow> \<not> a_halted u"
    using acc by (simp_all add: accounted_def)
  have "\<not> cpu_halted c" using refines_halted[OF r(1)] run by simp
  then obtain c2 m cd where mid: "mid_cycle c p s c2 m cd" using mid_cycleI[OF r(1)] by blast
  have "\<exists>t. isa_step s = Inr t" using halts_after_state(3)[OF halts(1) r(3,4) run] by blast
  then obtain t where t: "moved p s t" by (cases "idex_valid (id_ex p)") (auto simp: moved_def)
  let ?cp = "rest_of_cycle c2 m p" and ?s = "next_arch p t"
  have steps: "isa_steps (n + steps_of p) s0 = Inr ?s"
    using isa_steps_add[of n "steps_of p" s0] r(3) next_steps[OF mid t] by simp
  note early = running_before[OF mid t r(3,4) run]
  have "fetch_stable s" using halts(2) r(3) unfolding code_stable_def by blast
  then have refs: "refines (fst ?cp) (snd ?cp) ?s" by (rule refines_step[OF mid t])
  have live': "\<not> a_halted t \<Longrightarrow> isa_fetch (a_memory ?s) (a_pc ?s) \<noteq> None"
    using halts_after_state(3)[OF halts(1) steps early] by (simp add: next_arch_def)
  have live: "\<not> a_halted t \<Longrightarrow> isa_fetch (a_memory t) (a_pc t) \<noteq> None"
    using live' skipped_fetch(1)[OF mid t]
    by (cases "skipped p") (auto simp: next_arch_def isa_word_def)
  let ?b = "branch (idex_control (id_ex p))"
  have stats: "cpu_stats (fst ?cp) = counted p (cpu_stats c)"
    using cycle_counted[of c p "fst ?cp" "snd ?cp"] mid_cycleD(13)[OF mid] r(1)
    by (simp add: refines_def)
  have halves: "of_bool (redirected p) = of_bool (redirected p \<and> \<not> ?b) + (of_bool (redirected p \<and> ?b) :: nat)"
    by simp
  note cfg = mid_cycle_config(1)[OF mid]
  have "accounted s0 (Suc k) ?cp (n + steps_of p) ?s (mis + of_bool (redirected p \<and> ?b))"
    using acc steps early refs fed_step[OF mid r(2)] slack_step[OF mid t r(2) run live live'] halves
      cycle_tallies[OF mid t r(2) live r(3)]
    unfolding accounted_def Let_def cfg stats counted_def fst_conv by simp
  moreover have "cycle (c, p) = Inr ?cp" using mid_cycleD(13)[OF mid] by (simp add: cycle_def)
  ultimately show ?thesis using cfg by blast
qed

lemma accounted_draining:
  assumes acc: "accounted s0 k (c, p) n s mis"
    and halted: "a_halted s" and run: "\<not> cpu_halted c"
  shows "\<exists>cp. cycle (c, p) = Inr cp \<and> accounted s0 (Suc k) cp n s mis \<and>
    cpu_config (fst cp) = cpu_config c"
proof -
  have r: "refines c p s" "fed c p" using acc by (simp_all add: accounted_def)
  obtain c2 m cd where mid: "mid_cycle c p s c2 m cd" using mid_cycleI[OF r(1) run] by blast
  let ?cp = "rest_of_cycle c2 m p"
  obtain cp' where cp': "cycle (c, p) = Inr cp'" "refines (fst cp') (snd cp') s"
    "halt_lag cp' < halt_lag (c, p)"
    using pipeline_drains[of "(c, p)" s] r(1) halted run by (auto simp: not_halted_def)
  have cyc: "cp' = ?cp" using cp'(1) mid_cycleD(13)[OF mid] by (simp add: cycle_def)
  have empty: "\<not> idex_valid (id_ex p)" "\<not> ifid_valid (if_id p)"
    using halted ex_readyD(6)[OF mid_cycleD(2)[OF mid]] id_readyD(1)[OF mid_cycleD(3)[OF mid]]
    by blast+
  then have "\<not> redirected p" "\<not> stalled p" using stalledD(3) by (auto simp: redirected_def)
  moreover have "cpu_stats (fst ?cp) = counted p (cpu_stats c)"
    using cycle_counted[of c p "fst ?cp" "snd ?cp"] mid_cycleD(13)[OF mid] r(1)
    by (simp add: refines_def)
  moreover have "slack ?cp s = Suc (slack (c, p) s)"
  proof -
    have "Suc (halt_lag ?cp) = halt_lag (c, p)"
      using cp'(3) refines_halted[OF r(1)] halted run mid
      by (auto simp: cyc halt_lag_def mid_cycle_def split: if_splits)
    moreover have "halt_lag (c, p) \<le> 2" by (simp add: halt_lag_def)
    ultimately show ?thesis using halted by (simp add: slack_def)
  qed
  ultimately have "accounted s0 (Suc k) ?cp n s mis"
    using acc cp'(2) fed_step[OF mid r(2)] mid_cycle_config(1)[OF mid] empty
    by (simp add: accounted_def cyc counted_def Let_def)
  then show ?thesis using cp'(1) mid_cycle_config(1)[OF mid] cyc by blast
qed

lemma accounted_cycle:
  assumes "accounted s0 k cp n s mis" "halts_after h s0" "code_stable s0" "not_halted cp"
  shows "\<exists>cp' n' s' mis'. cycle cp = Inr cp' \<and> accounted s0 (Suc k) cp' n' s' mis' \<and>
    cpu_config (fst cp') = cpu_config (fst cp)"
proof -
  obtain c p where cp: "cp = (c, p)" by (cases cp)
  show ?thesis
  proof (cases "a_halted s")
    case True
    have "\<not> cpu_halted c" using assms(4) by (simp add: cp not_halted_def)
    from accounted_draining[OF assms(1)[unfolded cp] True this] show ?thesis
      unfolding cp fst_conv by blast
  next
    case False
    from accounted_running[OF assms(1)[unfolded cp] assms(2,3) False] show ?thesis
      unfolding cp fst_conv .
  qed
qed

lemma accounted_run:
  assumes "accounted s0 k cp n s mis" "halts_after h s0" "code_stable s0"
    and "run_cycles N cp = Inr cp'"
  shows "\<exists>k' n' s' mis'. k' \<le> k + N \<and> accounted s0 k' cp' n' s' mis' \<and>
    cpu_config (fst cp') = cpu_config (fst cp)"
  using assms(1,4)
proof (induction N arbitrary: k cp n s mis)
  case 0
  then show ?case by (auto simp: run_cycles_def)
next
  case (Suc N)
  show ?case
  proof (cases "not_halted cp")
    case False
    then have "cp' = cp" using Suc.prems(2) by (simp add: run_cycles_def)
    moreover have "k \<le> k + Suc N" by simp
    ultimately show ?thesis using Suc.prems(1) by blast
  next
    case True
    obtain cp1 n1 s1 mis1 where 1: "cycle cp = Inr cp1" "accounted s0 (Suc k) cp1 n1 s1 mis1"
      "cpu_config (fst cp1) = cpu_config (fst cp)"
      using accounted_cycle[OF Suc.prems(1) assms(2,3) True] by blast
    have "run_cycles N cp1 = Inr cp'" using Suc.prems(2) True 1(1) by (simp add: run_cycles_def)
    from Suc.IH[OF 1(2) this] 1(3) show ?thesis by (metis add_Suc add_Suc_right)
  qed
qed

lemma accounted_start:
  assumes "regs_ok c" "cpu_stats c = zero_stats" "\<not> a_halted (arch_of c)"
  shows "accounted (arch_of c) 0 (start c) 0 (arch_of c) 0"
proof -
  have "distance empty_pipeline = 2"
    by (simp add: distance_def empty_pipeline_def empty_latch_defs)
  then show ?thesis
    using assms refines_start[OF assms(1)] fed_start[of c]
    by (simp add: accounted_def start_def slack_def zero_stats_def arch_of_def Let_def)
qed

lemma unat_of_nat_u64: "n < 2 ^ 64 \<Longrightarrow> unat (of_nat n :: u64) = n"
  by (simp add: unsigned_of_nat take_bit_nat_eq_self)

text \<open>At the end of the run the account has no ghosts left.\<close>

lemma halted_account:
  assumes "regs_ok c" "cpu_stats c = zero_stats" "code_stable (arch_of c)"
    and halts: "halts_after n (arch_of c)" "0 < n"
    and run: "run_cycles N (start c) = Inr (c', p')" "cpu_halted c'" "N < 2 ^ 64"
  shows "unat (clock_cycles (cpu_stats c')) =
      n + 4 + unat (stall_cycles (cpu_stats c')) + tally jump_away n (arch_of c) +
      unat (branch_mispredictions (cpu_stats c'))"
    "unat (stall_cycles (cpu_stats c')) = tally load_use_pair n (arch_of c)"
    "branch_predictions (cpu_stats c') = of_nat (tally branch_done n (arch_of c))"
    "branch_predictor_type (cpu_config c) \<noteq> TwoBitSaturating \<Longrightarrow>
      unat (branch_mispredictions (cpu_stats c')) =
        tally (branch_away (branch_predictor_type (cpu_config c))) n (arch_of c)"
proof -
  have "\<not> a_halted (arch_of c)" using halts by (auto simp: halts_after_def)
  from accounted_run[OF accounted_start[OF assms(1,2) this] halts(1) assms(3) run(1)]
  obtain k m s mis where k: "k \<le> N" and acc: "accounted (arch_of c) k (c', p') m s mis"
    and cfg: "cpu_config c' = cpu_config c"
    by (auto simp: start_def)
  have r: "refines c' p' s" using acc by (simp add: accounted_def)
  have h: "a_halted s" using refines_stopped(1)[OF r run(2)] .
  then have m: "m = n" using halts_after_state(2)[OF halts(1)] acc by (auto simp: accounted_def)
  have "slack (c', p') s = 4" using h run(2) by (simp add: slack_def halt_lag_def)
  then have total: "k = n + tally load_use_pair n (arch_of c) + tally jump_away n (arch_of c) + mis + 4"
    using acc m by (simp add: accounted_def)
  have small: "unat (of_nat j :: u64) = j" if "j \<le> k" for j
    using that k run(3) by (intro unat_of_nat_u64) simp
  have st: "clock_cycles (cpu_stats c') = of_nat k"
    "stall_cycles (cpu_stats c') = of_nat (tally load_use_pair n (arch_of c))"
    "branch_mispredictions (cpu_stats c') = of_nat mis"
    and rest: "branch_predictions (cpu_stats c') = of_nat (tally branch_done n (arch_of c))"
    "branch_predictor_type (cpu_config c) \<noteq> TwoBitSaturating \<longrightarrow>
      mis = tally (branch_away (branch_predictor_type (cpu_config c))) n (arch_of c)"
    using acc m cfg by (auto simp only: accounted_def Let_def fst_conv)
  have mis: "unat (branch_mispredictions (cpu_stats c')) = mis"
    unfolding st by (rule small) (simp add: total)
  show stalls: "unat (stall_cycles (cpu_stats c')) = tally load_use_pair n (arch_of c)"
    unfolding st by (rule small) (simp add: total)
  have "unat (clock_cycles (cpu_stats c')) = k" unfolding st by (rule small) simp
  then show "unat (clock_cycles (cpu_stats c')) =
      n + 4 + unat (stall_cycles (cpu_stats c')) + tally jump_away n (arch_of c) +
      unat (branch_mispredictions (cpu_stats c'))"
    unfolding stalls mis total by simp
  show "branch_predictions (cpu_stats c') = of_nat (tally branch_done n (arch_of c))" by (rule rest(1))
  show "unat (branch_mispredictions (cpu_stats c')) =
        tally (branch_away (branch_predictor_type (cpu_config c))) n (arch_of c)"
    if "branch_predictor_type (cpu_config c) \<noteq> TwoBitSaturating"
    using that rest(2) mis by simp
qed

end
