(* ===== verification/Spike_Adapter.thy ===== *)
theory Spike_Adapter
  imports Cli_Roundtrip State_Json "HOL-Library.AList"
begin

text \<open>
  \<open>tools/spike_state_adapter.cpp\<close>: the converter from the interactive output of the reference
  simulator Spike to the canonical JSON. The two regular expressions are matchers written out:
  no character can be taken by two neighbouring parts of a pattern, so the greedy match is the
  only one. Files are parameters, as for the simulator.
\<close>

section \<open>Options\<close>

definition kAbiRegisterNames :: "string list" where
  "kAbiRegisterNames =
     [''zero'', ''ra'', ''sp'', ''gp'', ''tp'', ''t0'', ''t1'', ''t2'',
      ''s0'', ''s1'', ''a0'', ''a1'', ''a2'', ''a3'', ''a4'', ''a5'',
      ''a6'', ''a7'', ''s2'', ''s3'', ''s4'', ''s5'', ''s6'', ''s7'',
      ''s8'', ''s9'', ''s10'', ''s11'', ''t3'', ''t4'', ''t5'', ''t6'']"

record Options =
  input_path :: string
  output_path :: string
  halt_pc :: u32
  has_halt_pc :: bool
  memory_ranges :: "MemoryDumpRange list"

definition empty_Options :: Options where
  "empty_Options = \<lparr>input_path = [], output_path = [], halt_pc = 0, has_halt_pc = False,
                    memory_ranges = []\<rparr>"

definition parse_u32 :: "string \<Rightarrow> string \<Rightarrow> u32 result" where
  "parse_u32 t option_name =
     (case stoull 0 t of
        Inl e \<Rightarrow> Inl (Runtime_error (''invalid value for '' @ option_name))
      | Inr (v, parsed) \<Rightarrow>
          if parsed \<noteq> length t \<or> uint32_max < v
          then Inl (Runtime_error (''invalid value for '' @ option_name))
          else Inr (ucast v))"

definition parse_memory_range :: "string \<Rightarrow> MemoryDumpRange result" where
  "parse_memory_range t = (case split_colon t of
     None \<Rightarrow> Inl (Runtime_error ''--memory-range must use START:LENGTH format'')
   | Some (before, after) \<Rightarrow>
       res_bind (parse_u32 before ''--memory-range start'') (\<lambda>start.
       res_bind (parse_u32 after ''--memory-range length'') (\<lambda>len.
         if start mod 4 \<noteq> 0 \<or> len = 0 \<or> len mod 4 \<noteq> 0
         then Inl (Runtime_error ''Spike memory ranges must be nonempty and 4-byte aligned'')
         else Inr \<lparr>range_start = start, range_count = len\<rparr>)))"

definition parse_option :: "string \<Rightarrow> Options \<Rightarrow> Options result" where
  "parse_option argument options =
     (if starts_with ''--input='' argument then Inr (options\<lparr>input_path := drop 8 argument\<rparr>)
      else if starts_with ''--output='' argument then Inr (options\<lparr>output_path := drop 9 argument\<rparr>)
      else if starts_with ''--halt-pc='' argument then
        res_bind (parse_u32 (drop 10 argument) ''--halt-pc'') (\<lambda>v.
          Inr (options\<lparr>halt_pc := v, has_halt_pc := True\<rparr>))
      else if starts_with ''--memory-range='' argument then
        res_bind (parse_memory_range (drop 15 argument)) (\<lambda>r.
          Inr (options\<lparr>memory_ranges := memory_ranges options @ [r]\<rparr>))
      else Inl (Runtime_error (''unknown option: '' @ argument)))"

definition parse_options :: "string list \<Rightarrow> Options result" where
  "parse_options args =
     res_bind (res_fold parse_option args empty_Options) (\<lambda>options.
       if input_path options = [] \<or> output_path options = [] \<or> \<not> has_halt_pc options
       then Inl (Runtime_error ''required options: --input, --output, and --halt-pc'')
       else Inr options)"

section \<open>Reading Spike's output\<close>

definition in_range :: "char \<Rightarrow> char \<Rightarrow> char \<Rightarrow> bool" where
  "in_range a b c = ((of_char a :: nat) \<le> of_char c \<and> (of_char c :: nat) \<le> of_char b)"

definition name_start :: "char \<Rightarrow> bool" where "name_start c = in_range (CHR ''a'') (CHR ''z'') c"

definition name_char :: "char \<Rightarrow> bool" where
  "name_char c = (name_start c \<or> in_range (CHR ''0'') (CHR ''9'') c)"

definition hex_char :: "char \<Rightarrow> bool" where
  "hex_char c = (in_range (CHR ''0'') (CHR ''9'') c \<or> in_range (CHR ''a'') (CHR ''f'') c \<or>
                 in_range (CHR ''A'') (CHR ''F'') c)"

text \<open>\<open>0x[0-9a-fA-F]+\<close> at the start of a text: the match and the rest.\<close>

definition match_hex :: "string \<Rightarrow> (string \<times> string) option" where
  "match_hex t =
     (let digits = takeWhile hex_char (drop 2 t) in
      if take 2 t = ''0x'' \<and> digits \<noteq> [] then Some (''0x'' @ digits, dropWhile hex_char (drop 2 t))
      else None)"

text \<open>\<open>([a-z][a-z0-9]*):\s*(0x[0-9a-fA-F]+)\<close> at the start of a text.\<close>

definition match_register :: "string \<Rightarrow> ((string \<times> string) \<times> string) option" where
  "match_register t = (case t of
     [] \<Rightarrow> None
   | c # cs \<Rightarrow>
       (let reg_name = c # takeWhile name_char cs; rest = dropWhile name_char cs in
        if name_start c \<and> rest \<noteq> [] \<and> hd rest = CHR '':''
        then map_option (\<lambda>(v, rest). ((reg_name, v), rest)) (match_hex (dropWhile is_space (tl rest)))
        else None))"

lemma match_hex_rest:
  assumes "match_hex t = Some (v, rest)"
  shows "length rest \<le> length t"
proof -
  have "rest = dropWhile hex_char (drop 2 t)"
    using assms unfolding match_hex_def Let_def by (simp only: option.inject prod.inject option.distinct split: if_splits)
  then show ?thesis using length_dropWhile_le[of hex_char "drop 2 t"] by simp
qed

lemma match_register_shorter:
  assumes "match_register t = Some (m, rest)"
  shows "length rest < length t"
proof (cases t)
  case Nil
  then show ?thesis using assms by (simp add: match_register_def)
next
  case (Cons c cs)
  obtain v where "match_hex (dropWhile is_space (tl (dropWhile name_char cs))) = Some (v, rest)"
    using assms unfolding match_register_def Cons list.case Let_def
    by (auto simp only: map_option_eq_Some prod.inject case_prod_unfold fst_conv snd_conv prod.collapse
        split: if_splits)
  then have "length rest \<le> length (dropWhile is_space (tl (dropWhile name_char cs)))"
    by (rule match_hex_rest)
  also have "\<dots> \<le> length (dropWhile name_char cs)"
    using length_dropWhile_le[of is_space "tl (dropWhile name_char cs)"] by simp
  also have "\<dots> \<le> length cs" by (rule length_dropWhile_le)
  finally show ?thesis by (simp add: Cons)
qed

text \<open>\<open>sregex_iterator\<close>: successive leftmost matches.\<close>

function register_matches :: "string \<Rightarrow> (string \<times> string) list" where
  "register_matches t =
     (case match_register t of
        Some (m, rest) \<Rightarrow> m # register_matches rest
      | None \<Rightarrow> if t = [] then [] else register_matches (tl t))"
  by pat_completeness auto

termination
  by (relation "measure length") (auto simp: match_register_shorter)

declare register_matches.simps [simp del]

definition parse_registers :: "string \<Rightarrow> (string \<times> u32) list result" where
  "parse_registers t =
     res_bind (res_fold (\<lambda>(reg_name, v) registers.
         res_bind (parse_u32 v ''Spike register'') (\<lambda>w. Inr (AList.update reg_name w registers)))
       (register_matches t) [])
     (\<lambda>registers.
       if length registers \<noteq> length kAbiRegisterNames
       then Inl (Runtime_error (''Spike output contained '' @ nat_text 10 (length registers) @
                                '' of 32 registers''))
       else Inr registers)"

text \<open>\<open>std::getline\<close>\<close>

function text_lines :: "string \<Rightarrow> string list" where
  "text_lines t =
     (if t = [] then []
      else takeWhile (\<lambda>c. c \<noteq> CHR 0x0A) t # text_lines (drop 1 (dropWhile (\<lambda>c. c \<noteq> CHR 0x0A) t)))"
  by pat_completeness auto

termination
proof (relation "measure length")
  fix t :: string
  assume "t \<noteq> []"
  then show "(drop 1 (dropWhile (\<lambda>c. c \<noteq> CHR 0x0A) t), t) \<in> measure length"
    using length_dropWhile_le[of "\<lambda>c. c \<noteq> CHR 0x0A" t] by (cases t) auto
qed simp

declare text_lines.simps [simp del]

text \<open>\<open>\s*(0x[0-9a-fA-F]+)\s*\<close> for a whole line.\<close>

definition match_value :: "string \<Rightarrow> string option" where
  "match_value t = (case match_hex (dropWhile is_space t) of
     Some (v, rest) \<Rightarrow> if list_all is_space rest then Some v else None
   | None \<Rightarrow> None)"

definition parse_standalone_hex_values :: "string \<Rightarrow> u32 list result" where
  "parse_standalone_hex_values t =
     res_fold (\<lambda>t values. case match_value t of
         None \<Rightarrow> Inr values
       | Some v \<Rightarrow> res_bind (parse_u32 v ''Spike value'') (\<lambda>w. Inr (values @ [w])))
       (text_lines t) []"

section \<open>The conversion\<close>

definition required_memory_size :: "MemoryDumpRange list \<Rightarrow> u32 \<Rightarrow> nat result" where
  "required_memory_size ranges stop_pc =
     (let end_address = fold (\<lambda>r e. max e (range_end (range_start r) (range_count r))) ranges
                          (unat stop_pc + 4)
      in if end_address > 0xFFFFFFFF
         then Inl (Runtime_error ''architectural state exceeds 32-bit memory'')
         else Inr end_address)"

definition write_registers :: "(string \<times> u32) list \<Rightarrow> CPU \<Rightarrow> CPU result" where
  "write_registers registers =
     res_fold (\<lambda>i cpu. case map_of registers (kAbiRegisterNames ! i) of
         None \<Rightarrow> Inl (Out_of_range ''unordered_map::at'')
       | Some v \<Rightarrow> write_reg cpu (of_nat i) v) [0..<length kAbiRegisterNames]"

text \<open>The addresses the two nested loops write to, in order: byte counts are multiples of four.\<close>

definition word_addresses :: "MemoryDumpRange list \<Rightarrow> u32 list" where
  "word_addresses ranges =
     concat (map (\<lambda>r. map (\<lambda>k. range_start r + of_nat (4 * k)) [0..<unat (range_count r) div 4]) ranges)"

definition write_words :: "(u32 \<times> u32) list \<Rightarrow> CPU \<Rightarrow> CPU result" where
  "write_words = res_fold (\<lambda>(a, v) cpu. write_u32 cpu a v)"

definition convert_text :: "Options \<Rightarrow> string \<Rightarrow> CPU result" where
  "convert_text options t =
     res_bind (parse_registers t) (\<lambda>registers.
     res_bind (parse_standalone_hex_values t) (\<lambda>values.
       let expected_words = (\<Sum>r\<leftarrow>memory_ranges options. unat (range_count r) div 4) in
       if length values \<noteq> expected_words + 1
       then Inl (Runtime_error ''Spike output did not contain the expected PC and memory words'')
       else if hd values \<noteq> halt_pc options
       then Inl (Runtime_error ''Spike stopped at an unexpected PC'')
       else
         res_bind (required_memory_size (memory_ranges options) (halt_pc options)) (\<lambda>mem_size.
         res_bind (write_registers registers (new_CPU mem_size default_Config)) (\<lambda>cpu.
         res_bind (write_words (zip (word_addresses (memory_ranges options)) (tl values)) cpu) (\<lambda>cpu.
           Inr (halt (set_pc cpu (halt_pc options + 4))))))))"

definition read_text_file :: "(string \<Rightarrow> string option) \<Rightarrow> string \<Rightarrow> string result" where
  "read_text_file files path = (case files path of
     None \<Rightarrow> Inl (Runtime_error (''failed to open Spike output: '' @ path))
   | Some t \<Rightarrow> Inr t)"

definition convert :: "(string \<Rightarrow> string option) \<Rightarrow> (string \<Rightarrow> bool) \<Rightarrow> Options \<Rightarrow> string outcome" where
  "convert files can_open options =
     out_bind (Some (read_text_file files (input_path options))) (\<lambda>t.
     out_bind (Some (convert_text options t)) (\<lambda>cpu.
       if \<not> can_open (output_path options)
       then Some (Inl (Runtime_error (''failed to open output file: '' @ output_path options)))
       else out_bind (print_architectural_state_json cpu (memory_ranges options) new_stream)
              (\<lambda>s. Some (Inr (s_text s)))))"

text \<open>
  \<open>main\<close> of the adapter: exit status, error stream and the text of the output file, if it was
  written whole.
\<close>

definition adapter_main ::
  "(string \<Rightarrow> string option) \<Rightarrow> (string \<Rightarrow> bool) \<Rightarrow> string list \<Rightarrow>
   (nat \<times> string \<times> string option) option" where
  "adapter_main files can_open args =
     (case out_bind (Some (parse_options args)) (convert files can_open) of
        None \<Rightarrow> None
      | Some (Inl e) \<Rightarrow> Some (1, ''error: '' @ what e @ newline, None)
      | Some (Inr out) \<Rightarrow> Some (0, [], Some out))"

end
