(* ===== verification/Spike_Compare.thy ===== *)
theory Spike_Compare
  imports Spike_Adapter
begin

text \<open>
  What the adapter writes: the JSON of a CPU that holds the registers and memory words found in
  Spike's output, so that comparing it with the simulator's JSON compares the two states.
\<close>

section \<open>Filling the CPU\<close>

definition spike_memory :: "nat \<Rightarrow> (u32 \<times> u32) list \<Rightarrow> u8 list" where
  "spike_memory n writes =
     fold (\<lambda>(a, v) m. splice_at m (unat a) (le_bytes 4 v)) writes (replicate n 0)"

lemma write_words_spec:
  assumes "write_words ws c = Inr c'" "length (cpu_memory c) \<le> 2 ^ 32"
  shows "cpu_memory c' = fold (\<lambda>(a, v) m. splice_at m (unat a) (le_bytes 4 v)) ws (cpu_memory c) \<and>
    cpu_regs c' = cpu_regs c \<and> cpu_halted c' = cpu_halted c \<and>
    length (cpu_memory c') = length (cpu_memory c)"
  using assms unfolding write_words_def
proof (induction ws arbitrary: c)
  case Nil
  then show ?case by simp
next
  case (Cons w ws)
  obtain a v where w: "w = (a, v)" by (cases w)
  obtain c1 where c1: "write_u32 c a v = Inr c1"
    "res_fold (\<lambda>(a, v) cpu. write_u32 cpu a v) ws c1 = Inr c'"
    using Cons.prems(1) by (auto simp: w res_bind_eq_Inr)
  have fits: "unat a + 4 \<le> length (cpu_memory c)"
    using c1(1) mem32.wrD(1)[OF Cons.prems(2)] by blast
  then have "c1 = set_memory c a (le_bytes 4 v)"
    using c1(1) write_in(3)[OF Cons.prems(2)] by simp
  moreover from this have "length (cpu_memory c1) = length (cpu_memory c)" using fits by simp
  ultimately show ?case using Cons.IH[OF c1(2)] Cons.prems(2) by (auto simp: w)
qed

lemma write_registers_spec:
  fixes names :: "string list" and registers :: "(string \<times> u32) list" and e :: cpp_exception
  defines "f \<equiv> \<lambda>i cpu. case map_of registers (names ! i) of
      None \<Rightarrow> Inl e | Some v \<Rightarrow> write_reg cpu (of_nat i) v"
  assumes "res_fold f [0..<n] c = Inr c'" "n \<le> 32" "length (cpu_regs c) = 32"
  shows "(\<forall>i. 0 < i \<and> i < n \<longrightarrow> map_of registers (names ! i) = Some (reg_val c' (of_nat i))) \<and>
    (\<exists>regs. length regs = 32 \<and> c' = c\<lparr>cpu_regs := regs\<rparr>)"
  using assms(2-4)
proof (induction n arbitrary: c')
  case 0
  then show ?case by (auto intro!: exI[of _ "cpu_regs c"])
next
  case (Suc n)
  obtain c1 where c1: "res_fold f [0..<n] c = Inr c1" and c': "f n c1 = Inr c'"
    using Suc.prems(1) by (auto simp: res_fold_append res_bind_eq_Inr)
  obtain v where v: "map_of registers (names ! n) = Some v" "write_reg c1 (of_nat n) v = Inr c'"
    using c' by (cases "map_of registers (names ! n)") (simp_all add: f_def)
  have "n \<le> 32" using Suc.prems(2) by simp
  from Suc.IH[OF c1 this Suc.prems(3)]
  have ih: "\<And>i. 0 < i \<Longrightarrow> i < n \<Longrightarrow> map_of registers (names ! i) = Some (reg_val c1 (of_nat i))"
    and "\<exists>regs. length regs = 32 \<and> c1 = c\<lparr>cpu_regs := regs\<rparr>" by blast+
  then obtain regs where regs: "length regs = 32" "c1 = c\<lparr>cpu_regs := regs\<rparr>" by blast
  have n: "unat (of_nat n :: u8) = n" using Suc.prems(2) by (simp add: unat_of_nat)
  have zero: "(of_nat n :: u8) = 0 \<longleftrightarrow> n = 0" unfolding word_unat_eq_iff n unat_0 ..
  have c'': "c' = (if n = 0 then c1 else c1\<lparr>cpu_regs := (cpu_regs c1)[n := v]\<rparr>)"
  proof -
    have "unat (of_nat n :: u8) < 32" unfolding n using Suc.prems(2) by simp
    from write_reg_in[OF this, of c1 v] v(2) show ?thesis unfolding n zero by simp
  qed
  have "map_of registers (names ! i) = Some (reg_val c' (of_nat i))" if i: "0 < i" "i < Suc n" for i
  proof -
    have u: "unat (of_nat i :: u8) = i" using i Suc.prems(2) by (simp add: unat_of_nat)
    have nz: "(of_nat i :: u8) \<noteq> 0" unfolding word_unat_eq_iff u unat_0 using i(1) by simp
    show ?thesis
    proof (cases "i = n")
      case True
      then show ?thesis
        using v(1) i Suc.prems(2) regs nz by (simp add: c'' reg_val_def n)
    next
      case False
      then show ?thesis using ih[of i] i nz by (simp add: c'' reg_val_def u)
    qed
  qed
  moreover have "\<exists>regs. length regs = 32 \<and> c' = c\<lparr>cpu_regs := regs\<rparr>"
    using regs by (intro exI[of _ "if n = 0 then regs else regs[n := v]"]) (simp add: c'')
  ultimately show ?case by blast
qed

lemma write_registers_CPU:
  assumes "write_registers registers c = Inr c'" "length (cpu_regs c) = 32"
  shows "\<forall>i. 0 < i \<and> i < 32 \<longrightarrow>
      map_of registers (kAbiRegisterNames ! i) = Some (reg_val c' (of_nat i))"
    "\<exists>regs. c' = c\<lparr>cpu_regs := regs\<rparr>"
proof -
  have len: "length kAbiRegisterNames = 32" by (simp add: kAbiRegisterNames_def)
  note spec = write_registers_spec[OF assms(1)[unfolded write_registers_def len] order_refl assms(2)]
  from spec show "\<forall>i. 0 < i \<and> i < 32 \<longrightarrow>
      map_of registers (kAbiRegisterNames ! i) = Some (reg_val c' (of_nat i))" by blast
  from spec show "\<exists>regs. c' = c\<lparr>cpu_regs := regs\<rparr>" by blast
qed

section \<open>Sizes\<close>

lemma fold_max_ge:
  "e \<le> fold (\<lambda>r e. max e (f r)) rs (e :: nat)"
  "r \<in> set rs \<Longrightarrow> f r \<le> fold (\<lambda>r e. max e (f r)) rs e"
proof (induction rs arbitrary: e)
  case (Cons x xs)
  { case 1 then show ?case using Cons.IH(1)[of "max e (f x)"] by simp }
  { case 2 then show ?case using Cons.IH(1)[of "max e (f x)"] Cons.IH(2)[of "max e (f x)"] by auto }
qed simp_all

lemma required_memory_size_fits:
  assumes "required_memory_size ranges stop_pc = Inr n"
  shows "n < 2 ^ 32" "ranges_fit n (map (\<lambda>r. (range_start r, range_count r)) ranges)"
  using assms fold_max_ge(2)[of _ ranges "\<lambda>r. range_end (range_start r) (range_count r)"]
  by (auto simp: required_memory_size_def Let_def ranges_fit_def list_all_iff split: if_splits)

section \<open>The converted state\<close>

definition holds_output ::
  "Options \<Rightarrow> (string \<times> u32) list \<Rightarrow> u32 list \<Rightarrow> nat \<Rightarrow> CPU \<Rightarrow> bool" where
  "holds_output options registers vals n cpu \<longleftrightarrow>
     cpu_pc cpu = halt_pc options + 4 \<and> cpu_halted cpu \<and>
     (\<forall>i. 0 < i \<and> i < 32 \<longrightarrow>
        map_of registers (kAbiRegisterNames ! i) = Some (reg_val cpu (of_nat i))) \<and>
     cpu_memory cpu = spike_memory n (zip (word_addresses (memory_ranges options)) (tl vals))"

lemma convert_text_spec:
  assumes "convert_text options t = Inr cpu"
  shows "\<exists>registers vals. parse_registers t = Inr registers \<and>
    parse_standalone_hex_values t = Inr vals \<and> hd vals = halt_pc options \<and>
    required_memory_size (memory_ranges options) (halt_pc options) = Inr (memory_size cpu) \<and>
    holds_output options registers vals (memory_size cpu) cpu"
proof -
  let ?rs = "memory_ranges options"
  from assms[unfolded convert_text_def res_bind_eq_Inr Let_def] obtain registers vals where
    p: "parse_registers t = Inr registers" "parse_standalone_hex_values t = Inr vals"
    and body: "(if length vals \<noteq> (\<Sum>r\<leftarrow>?rs. unat (range_count r) div 4) + 1
       then Inl (Runtime_error ''Spike output did not contain the expected PC and memory words'')
       else if hd vals \<noteq> halt_pc options
       then Inl (Runtime_error ''Spike stopped at an unexpected PC'')
       else
         res_bind (required_memory_size ?rs (halt_pc options)) (\<lambda>mem_size.
         res_bind (write_registers registers (new_CPU mem_size default_Config)) (\<lambda>cpu.
         res_bind (write_words (zip (word_addresses ?rs) (tl vals)) cpu) (\<lambda>cpu.
           Inr (halt (set_pc cpu (halt_pc options + 4))))))) = Inr cpu"
    unfolding res_bind_eq_Inr by blast
  have v: "hd vals = halt_pc options"
    and steps: "res_bind (required_memory_size ?rs (halt_pc options)) (\<lambda>mem_size.
         res_bind (write_registers registers (new_CPU mem_size default_Config)) (\<lambda>cpu.
         res_bind (write_words (zip (word_addresses ?rs) (tl vals)) cpu) (\<lambda>cpu.
           Inr (halt (set_pc cpu (halt_pc options + 4)))))) = Inr cpu"
    using body by (simp_all only: sum.distinct split: if_splits)
  from steps[unfolded res_bind_eq_Inr] obtain n c1 c2 where
    n: "required_memory_size ?rs (halt_pc options) = Inr n"
    and c1: "write_registers registers (new_CPU n default_Config) = Inr c1"
    and c2: "write_words (zip (word_addresses ?rs) (tl vals)) c1 = Inr c2"
    and cpu': "Inr (halt (set_pc c2 (halt_pc options + 4))) = (Inr cpu :: CPU result)"
    by blast
  have cpu: "cpu = halt (set_pc c2 (halt_pc options + 4))" using cpu' by simp
  have new: "length (cpu_regs (new_CPU n default_Config)) = 32"
    by (simp add: new_CPU_def kNumRegisters_def)
  note regs = write_registers_CPU(1)[OF c1 new]
  have m1: "cpu_memory c1 = replicate n 0"
    using write_registers_CPU(2)[OF c1 new] by (auto simp: new_CPU_def)
  have n32: "n < 2 ^ 32" using n by (rule required_memory_size_fits(1))
  have w: "cpu_memory c2 = spike_memory n (zip (word_addresses (memory_ranges options)) (tl vals))"
    "cpu_regs c2 = cpu_regs c1" "length (cpu_memory c2) = n"
    using write_words_spec[OF c2] n32 by (auto simp: m1 spike_memory_def)
  have "reg_val cpu = reg_val c1" using w(2) by (auto simp: cpu halt_def set_pc_def reg_val_def fun_eq_iff)
  then have "holds_output options registers vals (memory_size cpu) cpu" "memory_size cpu = n"
    using regs w by (simp_all add: holds_output_def cpu halt_def set_pc_def memory_size_def)
  then show ?thesis using p v n by blast
qed

lemma convert_runs:
  assumes "convert files can_open options = Some (Inr out)"
  obtains t cpu s where "files (input_path options) = Some t" "convert_text options t = Inr cpu"
    "print_architectural_state_json cpu (memory_ranges options) new_stream = Some (Inr s)"
    "out = s_text s"
proof -
  obtain t where t1: "files (input_path options) = Some t"
    using assms by (cases "files (input_path options)") (simp_all add: convert_def read_text_file_def)
  then have c: "out_bind (Some (convert_text options t)) (\<lambda>cpu.
      if \<not> can_open (output_path options)
      then Some (Inl (Runtime_error (''failed to open output file: '' @ output_path options)))
      else out_bind (print_architectural_state_json cpu (memory_ranges options) new_stream)
             (\<lambda>s. Some (Inr (s_text s)))) = Some (Inr out)"
    using assms by (simp only: convert_def read_text_file_def option.case out_bind_simps)
  obtain cpu where t2: "convert_text options t = Inr cpu"
    using c by (cases "convert_text options t") (simp_all only: out_bind_simps option.inject sum.distinct)
  have "out_bind (print_architectural_state_json cpu (memory_ranges options) new_stream)
      (\<lambda>s. Some (Inr (s_text s))) = (Some (Inr out) :: string outcome)"
    using c unfolding t2 out_bind_simps
    by (simp only: option.inject sum.distinct split: if_splits)
  then obtain s where "print_architectural_state_json cpu (memory_ranges options) new_stream =
      Some (Inr s)" "out = s_text s"
    by (auto simp: out_bind_def split: option.splits sum.splits)
  then show ?thesis using that t1 t2 by blast
qed

lemma held_registers_eq:
  assumes "holds_output options registers vals n cpu"
  shows "(\<forall>r. unat r < 32 \<longrightarrow> read_reg c r = read_reg cpu r) \<longleftrightarrow>
    (\<forall>i. 0 < i \<and> i < 32 \<longrightarrow>
      map_of registers (kAbiRegisterNames ! i) = Some (reg_val c (of_nat i)))"
proof -
  have each: "reg_val c (of_nat i) = reg_val cpu (of_nat i) \<longleftrightarrow>
      (0 < i \<longrightarrow> map_of registers (kAbiRegisterNames ! i) = Some (reg_val c (of_nat i)))"
    if "i < 32" for i
    using assms that unfolding holds_output_def by (cases "i = 0") auto
  show ?thesis unfolding registers_eq_iff using each by blast
qed

lemma convert_compares:
  assumes "convert files can_open options = Some (Inr out)" "memory_ranges options \<noteq> []"
    and "memory_size c < 2 ^ 32"
    and "ranges_fit (memory_size c) (selection c (memory_ranges options))"
  shows "\<exists>t registers vals n s. files (input_path options) = Some t \<and>
    parse_registers t = Inr registers \<and> parse_standalone_hex_values t = Inr vals \<and>
    required_memory_size (memory_ranges options) (halt_pc options) = Inr n \<and>
    print_architectural_state_json c (memory_ranges options) new_stream = Some (Inr s) \<and>
    (s_text s = out \<longleftrightarrow> cpu_pc c = halt_pc options + 4 \<and> cpu_halted c \<and>
       (\<forall>i. 0 < i \<and> i < 32 \<longrightarrow>
          map_of registers (kAbiRegisterNames ! i) = Some (reg_val c (of_nat i))) \<and>
       (\<forall>a \<in> covered (selection c (memory_ranges options)). cpu_memory c ! a =
          spike_memory n (zip (word_addresses (memory_ranges options)) (tl vals)) ! a))"
proof -
  let ?rs = "memory_ranges options"
  obtain t cpu s' where t1: "files (input_path options) = Some t"
    and t2: "convert_text options t = Inr cpu"
    and t3: "print_architectural_state_json cpu ?rs new_stream = Some (Inr s')" "out = s_text s'"
    using convert_runs[OF assms(1)] .
  obtain registers vals where p: "parse_registers t = Inr registers"
    "parse_standalone_hex_values t = Inr vals"
    "required_memory_size ?rs (halt_pc options) = Inr (memory_size cpu)"
    "holds_output options registers vals (memory_size cpu) cpu"
    using convert_text_spec[OF t2] by blast
  note size = required_memory_size_fits[OF p(3)]
  have fit: "ranges_fit (memory_size cpu) (selection cpu ?rs)"
    using size(2) assms(2) by (simp add: selection_def)
  obtain rs where j: "print_architectural_state_json cpu ?rs new_stream = Some (Inr (plain (json_text cpu rs)))"
    "separated 0 rs" "list_all (\<lambda>r. snd r \<le> memory_size cpu) rs" "run_bytes rs = covered (selection cpu ?rs)"
    using json_of_selection[OF size(1) fit, of "[]"] by (auto simp: new_stream_plain)
  obtain rs' where k: "print_architectural_state_json c ?rs new_stream = Some (Inr (plain (json_text c rs')))"
    "separated 0 rs'" "list_all (\<lambda>r. snd r \<le> memory_size c) rs'" "run_bytes rs' = covered (selection c ?rs)"
    using json_of_selection[OF assms(3,4), of "[]"] by (auto simp: new_stream_plain)
  have sel: "selection cpu ?rs = selection c ?rs" using assms(2) by (simp add: selection_def)
  have out: "out = json_text cpu rs" using t3 j(1) by auto
  have same: "json_text c rs' = json_text cpu rs \<longleftrightarrow>
      same_view c (covered (selection c ?rs)) cpu (covered (selection c ?rs))"
    using json_text_eq_iff[OF k(2,3) assms(3) j(2,3) size(1)] unfolding j(4) k(4) sel .
  have held: "cpu_pc cpu = halt_pc options + 4" "cpu_halted cpu"
    "cpu_memory cpu = spike_memory (memory_size cpu) (zip (word_addresses ?rs) (tl vals))"
    using p(4) unfolding holds_output_def by blast+
  have shown: "s_text (plain (json_text c rs')) = out \<longleftrightarrow> cpu_pc c = halt_pc options + 4 \<and> cpu_halted c \<and>
       (\<forall>i. 0 < i \<and> i < 32 \<longrightarrow>
          map_of registers (kAbiRegisterNames ! i) = Some (reg_val c (of_nat i))) \<and>
       (\<forall>a \<in> covered (selection c ?rs). cpu_memory c ! a =
          spike_memory (memory_size cpu) (zip (word_addresses ?rs) (tl vals)) ! a)"
    unfolding plain_simps out same same_view_def held_registers_eq[OF p(4)] held(1,3) by (simp only: held(2) simp_thms)
  show ?thesis
    by (intro exI conjI) (rule t1 p(1) p(2) p(3) k(1) shown)+
qed

end
