(* ===== verification/Spike_Text.thy ===== *)
theory Spike_Text
  imports Spike_Compare Memory_Dump
begin

text \<open>
  What the adapter reads in the output of Spike, for every layout of that output: lines with any
  number of \<open>name: 0x...\<close> entries, padded in any way, lines with one hexadecimal number, and lines
  of other text, in any order. How many entries a line has, how they are padded and how many
  digits a number has is up to Spike; nothing here depends on it.
\<close>

section \<open>Hexadecimal numbers\<close>

lemma stoull_hex_digits:
  assumes "ds \<noteq> []" "list_all (is_digit 16) ds" "text_value 16 ds < 2 ^ 64"
  shows "stoull 0 (''0x'' @ ds) = Inr (of_nat (text_value 16 ds), length (''0x'' @ ds))"
proof -
  obtain c cs where c: "ds = c # cs" "is_digit 16 c" using assms(1,2) by (cases ds) auto
  have start: "split_sign (dropWhile is_space (''0x'' @ ds)) = (False, ''0x'' @ ds)"
    by (simp add: split_sign_def is_space_def)
  have base: "split_base 0 (''0x'' @ ds) = (16, ds)"
    using c by (simp add: split_base_def has_hex_prefix_def)
  have all: "takeWhile (is_digit 16) ds = ds" "dropWhile (is_digit 16) ds = []"
    using assms(2) by (simp_all add: takeWhile_eq_all_conv list_all_iff)
  show ?thesis
    unfolding stoull_def start Let_def prod.case base all using assms(1,3) by simp
qed

lemma hex_char_is_digit: "is_digit 16 c \<Longrightarrow> hex_char c"
  by (auto simp: is_digit_def digit_value_def hex_char_def in_range_def Let_def split: if_splits)

text \<open>The digits of a 32-bit number, with any number of leading zeros.\<close>

definition hex_number :: "string \<Rightarrow> bool" where
  "hex_number ds \<longleftrightarrow> ds \<noteq> [] \<and> list_all (is_digit 16) ds \<and> text_value 16 ds < 2 ^ 32"

definition hex_value :: "string \<Rightarrow> u32" where
  "hex_value ds = of_nat (text_value 16 ds)"

lemma parse_u32_hex:
  assumes "hex_number ds"
  shows "parse_u32 (''0x'' @ ds) option_name = Inr (hex_value ds)"
proof -
  have ds: "ds \<noteq> []" "list_all (is_digit 16) ds" "text_value 16 ds < 2 ^ 32"
    using assms by (simp_all add: hex_number_def)
  then have u: "unat (of_nat (text_value 16 ds) :: u64) = text_value 16 ds"
    by (simp add: unat_of_nat take_bit_nat_eq_self)
  then have le: "\<not> uint32_max < (of_nat (text_value 16 ds) :: u64)"
    using ds(3) by (simp add: word_less_nat_alt uint32_max_def)
  have "ucast w = (of_nat (unat w) :: u32)" for w :: u64 by simp
  then have "ucast (of_nat (text_value 16 ds) :: u64) = hex_value ds"
    by (simp only: hex_value_def u)
  then show ?thesis
    using stoull_hex_digits[OF ds(1,2)] ds(3) le by (simp add: parse_u32_def)
qed

lemma match_hex_number:
  assumes "hex_number ds" "rest = [] \<or> \<not> hex_char (hd rest)"
  shows "match_hex (''0x'' @ ds @ rest) = Some (''0x'' @ ds, rest)"
proof -
  have all: "\<forall>c \<in> set ds. hex_char c" and ne: "ds \<noteq> []"
    using assms(1) hex_char_is_digit by (auto simp: hex_number_def list_all_iff)
  then have "takeWhile hex_char (ds @ rest) = ds" "dropWhile hex_char (ds @ rest) = rest"
    using assms(2) by (cases rest; simp add: takeWhile_append2 takeWhile_tail)+
  then show ?thesis using ne by (simp add: match_hex_def)
qed

section \<open>Layouts\<close>

datatype register_entry =
  Entry (entry_lead: string) (entry_name: string) (entry_gap: string) (entry_digits: string)

datatype output_line =
  Register_line "register_entry list"
| Value_line string string string
| Other_line string

definition blanks :: "string \<Rightarrow> bool" where
  "blanks t = list_all (\<lambda>c. is_space c \<and> c \<noteq> CHR 0x0A) t"

fun entry_text :: "register_entry \<Rightarrow> string" where
  "entry_text (Entry lead n gap ds) = lead @ n @ '':'' @ gap @ ''0x'' @ ds"

fun line_text :: "output_line \<Rightarrow> string" where
  "line_text (Register_line es) = concat (map entry_text es)"
| "line_text (Value_line before ds after) = before @ ''0x'' @ ds @ after"
| "line_text (Other_line t) = t"

definition output_text :: "output_line list \<Rightarrow> string" where
  "output_text ls = concat (map (\<lambda>l. line_text l @ newline) ls)"

fun entry_ok :: "register_entry \<Rightarrow> bool" where
  "entry_ok (Entry lead n gap ds) =
     (blanks lead \<and> n \<in> set kAbiRegisterNames \<and> blanks gap \<and> hex_number ds)"

text \<open>
  Two entries of a line are separated; a line of other text has no colon and does not begin
  like a number.
\<close>

fun line_ok :: "output_line \<Rightarrow> bool" where
  "line_ok (Register_line es) =
     (es \<noteq> [] \<and> list_all entry_ok es \<and> list_all (\<lambda>e. entry_lead e \<noteq> []) (tl es))"
| "line_ok (Value_line before ds after) = (blanks before \<and> hex_number ds \<and> blanks after)"
| "line_ok (Other_line t) =
     (CHR 0x0A \<notin> set t \<and> CHR '':'' \<notin> set t \<and>
      (case dropWhile is_space t of [] \<Rightarrow> True | c # cs \<Rightarrow> c \<noteq> CHR ''0''))"

text \<open>What the output says.\<close>

fun line_registers :: "output_line \<Rightarrow> (string \<times> u32) list" where
  "line_registers (Register_line es) =
     map (\<lambda>e. (entry_name e, hex_value (entry_digits e))) es"
| "line_registers l = []"

fun line_values :: "output_line \<Rightarrow> u32 list" where
  "line_values (Value_line before ds after) = [hex_value ds]"
| "line_values l = []"

definition shown_registers :: "output_line list \<Rightarrow> (string \<times> u32) list" where
  "shown_registers ls = concat (map line_registers ls)"

definition shown_values :: "output_line list \<Rightarrow> u32 list" where
  "shown_values ls = concat (map line_values ls)"

text \<open>Every register is shown once.\<close>

definition complete_output :: "output_line list \<Rightarrow> bool" where
  "complete_output ls \<longleftrightarrow> list_all line_ok ls \<and> distinct (map fst (shown_registers ls)) \<and>
     set (map fst (shown_registers ls)) = set kAbiRegisterNames"

section \<open>Registers\<close>

definition abi_name :: "string \<Rightarrow> bool" where
  "abi_name n = (n \<noteq> [] \<and> name_start (hd n) \<and> list_all name_char n)"

lemma abi_names: "list_all abi_name kAbiRegisterNames" "distinct kAbiRegisterNames"
  "length kAbiRegisterNames = 32"
  by code_simp+

lemma abi_name_in: "n \<in> set kAbiRegisterNames \<Longrightarrow> abi_name n"
  using abi_names(1) by (simp add: list_all_iff)

lemma special_chars:
  "\<not> name_char (CHR '':'')" "\<not> name_char (CHR 0x0A)" "\<not> hex_char (CHR 0x0A)"
  "is_space c \<Longrightarrow> \<not> name_start c" "is_space c \<Longrightarrow> \<not> hex_char c" "is_space c \<Longrightarrow> \<not> name_char c"
  "is_space c \<Longrightarrow> c \<noteq> CHR '':''" "is_space (CHR 0x0A)"
  "name_start c \<Longrightarrow> \<not> is_space c" "\<not> is_space (CHR ''0'')" "name_start c \<Longrightarrow> c \<noteq> CHR ''0''"
  by (auto simp: name_char_def name_start_def hex_char_def in_range_def is_space_def)

lemma matches_skip: "\<not> name_start c \<Longrightarrow> register_matches (c # t) = register_matches t"
  by (subst register_matches.simps) (simp add: match_register_def)

lemma matches_blanks: "blanks w \<Longrightarrow> register_matches (w @ t) = register_matches t"
  by (induction w) (simp_all add: blanks_def matches_skip special_chars(4))

lemma matches_newline: "register_matches (CHR 0x0A # t) = register_matches t"
  by (simp add: matches_skip special_chars(4,8))

text \<open>A text without a colon has no match that reaches into the next line.\<close>

lemma match_none_line:
  assumes "CHR '':'' \<notin> set t"
  shows "match_register (c # t @ CHR 0x0A # u) = None"
proof -
  have "dropWhile name_char (t @ CHR 0x0A # u) = dropWhile name_char t @ CHR 0x0A # u"
    using special_chars(2) by (induction t) auto
  moreover have "dropWhile name_char t = [] \<or> hd (dropWhile name_char t) \<noteq> CHR '':''"
    using assms set_dropWhileD[of _ name_char t] by (metis hd_in_set)
  ultimately have "hd (dropWhile name_char (t @ CHR 0x0A # u)) \<noteq> CHR '':''"
    by (cases "dropWhile name_char t") auto
  then show ?thesis by (simp add: match_register_def Let_def)
qed

lemma matches_no_colon:
  "CHR '':'' \<notin> set t \<Longrightarrow> register_matches (t @ CHR 0x0A # u) = register_matches u"
proof (induction t)
  case Nil
  then show ?case by (simp add: matches_newline)
next
  case (Cons c t)
  then have "match_register (c # t @ CHR 0x0A # u) = None" by (intro match_none_line) simp
  then show ?case using Cons by (subst register_matches.simps) simp
qed

lemma match_entry:
  assumes "abi_name n" "blanks gap" "hex_number ds" "rest = [] \<or> \<not> hex_char (hd rest)"
  shows "match_register (n @ CHR '':'' # gap @ ''0x'' @ ds @ rest) = Some ((n, ''0x'' @ ds), rest)"
proof -
  obtain c cs where n: "n = c # cs" "name_start c" "list_all name_char cs"
    using assms(1) by (cases n) (auto simp: abi_name_def)
  have cut: "takeWhile name_char (cs @ CHR '':'' # x) = cs"
    "dropWhile name_char (cs @ CHR '':'' # x) = CHR '':'' # x" for x
    using n(3) special_chars(1) by (simp_all add: takeWhile_append2 takeWhile_tail list_all_iff)
  have gap: "dropWhile is_space (gap @ CHR ''0'' # x) = CHR ''0'' # x" for x
    using assms(2) special_chars(10) by (induction gap) (simp_all add: blanks_def)
  have hex: "match_hex (CHR ''0'' # CHR ''x'' # ds @ rest) = Some (''0x'' @ ds, rest)"
    using match_hex_number[OF assms(3,4)] by simp
  have "match_register (c # cs @ CHR '':'' # gap @ CHR ''0'' # CHR ''x'' # ds @ rest) =
      Some ((c # cs, ''0x'' @ ds), rest)"
    unfolding match_register_def list.case Let_def cut list.sel gap hex using n(2) by simp
  then show ?thesis by (simp add: n(1))
qed

lemma matches_entry:
  assumes "entry_ok e" "rest = [] \<or> \<not> hex_char (hd rest)"
  shows "register_matches (entry_text e @ rest) =
    (entry_name e, ''0x'' @ entry_digits e) # register_matches rest"
proof -
  obtain lead n gap ds where e: "e = Entry lead n gap ds" by (cases e)
  have ok: "blanks lead" "abi_name n" "blanks gap" "hex_number ds"
    using assms(1) abi_name_in by (auto simp: e)
  let ?t = "n @ CHR '':'' # gap @ ''0x'' @ ds @ rest"
  have "register_matches (entry_text e @ rest) = register_matches ?t"
    using matches_blanks[OF ok(1), of ?t] by (simp add: e)
  also have "\<dots> = (n, ''0x'' @ ds) # register_matches rest"
    by (subst register_matches.simps) (simp only: match_entry[OF ok(2-4) assms(2)] option.case prod.case)
  finally show ?thesis by (simp add: e)
qed

lemma entry_starts_blank:
  assumes "entry_ok e" "entry_lead e \<noteq> []"
  shows "\<not> hex_char (hd (entry_text e @ t))"
  using assms by (cases e; cases "entry_lead e") (auto simp: blanks_def special_chars(5))

lemma matches_entries:
  assumes "list_all entry_ok es" "list_all (\<lambda>e. entry_lead e \<noteq> []) (tl es)"
  shows "register_matches (concat (map entry_text es) @ CHR 0x0A # t) =
    map (\<lambda>e. (entry_name e, ''0x'' @ entry_digits e)) es @ register_matches t"
  using assms
proof (induction es)
  case Nil
  then show ?case by (simp add: matches_newline)
next
  case (Cons e es)
  let ?rest = "concat (map entry_text es) @ CHR 0x0A # t"
  have "\<not> hex_char (hd ?rest)"
  proof (cases es)
    case Nil
    then show ?thesis by (simp add: special_chars(3))
  next
    case (Cons f fs)
    then show ?thesis using Cons.prems entry_starts_blank[of f] by simp
  qed
  moreover have "list_all (\<lambda>e. entry_lead e \<noteq> []) (tl es)"
    using Cons.prems(2) by (cases es) simp_all
  ultimately show ?case
    using Cons matches_entry[of e ?rest] by simp
qed

fun line_matches :: "output_line \<Rightarrow> (string \<times> string) list" where
  "line_matches (Register_line es) = map (\<lambda>e. (entry_name e, ''0x'' @ entry_digits e)) es"
| "line_matches l = []"

lemma blanks_no_colon: "blanks w \<Longrightarrow> CHR '':'' \<notin> set w" "blanks w \<Longrightarrow> CHR 0x0A \<notin> set w"
  using special_chars(7) by (auto simp: blanks_def list_all_iff)

lemma hex_digit_chars:
  assumes "hex_number ds" "c \<in> set ds"
  shows "c \<noteq> CHR '':''" "c \<noteq> CHR 0x0A"
proof -
  have d: "is_digit 16 c" using assms by (simp add: hex_number_def list_all_iff)
  then have "\<not> is_space c" by (rule digit_not_space)
  then show "c \<noteq> CHR 0x0A" by (auto simp: is_space_def)
  show "c \<noteq> CHR '':''" using d by (auto simp: is_digit_def digit_value_def)
qed

lemma matches_line:
  assumes "line_ok l"
  shows "register_matches (line_text l @ CHR 0x0A # t) = line_matches l @ register_matches t"
proof (cases l)
  case (Register_line es)
  then show ?thesis using assms matches_entries[of es t] by simp
next
  case (Value_line before ds after)
  have "CHR '':'' \<notin> set (line_text l)"
    using assms blanks_no_colon(1) hex_digit_chars(1) by (auto simp: Value_line)
  from matches_no_colon[OF this, of t] show ?thesis by (simp add: Value_line)
next
  case (Other_line u)
  then show ?thesis using assms matches_no_colon[of u t] by simp
qed

lemma matches_output:
  "list_all line_ok ls \<Longrightarrow> register_matches (output_text ls) = concat (map line_matches ls)"
proof (induction ls)
  case Nil
  then show ?case by (subst register_matches.simps) (simp add: output_text_def match_register_def)
next
  case (Cons l ls)
  then show ?case using matches_line[of l "output_text ls"] by (simp add: output_text_def newline_def)
qed

lemma update_new: "k \<notin> fst ` set al \<Longrightarrow> AList.update k v al = al @ [(k, v)]"
  by (induction al) auto

lemma update_all:
  assumes "distinct (map fst (al @ map (\<lambda>(k, ds). (k, hex_value ds)) rs))"
    and "list_all (\<lambda>(k, ds). hex_number ds) rs"
  shows "res_fold (\<lambda>(reg_name, t) registers.
      res_bind (parse_u32 t ''Spike register'') (\<lambda>w. Inr (AList.update reg_name w registers)))
    (map (\<lambda>(k, ds). (k, ''0x'' @ ds)) rs) al = Inr (al @ map (\<lambda>(k, ds). (k, hex_value ds)) rs)"
  using assms
proof (induction rs arbitrary: al)
  case Nil
  then show ?case by simp
next
  case (Cons r rs)
  obtain k ds where r: "r = (k, ds)" by (cases r)
  have "k \<notin> fst ` set al" "hex_number ds" using Cons.prems by (auto simp: r)
  then have u: "AList.update k (hex_value ds) al = al @ [(k, hex_value ds)]"
    "parse_u32 (''0x'' @ ds) ''Spike register'' = Inr (hex_value ds)"
    by (simp only: update_new simp_thms, simp only: parse_u32_hex)
  have "distinct (map fst ((al @ [(k, hex_value ds)]) @ map (\<lambda>(k, ds). (k, hex_value ds)) rs))"
    using Cons.prems(1) by (simp add: r)
  from Cons.IH[OF this] Cons.prems(2) show ?case using u by (simp add: r)
qed

lemma line_matches_entries:
  "line_matches l = map (\<lambda>(k, ds). (k, ''0x'' @ ds))
     (case l of Register_line es \<Rightarrow> map (\<lambda>e. (entry_name e, entry_digits e)) es | _ \<Rightarrow> [])"
  "line_registers l = map (\<lambda>(k, ds). (k, hex_value ds))
     (case l of Register_line es \<Rightarrow> map (\<lambda>e. (entry_name e, entry_digits e)) es | _ \<Rightarrow> [])"
  by (cases l; simp)+

lemma output_registers:
  assumes "complete_output ls"
  shows "parse_registers (output_text ls) = Inr (shown_registers ls)"
    "length (shown_registers ls) = 32"
proof -
  have ok: "list_all line_ok ls" "distinct (map fst (shown_registers ls))"
    "set (map fst (shown_registers ls)) = set kAbiRegisterNames"
    using assms by (simp_all add: complete_output_def)
  show len: "length (shown_registers ls) = 32"
    using distinct_card[OF ok(2)] distinct_card[OF abi_names(2)] ok(3) abi_names(3) by simp
  define raw where "raw l = (case l of Register_line es \<Rightarrow> map (\<lambda>e. (entry_name e, entry_digits e)) es
    | _ \<Rightarrow> [])" for l
  let ?rs = "concat (map raw ls)"
  have raw: "line_registers = (\<lambda>l. map (\<lambda>(k, ds). (k, hex_value ds)) (raw l))"
    "line_matches = (\<lambda>l. map (\<lambda>(k, ds). (k, ''0x'' @ ds)) (raw l))"
    unfolding raw_def by (rule ext, rule line_matches_entries)+
  have shown: "shown_registers ls = map (\<lambda>(k, ds). (k, hex_value ds)) ?rs"
    unfolding shown_registers_def raw(1) by (simp add: map_concat o_def)
  have matches: "register_matches (output_text ls) = map (\<lambda>(k, ds). (k, ''0x'' @ ds)) ?rs"
    unfolding matches_output[OF ok(1)] raw(2) by (simp add: map_concat o_def)
  have "hex_number (snd r)" if r: "r \<in> set (raw l)" "l \<in> set ls" for r l
  proof -
    obtain es e where es: "l = Register_line es" "e \<in> set es" "r = (entry_name e, entry_digits e)"
      using r(1) by (cases l) (auto simp: raw_def)
    then have "entry_ok e" using ok(1) r(2) by (auto simp: list_all_iff)
    then show ?thesis by (cases e) (simp add: es(3))
  qed
  then have "list_all (\<lambda>(k, ds). hex_number ds) ?rs" by (auto simp: list_all_iff)
  moreover have "distinct (map fst ([] @ map (\<lambda>(k, ds). (k, hex_value ds)) ?rs))"
    using ok(2) by (simp add: shown)
  ultimately show "parse_registers (output_text ls) = Inr (shown_registers ls)"
    using update_all[of "[]" ?rs] len abi_names(3)
    by (simp add: parse_registers_def matches shown)
qed

section \<open>Values\<close>

lemma text_lines_step:
  assumes "CHR 0x0A \<notin> set l"
  shows "text_lines (l @ CHR 0x0A # t) = l # text_lines t"
proof -
  have "takeWhile (\<lambda>c. c \<noteq> CHR 0x0A) (l @ CHR 0x0A # t) = l"
    "dropWhile (\<lambda>c. c \<noteq> CHR 0x0A) (l @ CHR 0x0A # t) = CHR 0x0A # t"
    using assms by (auto simp: takeWhile_append2 takeWhile_tail dropWhile_append)
  then show ?thesis by (subst text_lines.simps) simp
qed

lemma entry_one_line: "entry_ok e \<Longrightarrow> CHR 0x0A \<notin> set (entry_text e)"
proof (cases e)
  case (Entry lead n gap ds)
  assume "entry_ok e"
  then have ok: "blanks lead" "abi_name n" "blanks gap" "hex_number ds"
    using abi_name_in by (auto simp: Entry)
  have "CHR 0x0A \<notin> set n"
    using ok(2) special_chars(2) by (auto simp: abi_name_def list_all_iff)
  then show ?thesis using ok blanks_no_colon(2) hex_digit_chars(2) by (auto simp: Entry)
qed

lemma line_one_line: "line_ok l \<Longrightarrow> CHR 0x0A \<notin> set (line_text l)"
  using entry_one_line blanks_no_colon(2) hex_digit_chars(2)
  by (cases l) (auto simp: list_all_iff)

lemma output_lines:
  "list_all line_ok ls \<Longrightarrow> text_lines (output_text ls) = map line_text ls"
proof (induction ls)
  case Nil
  then show ?case by (subst text_lines.simps) (simp add: output_text_def)
next
  case (Cons l ls)
  then show ?case
    using text_lines_step[OF line_one_line, of l "output_text ls"]
    by (simp add: output_text_def newline_def)
qed

lemma drop_blanks:
  assumes "blanks w" "\<not> is_space c"
  shows "dropWhile is_space (w @ c # t) = c # t"
  using assms by (induction w) (simp_all add: blanks_def)

lemma value_of_line:
  assumes "line_ok l"
  shows "match_value (line_text l) =
    (case l of Value_line before ds after \<Rightarrow> Some (''0x'' @ ds) | _ \<Rightarrow> None)"
proof (cases l)
  case (Register_line es)
  then obtain e fs where es: "es = e # fs" "entry_ok e" using assms by (cases es) auto
  obtain lead n gap ds where e: "e = Entry lead n gap ds" by (cases e)
  then obtain c cs where n: "n = c # cs" "name_start c"
    using es(2) abi_name_in[of n] by (cases n) (auto simp: abi_name_def)
  have "blanks lead" using es(2) by (simp add: e)
  then have "\<exists>t. dropWhile is_space (line_text l) = c # t"
    using drop_blanks[of lead c] special_chars(9)[OF n(2)] by (simp add: Register_line es(1) e n(1))
  then show ?thesis
    using special_chars(11)[OF n(2)] by (auto simp: Register_line match_value_def match_hex_def)
next
  case (Value_line before ds after)
  have ok: "blanks before" "hex_number ds" "blanks after" using assms by (simp_all add: Value_line)
  have "after = [] \<or> \<not> hex_char (hd after)"
    using ok(3) special_chars(5) by (cases after) (auto simp: blanks_def)
  from match_hex_number[OF ok(2) this]
  have "match_hex (dropWhile is_space (line_text l)) = Some (''0x'' @ ds, after)"
    using drop_blanks[OF ok(1) special_chars(10)] by (simp add: Value_line)
  moreover have "list_all is_space after" using ok(3) by (auto simp: blanks_def list_all_iff)
  ultimately show ?thesis by (simp add: match_value_def Value_line)
next
  case (Other_line t)
  have "match_hex (dropWhile is_space t) = None"
  proof (cases "dropWhile is_space t")
    case Nil
    show ?thesis unfolding Nil by (simp add: match_hex_def)
  next
    case (Cons c cs)
    have "c \<noteq> CHR ''0''" using assms Cons by (simp add: Other_line)
    then show ?thesis unfolding Cons by (simp add: match_hex_def)
  qed
  then show ?thesis by (simp add: Other_line match_value_def)
qed

lemma output_values:
  assumes "list_all line_ok ls"
  shows "parse_standalone_hex_values (output_text ls) = Inr (shown_values ls)"
proof -
  have "res_fold (\<lambda>t vs. case match_value t of
       None \<Rightarrow> Inr vs
     | Some v \<Rightarrow> res_bind (parse_u32 v ''Spike value'') (\<lambda>w. Inr (vs @ [w])))
     (map line_text ls) acc = Inr (acc @ shown_values ls)" for acc
    using assms
  proof (induction ls arbitrary: acc)
    case Nil
    then show ?case by (simp add: shown_values_def)
  next
    case (Cons l ls)
    then have v: "match_value (line_text l) =
        (case l of Value_line before ds after \<Rightarrow> Some (''0x'' @ ds) | _ \<Rightarrow> None)"
      by (intro value_of_line) simp
    show ?case
    proof (cases l)
      case (Value_line before ds after)
      then have "hex_number ds" using Cons.prems by simp
      then have "parse_u32 (''0x'' @ ds) ''Spike value'' = Inr (hex_value ds)" by (rule parse_u32_hex)
      then show ?thesis
        using Cons.IH[of "acc @ [hex_value ds]"] Cons.prems v
        by (simp add: Value_line shown_values_def)
    qed (use Cons v in \<open>simp_all add: shown_values_def\<close>)
  qed
  then show ?thesis
    by (simp only: parse_standalone_hex_values_def output_lines[OF assms] append_Nil)
qed

section \<open>The conversion succeeds\<close>

lemma shown_register:
  assumes "complete_output ls" "i < 32"
  shows "\<exists>v. map_of (shown_registers ls) (kAbiRegisterNames ! i) = Some v"
proof -
  have "kAbiRegisterNames ! i \<in> set kAbiRegisterNames" using assms(2) abi_names(3) by simp
  then have "kAbiRegisterNames ! i \<in> fst ` set (shown_registers ls)"
    using assms(1) by (simp add: complete_output_def)
  then show ?thesis by (metis domD dom_map_of_conv_image_fst)
qed

lemma write_registers_succeeds:
  assumes "complete_output ls"
  shows "\<exists>c'. write_registers (shown_registers ls) c = Inr c'"
proof -
  have "\<exists>c'. (case map_of (shown_registers ls) (kAbiRegisterNames ! i) of
        None \<Rightarrow> Inl (Out_of_range ''unordered_map::at'')
      | Some v \<Rightarrow> write_reg c (of_nat i) v) = Inr c'"
    if "i \<in> set [0..<length kAbiRegisterNames]" for i c
  proof -
    have i: "i < 32" using that abi_names(3) by simp
    then have "unat (of_nat i :: u8) < 32" by (simp add: unat_of_nat)
    then show ?thesis using shown_register[OF assms i] by (auto simp: write_reg_in)
  qed
  then show ?thesis unfolding write_registers_def by (intro res_fold_succeeds)
qed

lemma write_words_succeeds:
  assumes "\<forall>w \<in> set ws. unat (fst w) + 4 \<le> length (cpu_memory c)" "length (cpu_memory c) \<le> 2 ^ 32"
  shows "\<exists>c'. write_words ws c = Inr c'"
  using assms
proof (induction ws arbitrary: c)
  case Nil
  then show ?case by (simp add: write_words_def)
next
  case (Cons w ws)
  obtain a v where w: "w = (a, v)" by (cases w)
  have fits: "unat a + 4 \<le> length (cpu_memory c)" using Cons.prems(1) by (simp add: w)
  have c1: "write_u32 c a v = Inr (set_memory c a (le_bytes 4 v))"
    using write_in(3)[OF Cons.prems(2) fits] .
  have "\<exists>c'. write_words ws (set_memory c a (le_bytes 4 v)) = Inr c'"
    using Cons.prems fits by (intro Cons.IH) simp_all
  then show ?case by (simp add: write_words_def w c1)
qed

lemma word_addresses_fit:
  assumes "ranges_fit n (map (\<lambda>r. (range_start r, range_count r)) ranges)" "n \<le> 2 ^ 32"
    and "a \<in> set (word_addresses ranges)"
  shows "unat a + 4 \<le> n"
proof -
  obtain r k where r: "r \<in> set ranges" "k < unat (range_count r) div 4"
    "a = range_start r + of_nat (4 * k)"
    using assms(3) by (auto simp: word_addresses_def)
  have fits: "unat (range_start r) + unat (range_count r) \<le> n"
    using assms(1) r(1) by (auto simp: ranges_fit_def list_all_iff range_end_def)
  have k: "4 * k + 4 \<le> unat (range_count r)" using r(2) by linarith
  have u: "unat (of_nat (4 * k) :: u32) = 4 * k"
    using k u32_bound[of "range_count r"] by (subst unat_of_nat) simp
  have "unat a = unat (range_start r) + 4 * k"
    unfolding r(3) using fits k assms(2) u by (subst unat_add_no_wrap) simp_all
  then show ?thesis using fits k by simp
qed

lemma output_converts:
  assumes "complete_output ls" "shown_values ls = halt_pc options # words"
    and "length words = (\<Sum>r\<leftarrow>memory_ranges options. unat (range_count r) div 4)"
    and "required_memory_size (memory_ranges options) (halt_pc options) = Inr n"
  shows "\<exists>cpu. convert_text options (output_text ls) = Inr cpu \<and> memory_size cpu = n"
proof -
  have "list_all line_ok ls" using assms(1) by (simp add: complete_output_def)
  note read = output_registers(1)[OF assms(1)] output_values[OF this]
  obtain c1 where c1: "write_registers (shown_registers ls) (new_CPU n default_Config) = Inr c1"
    using write_registers_succeeds[OF assms(1)] by blast
  note size = required_memory_size_fits[OF assms(4)]
  obtain rs where "c1 = (new_CPU n default_Config)\<lparr>cpu_regs := rs\<rparr>"
    using write_registers_CPU(2)[OF c1] by (auto simp: new_CPU_def kNumRegisters_def)
  then have m: "length (cpu_memory c1) = n" by (simp add: new_CPU_def)
  have "unat (fst w) + 4 \<le> length (cpu_memory c1)"
    if "w \<in> set (zip (word_addresses (memory_ranges options)) words)" for w
  proof -
    have "fst w \<in> set (word_addresses (memory_ranges options))"
      using that by (metis prod.collapse set_zip_leftD)
    then show ?thesis unfolding m using size by (intro word_addresses_fit[OF size(2)]) simp
  qed
  then have "\<exists>c2. write_words (zip (word_addresses (memory_ranges options)) words) c1 = Inr c2"
    using m size(1) by (intro write_words_succeeds) simp_all
  then obtain c2 where c2: "write_words (zip (word_addresses (memory_ranges options)) words) c1 = Inr c2" ..
  have result: "convert_text options (output_text ls) = Inr (halt (set_pc c2 (halt_pc options + 4)))"
    unfolding convert_text_def read assms(2) res_bind_simps Let_def list.sel assms(4) c1 c2
    using assms(3) by simp
  from convert_text_spec[OF result]
  have "required_memory_size (memory_ranges options) (halt_pc options) =
      Inr (memory_size (halt (set_pc c2 (halt_pc options + 4))))" by blast
  then show ?thesis using result assms(4) by auto
qed

lemma output_convert:
  assumes "files (input_path options) = Some (output_text ls)"
    and "can_open (output_path options)" "complete_output ls"
    and "shown_values ls = halt_pc options # words"
    and "length words = (\<Sum>r\<leftarrow>memory_ranges options. unat (range_count r) div 4)"
    and "required_memory_size (memory_ranges options) (halt_pc options) = Inr n"
    and "memory_ranges options \<noteq> []"
  shows "\<exists>out. convert files can_open options = Some (Inr out)"
proof -
  obtain cpu where cpu: "convert_text options (output_text ls) = Inr cpu" "memory_size cpu = n"
    using output_converts[OF assms(3-6)] by blast
  note size = required_memory_size_fits[OF assms(6)]
  have "ranges_fit (memory_size cpu) (selection cpu (memory_ranges options))"
    using size(2) assms(7) by (simp add: selection_def cpu(2))
  from json_of_selection[OF _ this, of "[]"] obtain rs where
    "print_architectural_state_json cpu (memory_ranges options) new_stream =
       Some (Inr (plain (json_text cpu rs)))"
    using size(1) by (auto simp: cpu(2) new_stream_plain)
  then show ?thesis using assms(1,2) cpu(1) by (simp add: convert_def read_text_file_def)
qed

text \<open>A CPU that agrees with what an output shows.\<close>

definition agrees_with :: "Options \<Rightarrow> output_line list \<Rightarrow> u32 list \<Rightarrow> nat \<Rightarrow> CPU \<Rightarrow> bool" where
  "agrees_with options ls words n c \<longleftrightarrow>
     cpu_pc c = halt_pc options + 4 \<and> cpu_halted c \<and>
     (\<forall>i. 0 < i \<and> i < 32 \<longrightarrow>
        map_of (shown_registers ls) (kAbiRegisterNames ! i) = Some (reg_val c (of_nat i))) \<and>
     (\<forall>a \<in> covered (selection c (memory_ranges options)).
        cpu_memory c ! a = spike_memory n (zip (word_addresses (memory_ranges options)) words) ! a)"

lemma output_compares:
  assumes "convert files can_open options = Some (Inr out)"
    and "files (input_path options) = Some (output_text ls)" "complete_output ls"
    and "shown_values ls = halt_pc options # words"
    and "required_memory_size (memory_ranges options) (halt_pc options) = Inr n"
    and "memory_ranges options \<noteq> []" "memory_size c < 2 ^ 32"
    and "ranges_fit (memory_size c) (selection c (memory_ranges options))"
  shows "\<exists>s. print_architectural_state_json c (memory_ranges options) new_stream = Some (Inr s) \<and>
    (s_text s = out \<longleftrightarrow> agrees_with options ls words n c)"
proof -
  from convert_compares[OF assms(1,6-8)] obtain t registers vals k s where
    t: "files (input_path options) = Some t" "parse_registers t = Inr registers"
    "parse_standalone_hex_values t = Inr vals"
    "required_memory_size (memory_ranges options) (halt_pc options) = Inr k"
    and s: "print_architectural_state_json c (memory_ranges options) new_stream = Some (Inr s)"
    "s_text s = out \<longleftrightarrow> cpu_pc c = halt_pc options + 4 \<and> cpu_halted c \<and>
       (\<forall>i. 0 < i \<and> i < 32 \<longrightarrow>
          map_of registers (kAbiRegisterNames ! i) = Some (reg_val c (of_nat i))) \<and>
       (\<forall>a \<in> covered (selection c (memory_ranges options)). cpu_memory c ! a =
          spike_memory k (zip (word_addresses (memory_ranges options)) (tl vals)) ! a)"
    by blast
  have tt: "t = output_text ls" and k: "k = n" using t(1,4) assms(2,5) by simp_all
  have "list_all line_ok ls" using assms(3) by (simp add: complete_output_def)
  then have r: "registers = shown_registers ls" "vals = halt_pc options # words"
    using t(2,3) output_registers(1)[OF assms(3)] output_values assms(4) unfolding tt by simp_all
  show ?thesis
    using s unfolding agrees_with_def r k list.sel by (intro exI[of _ s] conjI)
qed

end
