(* ===== verification/Golden_Test.thy ===== *)
theory Golden_Test
  imports Main_Loop Spike_Text
begin

text \<open>
  The golden test of \<open>scripts/run_spike_golden.sh\<close>, both programs together: the simulator runs an
  image and writes its state file, the adapter reads what Spike printed and writes its own, and
  the two files are compared byte by byte.
\<close>

section \<open>The state file of a run\<close>

lemma dumped_state:
  assumes "dumps_state opts c (Some t)" "dump_state_path opts \<noteq> []" "memory_size c < 2 ^ 32"
    and "ranges_fit (memory_size c) (selection c (state_memory_ranges opts))"
    and "print_architectural_state_json c (state_memory_ranges opts) new_stream = Some (Inr s)"
  shows "t = s_text s"
proof -
  obtain rs where rs: "t = json_text c rs" "separated 0 rs"
    "list_all (\<lambda>r. snd r \<le> memory_size c) rs"
    "run_bytes rs = covered (selection c (state_memory_ranges opts))"
    using assms(1,2) by (auto simp: dumps_state_def)
  obtain ls where ls: "s_text s = json_text c ls" "separated 0 ls"
    "list_all (\<lambda>r. snd r \<le> memory_size c) ls"
    "run_bytes ls = covered (selection c (state_memory_ranges opts))"
    using json_of_selection[OF assms(3,4), of "[]"] assms(5) by (auto simp: new_stream_plain)
  show ?thesis
    using json_text_eq_iff[OF rs(2,3) assms(3) ls(2,3) assms(3)] rs(1,4) ls(1,4)
    by (simp add: same_view_def)
qed

text \<open>What an output shows, as conditions on a state of the machine.\<close>

definition shows_state :: "Options \<Rightarrow> output_line list \<Rightarrow> u32 list \<Rightarrow> nat \<Rightarrow> Arch \<Rightarrow> bool" where
  "shows_state options ls words n z \<longleftrightarrow>
     a_pc z = halt_pc options + 4 \<and>
     (\<forall>i. 0 < i \<and> i < 32 \<longrightarrow>
        map_of (shown_registers ls) (kAbiRegisterNames ! i) = Some (isa_get z (of_nat i))) \<and>
     (\<forall>a \<in> covered (map (\<lambda>r. (range_start r, range_count r)) (memory_ranges options)).
        a_memory z ! a = spike_memory n (zip (word_addresses (memory_ranges options)) words) ! a)"

lemma agrees_with_machine:
  assumes "cpu_halted c" "arch_of c = z" "regs_ok c" "memory_ranges options \<noteq> []"
  shows "agrees_with options ls words n c \<longleftrightarrow> shows_state options ls words n z"
proof -
  have z: "a_pc z = cpu_pc c" "a_memory z = cpu_memory c"
    using assms(2) by (auto simp: arch_of_def)
  have "reg_val c (of_nat i) = isa_get z (of_nat i)" if "i < 32" for i
  proof -
    have "unat (of_nat i :: u8) < 32" using that by (simp add: unat_of_nat)
    then show ?thesis using assms(2,3) by (auto simp: arch_of_def)
  qed
  then show ?thesis
    using assms(1,4)
    by (auto simp: agrees_with_def shows_state_def z selection_def)
qed

lemma golden_test_runs:
  assumes "parse_cli args = Inr opts" "\<not> show_help opts" "\<not> has_retire_count opts"
    and "load_phase w opts new_stream = Inr (c, s)" "code_stable (arch_of c)"
    and "isa_steps n (arch_of c) = Inr z" "a_halted z" "3 * n + 2 \<le> unat (max_cycles opts)"
    and "requests_fit opts" "can_save w opts" "dump_state_path opts \<noteq> []"
    and "convert files can_open options = Some (Inr out)"
    and "files (input_path options) = Some (output_text ls)" "complete_output ls"
    and "shown_values ls = halt_pc options # words"
    and "required_memory_size (memory_ranges options) (halt_pc options) = Inr k"
    and "memory_ranges options \<noteq> []" "state_memory_ranges opts = memory_ranges options"
  shows "\<exists>r t. main_body w exe args = Some (Inr r) \<and> state_file r = Some t \<and>
    (t = out \<longleftrightarrow> shows_state options ls words k z)"
proof -
  obtain r c' where main: "main_body w exe args = Some (Inr r)" "cpu_halted c'" "arch_of c' = z"
    "dumps_state opts c' (state_file r)" "sound_cpu c'" "memory_size c' = unat (opt_memory_size opts)"
    using main_runs_cpu[OF assms(1-10), of exe] by blast
  have size: "memory_size c' < 2 ^ 32" using main(6) u32_bound by simp
  have fit: "ranges_fit (memory_size c') (selection c' (memory_ranges options))"
    using selection_fits[OF main(5,6) assms(9)] assms(18) by simp
  obtain t where t: "state_file r = Some t"
    using main(4) assms(11) by (auto simp: dumps_state_def)
  obtain s where s: "print_architectural_state_json c' (memory_ranges options) new_stream = Some (Inr s)"
    "s_text s = out \<longleftrightarrow> agrees_with options ls words k c'"
    using output_compares[OF assms(12-17) size fit] by blast
  have "t = s_text s"
    using dumped_state[OF _ assms(11) size] main(4) t fit s(1) assms(18) by simp
  moreover have "regs_ok c'" using main(5) by (simp add: sound_cpu_def cpu_ok_regs_ok)
  ultimately show ?thesis
    using s(2) agrees_with_machine[OF main(2,3) _ assms(17)] main(1) t by auto
qed

end
