(* ===== verification/Spike_Options.thy ===== *)
theory Spike_Options
  imports Spike_Adapter
begin

text \<open>
  The command line of the adapter: which options it can return, and that each of them is read back
  from its own rendering as arguments.
\<close>

definition spike_range_ok :: "MemoryDumpRange \<Rightarrow> bool" where
  "spike_range_ok r \<longleftrightarrow> range_start r mod 4 = 0 \<and> range_count r \<noteq> 0 \<and> range_count r mod 4 = 0"

definition spike_options_ok :: "Options \<Rightarrow> bool" where
  "spike_options_ok opts \<longleftrightarrow> input_path opts \<noteq> [] \<and> output_path opts \<noteq> [] \<and> has_halt_pc opts \<and>
     list_all spike_range_ok (memory_ranges opts)"

definition memory_range_arg :: "MemoryDumpRange \<Rightarrow> string" where
  "memory_range_arg r = ''--memory-range='' @ pair_text (range_start r) (range_count r)"

definition render_spike_options :: "Options \<Rightarrow> string list" where
  "render_spike_options opts =
     [''--input='' @ input_path opts, ''--output='' @ output_path opts,
      ''--halt-pc='' @ hex_text (unat (halt_pc opts))] @ map memory_range_arg (memory_ranges opts)"

section \<open>Rendered options are read back\<close>

lemma parse_u32_word: "parse_u32 (hex_text (unat v)) name = Inr v"
proof -
  have "unat v < 2 ^ 64" using u32_bound[of v] by simp
  then have "stoull 0 (hex_text (unat v)) = Inr (ucast v, length (hex_text (unat v)))"
    by (simp add: stoull_hex)
  then show ?thesis by (simp add: parse_u32_def uint32_max_bound ucast_back)
qed

lemma parse_rendered_range:
  "spike_range_ok r \<Longrightarrow> parse_memory_range (pair_text (range_start r) (range_count r)) = Inr r"
  by (simp add: parse_memory_range_def split_pair_text parse_u32_word spike_range_ok_def)

lemma parse_memory_range_arg:
  "spike_range_ok r \<Longrightarrow> parse_option (memory_range_arg r) opts =
     Inr (opts\<lparr>memory_ranges := memory_ranges opts @ [r]\<rparr>)"
  by (simp add: parse_option_def memory_range_arg_def parse_rendered_range)

lemma parse_memory_range_args:
  "list_all spike_range_ok rs \<Longrightarrow> res_fold parse_option (map memory_range_arg rs) opts =
     Inr (opts\<lparr>memory_ranges := memory_ranges opts @ rs\<rparr>)"
  by (induction rs arbitrary: opts) (simp_all add: parse_memory_range_arg)

lemma parse_render_spike:
  assumes "spike_options_ok opts"
  shows "parse_options (render_spike_options opts) = Inr opts"
proof -
  have "parse_option (''--input='' @ p) o1 = Inr (o1\<lparr>input_path := p\<rparr>)"
    "parse_option (''--output='' @ p) o1 = Inr (o1\<lparr>output_path := p\<rparr>)"
    "parse_option (''--halt-pc='' @ hex_text (unat v)) o1 =
       Inr (o1\<lparr>halt_pc := v, has_halt_pc := True\<rparr>)" for p v o1
    by (simp_all add: parse_option_def parse_u32_word)
  then show ?thesis
    using assms
    by (simp add: parse_options_def render_spike_options_def spike_options_ok_def
        parse_memory_range_args empty_Options_def res_fold_append del: append.simps)
qed

section \<open>What the parser returns\<close>

lemma parse_memory_range_ok:
  assumes "parse_memory_range t = Inr r"
  shows "spike_range_ok r"
  using assms
  by (auto simp: parse_memory_range_def spike_range_ok_def res_bind_eq_Inr
      split: option.splits if_splits del: mod_0_imp_dvd)

lemma parse_option_ok:
  assumes "parse_option arg opts = Inr opts'" "list_all spike_range_ok (memory_ranges opts)"
  shows "list_all spike_range_ok (memory_ranges opts')"
  using assms unfolding parse_option_def
  by (auto simp only: res_bind_eq_Inr sum.inject sum.distinct split: if_splits
      dest!: parse_memory_range_ok) simp_all

lemma parse_option_args_ok:
  "res_fold parse_option args opts = Inr opts' \<Longrightarrow> list_all spike_range_ok (memory_ranges opts) \<Longrightarrow>
   list_all spike_range_ok (memory_ranges opts')"
  by (induction args arbitrary: opts) (auto simp: res_bind_eq_Inr dest: parse_option_ok)

lemma parse_options_ok:
  assumes "parse_options args = Inr opts"
  shows "spike_options_ok opts"
proof -
  have "res_fold parse_option args empty_Options = Inr opts"
    "\<not> (input_path opts = [] \<or> output_path opts = [] \<or> \<not> has_halt_pc opts)"
    using assms unfolding parse_options_def
    by (auto simp only: res_bind_eq_Inr sum.inject sum.distinct split: if_splits)
  then show ?thesis
    using parse_option_args_ok[of args empty_Options opts]
    by (simp add: spike_options_ok_def empty_Options_def)
qed

end
