(* ===== verification/Run_Examples.thy ===== *)
theory Run_Examples
  imports Committed Cycle_Count Golden_Test Spike_Options Examples
begin

text \<open>
  Command lines, files and a Spike output on which the properties of the whole program are shown
  to apply.
\<close>

section \<open>Runs of the program\<close>

definition disk :: World where
  "disk = \<lparr>w_files = [''countdown.bin'' \<mapsto> countdown, ''bad.bin'' \<mapsto> bad_load], w_can_open = (\<lambda>_. True),
           w_can_write = (\<lambda>_. True), w_number_text = (\<lambda>_. ''0''), w_percent_text = (\<lambda>_. ''0'')\<rparr>"

text \<open>\<open>PATH --memory-size=32 --dump-state=out.json --state-memory=0:16 --expect-memory=20:0\<close>\<close>

definition demo_options :: "string \<Rightarrow> CliOptions" where
  "demo_options path = default_options
     \<lparr>program_path := path, opt_memory_size := 32, dump_state_path := ''out.json'',
      state_memory_ranges := [\<lparr>range_start = 0, range_count = 16\<rparr>],
      memory_expectations := [\<lparr>me_address = 20, me_expected_value = 0\<rparr>]\<rparr>"

lemma demo_options_parsed:
  assumes "path \<noteq> []" "hd path \<noteq> CHR ''-''"
  shows "parse_cli (render_options (demo_options path)) = Inr (demo_options path)"
  using assms
  by (intro parse_render)
    (simp add: options_ok_def options_shape_def demo_options_def default_options_def default_Config_def)

lemma demo_options_simps [simp]:
  "\<not> show_help (demo_options path)" "\<not> has_retire_count (demo_options path)"
  "unat (max_cycles (demo_options path)) = 100" "program_path (demo_options path) = path"
  "load_address (demo_options path) = 0" "opt_memory_size (demo_options path) = 32"
  "opt_config (demo_options path) = default_Config"
  by (simp_all add: demo_options_def default_options_def)

lemma demo_requests: "requests_fit (demo_options path)" "can_save disk (demo_options path)"
  by (simp_all add: requests_fit_def can_save_def ranges_fit_def range_end_def demo_options_def
      default_options_def disk_def)

lemma disk_loads:
  assumes "w_files disk (program_path opts) = Some img" "program_path opts \<noteq> []" "img \<noteq> []"
    and "4 dvd length img" "length img \<le> 32"
    and "load_address opts = 0" "opt_memory_size opts = 32" "opt_config opts = default_Config"
  shows "\<exists>s. load_phase disk opts new_stream = Inr (loaded img TwoBitSaturating, s)"
proof -
  have "default_Config\<lparr>branch_predictor_type := TwoBitSaturating\<rparr> = default_Config"
    by (simp add: default_Config_def)
  moreover have "\<exists>c. load_program (new_CPU 32 default_Config) img 0 = Inr c"
    using load_program_in[OF assms(3), of 0 "new_CPU 32 default_Config"] assms(5)
    by (simp add: new_CPU_def)
  ultimately have "load_program (new_CPU 32 default_Config) img 0 = Inr (loaded img TwoBitSaturating)"
    by (auto simp: loaded_def)
  moreover have "load_binary_program (w_files disk) (program_path opts) =
      Inr \<lparr>lp_bytes = img, lp_instruction_count = of_nat (length img div 4)\<rparr>"
    using assms by (simp add: load_binary_program_iff)
  ultimately show ?thesis using assms by (simp add: load_phase_def)
qed

lemma countdown_loads:
  "\<exists>s. load_phase disk (demo_options ''countdown.bin'') new_stream =
     Inr (loaded countdown TwoBitSaturating, s)"
  by (rule disk_loads) (simp_all add: disk_def example_nonempty example_lengths)

lemma bad_load_loads:
  "\<exists>s. load_phase disk (demo_options ''bad.bin'') new_stream =
     Inr (loaded bad_load TwoBitSaturating, s)"
  by (rule disk_loads) (simp_all add: disk_def example_nonempty example_lengths)

lemma countdown_expected:
  "\<exists>s. isa_steps 6 (arch_of (loaded countdown TwoBitSaturating)) = Inr s \<and> a_halted s \<and>
     expectations_hold (demo_options path) (a_memory s)"
proof -
  have "case isa_steps 6 (arch_of (loaded countdown TwoBitSaturating)) of Inl e \<Rightarrow> False
     | Inr s \<Rightarrow> a_halted s \<and> word_at (a_memory s) 20 = 0"
    by code_simp
  then show ?thesis
    by (auto simp: expectations_hold_def demo_options_def default_options_def split: sum.splits)
qed

text \<open>\<open>countdown.bin --memory-size=32 --retire-count=2 --max-cycles=10\<close>\<close>

definition retire_options :: CliOptions where
  "retire_options = default_options
     \<lparr>program_path := ''countdown.bin'', opt_memory_size := 32, max_cycles := 10,
      retire_count := 2, has_retire_count := True\<rparr>"

lemma retire_options_simps [simp]:
  "has_retire_count retire_options" "retire_count retire_options = 2"
  "max_cycles retire_options = 10" "program_path retire_options = ''countdown.bin''"
  "load_address retire_options = 0" "opt_memory_size retire_options = 32"
  "opt_config retire_options = default_Config"
  by (simp_all add: retire_options_def default_options_def)

lemma retire_loads:
  "\<exists>s. load_phase disk retire_options new_stream = Inr (loaded countdown TwoBitSaturating, s)"
  by (rule disk_loads) (simp_all add: disk_def example_nonempty example_lengths)

lemma retire_run:
  "\<exists>c p s. simulate retire_options (loaded countdown TwoBitSaturating) empty_pipeline 0 new_stream =
     Some (Inr (c, p, s)) \<and> \<not> cpu_halted c \<and> clock_cycles (cpu_stats c) < 10 \<and>
     memwb_valid (mem_wb p)"
proof -
  let ?c = "loaded countdown TwoBitSaturating"
  have "case run_while (keep retire_options) cycle 10 (start ?c) of Inl e \<Rightarrow> False
     | Inr cp \<Rightarrow> \<not> cpu_halted (fst cp) \<and> clock_cycles (cpu_stats (fst cp)) < 10 \<and>
         memwb_valid (mem_wb (snd cp))"
    by code_simp
  moreover obtain s where "load_phase disk retire_options new_stream = Inr (?c, s)"
    using retire_loads by blast
  note loaded_sound[OF this]
  moreover have "cycles_left retire_options ?c = 10"
    using calculation(3) by (simp add: cycles_left_def)
  ultimately show ?thesis
    using simulate_runs[of ?c retire_options 10 empty_pipeline 0 new_stream]
    by (auto simp: start_def split: sum.splits)
qed

section \<open>Counted runs\<close>

lemma load_use_facts:
  "cpu_ok (loaded load_use TwoBitSaturating)"
  "cpu_stats (loaded load_use TwoBitSaturating) = zero_stats"
  "code_stable (arch_of (loaded load_use TwoBitSaturating))"
  "halts_after 3 (arch_of (loaded load_use TwoBitSaturating))"
  "tally load_use_pair 3 (arch_of (loaded load_use TwoBitSaturating)) = 1"
  "tally jump_away 3 (arch_of (loaded load_use TwoBitSaturating)) = 0"
proof -
  show "cpu_ok (loaded load_use TwoBitSaturating)"
    using loaded_ok[of load_use] by (simp add: example_nonempty example_lengths)
  show "cpu_stats (loaded load_use TwoBitSaturating) = zero_stats"
    by (simp add: loaded_eq example_nonempty example_lengths new_CPU_def zero_stats_def)
  have "stable_run 3 (arch_of (loaded load_use TwoBitSaturating))" by code_simp
  then show "code_stable (arch_of (loaded load_use TwoBitSaturating))" by (rule stable_run_stable)
  have "halts_at 3 (arch_of (loaded load_use TwoBitSaturating))" by code_simp
  then show "halts_after 3 (arch_of (loaded load_use TwoBitSaturating))" by (rule halts_at_after)
  show "tally load_use_pair 3 (arch_of (loaded load_use TwoBitSaturating)) = 1"
    "tally jump_away 3 (arch_of (loaded load_use TwoBitSaturating)) = 0"
    by code_simp+
qed

lemma countdown_counted:
  "cpu_stats (loaded countdown ty) = zero_stats"
  "halts_after 6 (arch_of (loaded countdown ty))"
  "branch_predictor_type (cpu_config (loaded countdown ty)) = ty"
  "tally load_use_pair 6 (arch_of (loaded countdown ty)) = 0"
  "tally jump_away 6 (arch_of (loaded countdown ty)) = 0"
  "tally (branch_away AlwaysNotTaken) 6 (arch_of (loaded countdown ty)) = 1"
  "tally (branch_away AlwaysTaken) 6 (arch_of (loaded countdown ty)) = 1"
proof -
  have arch: "arch_of (loaded countdown ty) = arch_of (loaded countdown TwoBitSaturating)"
    by (rule arch_of_loaded) (simp_all add: example_nonempty example_lengths)
  show "cpu_stats (loaded countdown ty) = zero_stats"
    "branch_predictor_type (cpu_config (loaded countdown ty)) = ty"
    by (simp_all add: loaded_eq example_nonempty example_lengths new_CPU_def zero_stats_def)
  have "halts_at 6 (arch_of (loaded countdown TwoBitSaturating))" by code_simp
  then show "halts_after 6 (arch_of (loaded countdown ty))" unfolding arch by (rule halts_at_after)
  show "tally load_use_pair 6 (arch_of (loaded countdown ty)) = 0"
    "tally jump_away 6 (arch_of (loaded countdown ty)) = 0"
    "tally (branch_away AlwaysNotTaken) 6 (arch_of (loaded countdown ty)) = 1"
    "tally (branch_away AlwaysTaken) 6 (arch_of (loaded countdown ty)) = 1"
    unfolding arch by code_simp+
qed

section \<open>An output of Spike\<close>

text \<open>Four padded registers to a line and one number to a line.\<close>

definition hex8 :: "u32 \<Rightarrow> string" where
  "hex8 v = field 16 8 (unat v)"

lemma hex8_number: "hex_number (hex8 v)" "hex_value (hex8 v) = v"
proof -
  have "is_digit 16 (CHR ''0'')" by (simp add: is_digit_def digit_value_def)
  then have "list_all (is_digit 16) (hex8 v)"
    using nat_text_digits[of 16 "unat v"] by (auto simp: hex8_def field_def list_all_iff)
  moreover have "hex8 v \<noteq> []"
    using nat_text_digits[of 16 "unat v"] by (simp add: hex8_def field_def)
  moreover have "text_value 16 (hex8 v) = unat v" by (simp add: hex8_def text_value_field)
  ultimately show "hex_number (hex8 v)" "hex_value (hex8 v) = v"
    using u32_bound[of v] by (simp_all add: hex_number_def hex_value_def)
qed

definition session_entry :: "u32 list \<Rightarrow> nat \<Rightarrow> register_entry" where
  "session_entry regs i = (let n = kAbiRegisterNames ! i in
     Entry (replicate (4 - length n) (CHR '' '')) n '' '' (hex8 (regs ! i)))"

definition session_line :: "u32 list \<Rightarrow> nat \<Rightarrow> output_line" where
  "session_line regs k = Register_line (map (session_entry regs) [4 * k..<4 * k + 4])"

definition spike_session :: "u32 list \<Rightarrow> u32 list \<Rightarrow> output_line list" where
  "spike_session regs vals =
     Other_line [] # map (session_line regs) [0..<8] @ map (\<lambda>v. Value_line [] (hex8 v) []) vals"

lemma session_entry_ok: "i < 32 \<Longrightarrow> entry_ok (session_entry regs i)"
  using abi_names(3)
  by (simp add: session_entry_def Let_def blanks_def is_space_def hex8_number list_all_iff)

lemma session_entry_apart:
  assumes "0 < i" "i < 32"
  shows "entry_lead (session_entry regs i) \<noteq> []"
proof -
  have "list_all (\<lambda>n. length n < 4) (tl kAbiRegisterNames)" by code_simp
  moreover have "kAbiRegisterNames ! i = tl kAbiRegisterNames ! (i - 1)"
    using assms abi_names(3) by (simp add: nth_tl)
  ultimately have "length (kAbiRegisterNames ! i) < 4"
    using assms abi_names(3) by (simp add: list_all_length)
  then show ?thesis by (simp add: session_entry_def Let_def)
qed

lemma session_line_ok: "k < 8 \<Longrightarrow> line_ok (session_line regs k)"
  using session_entry_ok session_entry_apart
  by (auto simp: session_line_def list_all_iff upt_rec[of "4 * k"])

lemma session_registers:
  "shown_registers (spike_session regs vals) = map (\<lambda>i. (kAbiRegisterNames ! i, regs ! i)) [0..<32]"
proof -
  have "concat (map (\<lambda>k. [4 * k..<4 * k + 4]) [0..<8]) = [0..<(32 :: nat)]" by code_simp
  then have all: "concat (map (\<lambda>k. map f [4 * k..<4 * k + 4]) [0..<8]) = map f [0..<32]"
    for f :: "nat \<Rightarrow> string \<times> u32"
    using map_concat[of f "map (\<lambda>k. [4 * k..<4 * k + 4]) [0..<8]"] by (simp add: o_def)
  have line: "line_registers (session_line regs k) =
      map (\<lambda>i. (kAbiRegisterNames ! i, regs ! i)) [4 * k..<4 * k + 4]" for k
    by (simp add: session_line_def session_entry_def Let_def hex8_number)
  have none: "concat (map line_registers (map (\<lambda>v. Value_line [] (hex8 v) []) vals)) = []"
    by (induction vals) simp_all
  have "shown_registers (spike_session regs vals) =
      concat (map (\<lambda>k. line_registers (session_line regs k)) [0..<8]) @
      concat (map line_registers (map (\<lambda>v. Value_line [] (hex8 v) []) vals))"
    by (simp add: shown_registers_def spike_session_def o_def del: upt_Suc upt_rec_numeral)
  then show ?thesis by (simp only: line none all append_Nil2)
qed

lemma session_values: "shown_values (spike_session regs vals) = vals"
proof -
  have "concat (map line_values (map (\<lambda>v. Value_line [] (hex8 v) []) vals)) = vals"
    by (induction vals) (simp_all add: hex8_number)
  moreover have "line_values (session_line regs k) = []" for k
    by (simp add: session_line_def)
  ultimately show ?thesis
    by (simp add: shown_values_def spike_session_def del: upt_Suc upt_rec_numeral)
qed

lemma session_complete: "complete_output (spike_session regs vals)"
proof -
  have names: "map fst (shown_registers (spike_session regs vals)) = kAbiRegisterNames"
    unfolding session_registers using abi_names(3) map_nth[of kAbiRegisterNames]
    by (simp add: o_def del: upt_rec_numeral)
  have "list_all line_ok (spike_session regs vals)"
    using session_line_ok
    by (auto simp: spike_session_def list_all_iff hex8_number blanks_def simp del: upt_rec_numeral)
  then show ?thesis
    unfolding complete_output_def names using abi_names(2) by simp
qed

lemma session_lookup:
  assumes "i < 32"
  shows "map_of (shown_registers (spike_session regs vals)) (kAbiRegisterNames ! i) = Some (regs ! i)"
proof -
  have "distinct (map fst (shown_registers (spike_session regs vals)))"
    using session_complete by (simp add: complete_output_def)
  moreover have "(kAbiRegisterNames ! i, regs ! i) \<in> set (shown_registers (spike_session regs vals))"
    using assms by (auto simp: session_registers simp del: upt_rec_numeral)
  ultimately show ?thesis by simp
qed

section \<open>A golden test\<close>

text \<open>
  The countdown, run and dumped, against an output of Spike that shows its registers and its 16
  bytes of code.
\<close>

definition golden_options :: Options where
  "golden_options = \<lparr>input_path = ''in'', output_path = ''out'', halt_pc = 12, has_halt_pc = True,
                     memory_ranges = [\<lparr>range_start = 0, range_count = 16\<rparr>]\<rparr>"

definition golden_words :: "u32 list" where
  "golden_words = [0x00200093, 0xFFF08093, 0xFE009EE3, 0x00000073]"

lemma golden_options_simps:
  "memory_ranges golden_options = [\<lparr>range_start = 0, range_count = 16\<rparr>]"
  "halt_pc golden_options = 12" "input_path golden_options = ''in''"
  "required_memory_size (memory_ranges golden_options) (halt_pc golden_options) = Inr 16"
  by (simp_all add: golden_options_def required_memory_size_def range_end_def)

lemma golden_options_parsed:
  "parse_options (render_spike_options golden_options) = Inr golden_options"
  by (rule parse_render_spike)
    (simp add: spike_options_ok_def golden_options_def spike_range_ok_def)

lemma golden_machine:
  "case isa_steps 6 (arch_of (loaded countdown TwoBitSaturating)) of Inl e \<Rightarrow> False
   | Inr z \<Rightarrow> a_pc z = 16 \<and> list_all (\<lambda>i. isa_get z (of_nat i) = 0) [1..<32] \<and>
       take 16 (a_memory z) = spike_memory 16 (zip (word_addresses (memory_ranges golden_options)) golden_words)"
  by code_simp

lemma golden_shown:
  "\<exists>z. isa_steps 6 (arch_of (loaded countdown TwoBitSaturating)) = Inr z \<and> a_halted z \<and>
     shows_state golden_options (spike_session (replicate 32 0) (12 # golden_words)) golden_words 16 z"
proof -
  let ?ls = "spike_session (replicate 32 0) (12 # golden_words)"
    and ?mem = "spike_memory 16 (zip (word_addresses (memory_ranges golden_options)) golden_words)"
  obtain z where z: "isa_steps 6 (arch_of (loaded countdown TwoBitSaturating)) = Inr z" "a_halted z"
    using countdown_facts(4)[of TwoBitSaturating] by blast
  then have s: "a_pc z = 16" "list_all (\<lambda>i. isa_get z (of_nat i) = 0) [1..<32]" "take 16 (a_memory z) = ?mem"
    using golden_machine by simp_all
  have "map_of (shown_registers ?ls) (kAbiRegisterNames ! i) = Some (isa_get z (of_nat i))"
    if "0 < i" "i < 32" for i
    using session_lookup[OF that(2), of "replicate 32 0" "12 # golden_words"] s(2) that
    by (auto simp: list_all_iff simp del: upt_rec_numeral)
  moreover have "a_memory z ! a = ?mem ! a" if "a < 16" for a
    using that by (simp add: s(3)[symmetric])
  ultimately have "shows_state golden_options ?ls golden_words 16 z"
    using s(1) by (simp add: shows_state_def golden_options_simps range_end_def)
  then show ?thesis using z by blast
qed

end
