(* ===== verification/Unit_Tests.thy ===== *)
theory Unit_Tests
  imports Encoder Main_Loop Code_Stable
begin

text \<open>
  The unit tests of the simulator (\<open>tests/simulator_tests.cpp\<close>) on the model. A failed assertion
  and an exception both end the test program: \<open>None\<close>. The short programs are run on the pipeline;
  for one that ends in a halt it is enough to evaluate the machine (\<open>machine_passes_passes\<close>), as the
  pipeline computes the same.
\<close>

section \<open>Running programs\<close>

definition uncaught :: "'a result \<Rightarrow> 'a option" where
  "uncaught r = (case r of Inl e \<Rightarrow> None | Inr x \<Rightarrow> Some x)"

definition load_words :: "CPU \<Rightarrow> u32 list \<Rightarrow> CPU result" where
  "load_words cpu ws =
     res_bind (res_fold (\<lambda>word (address, cpu).
         res_bind (write_u32 cpu address word) (\<lambda>cpu. Inr (address + 4, cpu))) ws (0, cpu))
       (\<lambda>(address, cpu). Inr (set_pc cpu 0))"

text \<open>
  The two loops; a cycle raises the clock by one, so they are left after at most \<open>max_cycles\<close>
  cycles (\<open>run_below_stops\<close>).
\<close>

definition run_below :: "(CPU \<Rightarrow> bool) \<Rightarrow> u64 \<Rightarrow> CPU \<times> PipelineRegisters \<Rightarrow>
    (CPU \<times> PipelineRegisters) result" where
  "run_below go limit cp =
     run_while (\<lambda>(cpu, pipeline). go cpu \<and> clock_cycles (cpu_stats cpu) < limit) cycle
       (unat limit) cp"

definition run_until_retired :: "CPU \<Rightarrow> PipelineRegisters \<Rightarrow> u64 \<Rightarrow> u64 \<Rightarrow> CPU option" where
  "run_until_retired cpu pipeline retired limit =
     map_option fst (uncaught
       (run_below (\<lambda>cpu. instruction_count (cpu_stats cpu) < retired) limit (cpu, pipeline)))"

definition run_until_halted :: "CPU \<Rightarrow> PipelineRegisters \<Rightarrow> u64 \<Rightarrow> CPU option" where
  "run_until_halted cpu pipeline limit =
     (case uncaught (run_below (\<lambda>cpu. \<not> cpu_halted cpu) limit (cpu, pipeline)) of
        None \<Rightarrow> None
      | Some (cpu, pipeline) \<Rightarrow> if cpu_halted cpu then Some cpu else None)"

definition run_program :: "u32 list \<Rightarrow> u64 \<Rightarrow> Config \<Rightarrow> nat \<Rightarrow> CPU option" where
  "run_program ws retired config size_bytes =
     (case uncaught (load_words (new_CPU size_bytes config) ws) of
        None \<Rightarrow> None
      | Some cpu \<Rightarrow> (case run_until_retired cpu empty_pipeline retired 100 of
          None \<Rightarrow> None
        | Some cpu \<Rightarrow> if instruction_count (cpu_stats cpu) = retired then Some cpu else None))"

definition run_program_until_halt :: "u32 list \<Rightarrow> Config \<Rightarrow> nat \<Rightarrow> CPU option" where
  "run_program_until_halt ws config size_bytes =
     (case uncaught (load_words (new_CPU size_bytes config) ws) of
        None \<Rightarrow> None
      | Some cpu \<Rightarrow> run_until_halted cpu empty_pipeline 200)"

text \<open>A test passes when the program comes to an end and its assertions hold.\<close>

definition passes :: "CPU option \<Rightarrow> (CPU \<Rightarrow> bool) \<Rightarrow> bool" where
  "passes r asserts = (case r of None \<Rightarrow> False | Some cpu \<Rightarrow> asserts cpu)"

definition has_regs :: "(u8 \<times> u32) list \<Rightarrow> CPU \<Rightarrow> bool" where
  "has_regs rvs cpu = list_all (\<lambda>(r, v). read_reg cpu r = Inr v) rvs"

lemma run_below_stops:
  assumes "sound_cpu (fst cp)"
    and "unat limit - unat (clock_cycles (cpu_stats (fst cp))) \<le> n"
    and "run_while (\<lambda>(cpu, pipeline). go cpu \<and> clock_cycles (cpu_stats cpu) < limit) cycle n cp
      = Inr cp'"
  shows "\<not> (go (fst cp') \<and> clock_cycles (cpu_stats (fst cp')) < limit)"
  using assms
proof (induction n arbitrary: cp)
  case 0
  then show ?case by (auto simp: word_less_nat_alt)
next
  case (Suc n)
  let ?g = "\<lambda>(cpu, pipeline). go cpu \<and> clock_cycles (cpu_stats cpu) < limit"
  show ?case
  proof (cases "?g cp")
    case False
    then show ?thesis using Suc.prems(3) by (cases cp) auto
  next
    case True
    then obtain cp1 where c1: "cycle cp = Inr cp1" "run_while ?g cycle n cp1 = Inr cp'"
      using Suc.prems(3) by (auto simp: res_bind_eq_Inr)
    have step: "run_pipeline_cycle (fst cp) (snd cp) = Inr (fst cp1, snd cp1)"
      using c1(1) by (simp add: cycle_def)
    have "clock_cycles (cpu_stats (fst cp)) < limit" using True by auto
    from clock_ticks[OF Suc.prems(1) this step]
    have "unat (clock_cycles (cpu_stats (fst cp1))) = unat (clock_cycles (cpu_stats (fst cp))) + 1" .
    then show ?thesis
      using Suc.IH[OF sound_cpu_cycle[OF Suc.prems(1) step] _ c1(2)] Suc.prems(2) by simp
  qed
qed

section \<open>Components\<close>

definition test_x0_is_hardwired_to_zero :: bool where
  "test_x0_is_hardwired_to_zero \<longleftrightarrow>
     passes (uncaught (write_reg (new_CPU 64 default_Config) 0 123)) (has_regs [(0, 0)])"

definition test_little_endian_memory :: bool where
  "test_little_endian_memory \<longleftrightarrow>
     passes (uncaught (write_u32 (new_CPU 64 default_Config) 0 0x12345678)) (\<lambda>cpu.
       read_u8 cpu 0 = Inr 0x78 \<and> read_u8 cpu 1 = Inr 0x56 \<and> read_u8 cpu 2 = Inr 0x34 \<and>
       read_u8 cpu 3 = Inr 0x12 \<and> read_u32 cpu 0 = Inr 0x12345678)"

definition test_decoder_extracts_r_type_fields :: bool where
  "test_decoder_extracts_r_type_fields \<longleftrightarrow> (let fields = decode_r_type 0x002081B3 in
     r_opcode fields = 0x33 \<and> r_rd fields = 3 \<and> r_rs1 fields = 1 \<and> r_rs2 fields = 2 \<and>
     r_funct3 fields = 0 \<and> r_funct7 fields = 0)"

definition test_instruction_classification :: bool where
  "test_instruction_classification \<longleftrightarrow> (let add = decode_instruction 0x002081B3 in
     d_kind add = K_Add \<and> reg_write (d_control add) \<and> alu_op (d_control add) = ALU_Add \<and>
     writeback_source (d_control add) = WB_ALU)"

definition test_two_bit_saturating_counter_transitions :: bool where
  "test_two_bit_saturating_counter_transitions \<longleftrightarrow>
     (let predictor = new_predictor; branch_pc = 0x40; type = TwoBitSaturating;
          once = update_predictor predictor branch_pc True type;
          thrice = update_predictor (update_predictor once branch_pc True type) branch_pc True type;
          down = update_predictor (update_predictor (update_predictor thrice branch_pc False type)
            branch_pc False type) branch_pc False type
      in counter_state predictor branch_pc = WeaklyNotTaken \<and>
         \<not> predict predictor branch_pc type \<and>
         \<not> predict predictor branch_pc AlwaysNotTaken \<and> predict predictor branch_pc AlwaysTaken \<and>
         counter_state once branch_pc = WeaklyTaken \<and> predict once branch_pc type \<and>
         counter_state thrice branch_pc = StronglyTaken \<and>
         counter_state down branch_pc = StronglyNotTaken \<and> \<not> predict down branch_pc type)"

definition test_binary_loader :: bool where
  "test_binary_loader \<longleftrightarrow>
     (case load_binary_program
         [''/tmp/rv32i_loader_test.bin'' \<mapsto> [0x93, 0x00, 0x50, 0x00, 0x13, 0x01, 0x70, 0x00]]
         ''/tmp/rv32i_loader_test.bin'' of
        Inl e \<Rightarrow> False
      | Inr program \<Rightarrow> lp_instruction_count program = 2 \<and> length (lp_bytes program) = 8 \<and>
          lp_bytes program ! 0 = 0x93 \<and> lp_bytes program ! 4 = 0x13)"

lemma component_tests_pass:
  "test_x0_is_hardwired_to_zero" "test_little_endian_memory" "test_decoder_extracts_r_type_fields"
  "test_instruction_classification" "test_two_bit_saturating_counter_transitions"
  "test_binary_loader"
  by code_simp+

section \<open>Programs on the pipeline\<close>

definition test_taken_branch_flush_execution :: bool where
  "test_taken_branch_flush_execution \<longleftrightarrow> passes (run_program
     [encode_b 8 0 0 0x0, encode_i 1 0 0x0 1 0x13, encode_i 2 0 0x0 1 0x13] 2 default_Config 256)
     (has_regs [(1, 2)])"

definition test_jal_execution :: bool where
  "test_jal_execution \<longleftrightarrow> passes (run_program
     [encode_j 8 1, encode_i 1 0 0x0 2 0x13, encode_i 3 0 0x0 2 0x13] 2 default_Config 256)
     (has_regs [(1, 4), (2, 3)])"

definition test_jalr_execution :: bool where
  "test_jalr_execution \<longleftrightarrow> passes (run_program
     [encode_i 12 0 0x0 5 0x13, encode_i 0 5 0x0 1 0x67, encode_i 1 0 0x0 2 0x13,
      encode_i 2 0 0x0 2 0x13] 3 default_Config 256) (has_regs [(1, 8), (2, 2)])"

definition test_load_use_stalls_once :: bool where
  "test_load_use_stalls_once \<longleftrightarrow>
     (case uncaught (res_bind (write_u32 (new_CPU 64 default_Config) 0 0x01002083) (\<lambda>cpu.
         res_bind (write_u32 cpu 4 0x00108133) (\<lambda>cpu. write_u32 cpu 16 21))) of
        None \<Rightarrow> False
      | Some cpu \<Rightarrow> passes (run_until_retired cpu empty_pipeline 2 100) (\<lambda>cpu.
          has_regs [(2, 42)] cpu \<and> stall_cycles (cpu_stats cpu) = 1))"

definition test_lui_and_auipc_execution :: bool where
  "test_lui_and_auipc_execution \<longleftrightarrow> passes (run_program
     [encode_u 0x12345 1 0x37, encode_u 0x1 2 0x17] 2 default_Config 256)
     (has_regs [(1, 0x12345000), (2, 0x00001004)])"

definition test_bne_execution_with_forwarded_operand :: bool where
  "test_bne_execution_with_forwarded_operand \<longleftrightarrow> passes (run_program
     [encode_i 1 0 0x0 1 0x13, encode_b 8 0 1 0x1, encode_i 11 0 0x0 2 0x13,
      encode_i 22 0 0x0 2 0x13] 3 default_Config 256) (has_regs [(2, 22)])"

definition test_forwarding_removes_alu_stalls :: bool where
  "test_forwarding_removes_alu_stalls \<longleftrightarrow>
     (case uncaught (res_bind (write_u32 (new_CPU 64 default_Config) 0 0x00500093) (\<lambda>cpu.
         res_bind (write_u32 cpu 4 0x00700113) (\<lambda>cpu. write_u32 cpu 8 0x002081B3))) of
        None \<Rightarrow> False
      | Some cpu \<Rightarrow> passes (run_until_retired cpu empty_pipeline 3 100) (\<lambda>cpu.
          has_regs [(3, 12)] cpu \<and> stall_cycles (cpu_stats cpu) = 0))"

lemma taken_branch_passes: "test_taken_branch_flush_execution" by code_simp
lemma jal_passes: "test_jal_execution" by code_simp
lemma jalr_passes: "test_jalr_execution" by code_simp
lemma load_use_stalls_once_passes: "test_load_use_stalls_once" by code_simp
lemma lui_and_auipc_passes: "test_lui_and_auipc_execution" by code_simp
lemma bne_with_forwarded_operand_passes: "test_bne_execution_with_forwarded_operand" by code_simp
lemma forwarding_removes_alu_stalls_passes: "test_forwarding_removes_alu_stalls" by code_simp

section \<open>A program on the machine\<close>

lemma write_u32_sound:
  assumes "sound_cpu c" "write_u32 c a v = Inr c'"
  shows "sound_cpu c' \<and> cpu_stats c' = cpu_stats c"
proof (cases "unat a + 4 \<le> length (cpu_memory c)")
  case True
  have "c' = set_memory c a (le_bytes 4 v)"
    using assms write_in(3)[OF _ True, of v] by (simp add: sound_cpu_def cpu_ok_def)
  then show ?thesis
    using assms(1) True by (auto simp: sound_cpu_def cpu_ok_def writes_ok_def)
next
  case False
  then show ?thesis using assms(2) access_out(6)[of c a v] by simp
qed

lemma load_words_sound:
  assumes "sound_cpu c" "load_words c ws = Inr c'"
  shows "sound_cpu c'" "cpu_stats c' = cpu_stats c"
proof -
  let ?f = "\<lambda>word (address, cpu). res_bind (write_u32 cpu address word) (\<lambda>cpu. Inr (address + 4, cpu))"
  have "res_fold ?f ws (a, d) = Inr (b, e) \<Longrightarrow> sound_cpu d \<Longrightarrow>
      sound_cpu e \<and> cpu_stats e = cpu_stats d" for a b d e
    by (induction ws arbitrary: a d) (auto simp: res_bind_eq_Inr dest: write_u32_sound)
  then show "sound_cpu c'" "cpu_stats c' = cpu_stats c"
    using assms
    by (auto simp: load_words_def res_bind_eq_Inr set_pc_def sound_cpu_def cpu_ok_def writes_ok_def)
qed

text \<open>A test that runs until the halt has the result of the machine.\<close>

lemma run_program_until_halt_machine:
  assumes load: "load_words (new_CPU size_bytes config) ws = Inr c" and "size_bytes \<le> 2 ^ 32"
    and stable: "stable_run n (arch_of c)" and z: "isa_steps n (arch_of c) = Inr z" "a_halted z"
    and "3 * n + 2 \<le> 200"
  shows "\<exists>cpu. run_program_until_halt ws config size_bytes = Some cpu \<and> cpu_halted cpu \<and>
    arch_of cpu = z"
proof -
  have new: "sound_cpu (new_CPU size_bytes config)"
    using assms(2)
    by (simp add: sound_cpu_def cpu_ok_def new_CPU_def writes_ok_def kNumRegisters_def new_predictor_ok)
  note c = load_words_sound[OF new load]
  let ?o = "default_options\<lparr>has_retire_count := False, max_cycles := 200\<rparr>"
  have "run_below (\<lambda>cpu. \<not> cpu_halted cpu) 200 (start c) = run_while (keep ?o) cycle 200 (start c)"
    by (simp add: run_below_def keep_running_def case_prod_unfold)
  also have "\<dots> = run_cycles 200 (start c)"
    using c by (intro bounded_run_is_run_cycles)
      (simp_all add: start_def cycles_left_def new_CPU_def zero_stats_def)
  finally have run: "run_below (\<lambda>cpu. \<not> cpu_halted cpu) 200 (start c) = run_cycles 200 (start c)" .
  have "regs_ok c" using c(1) by (simp add: sound_cpu_def cpu_ok_regs_ok)
  from run_halts_start[OF this stable_run_stable[OF stable] z assms(6)] run
  obtain c' p' where "run_below (\<lambda>cpu. \<not> cpu_halted cpu) 200 (c, empty_pipeline) = Inr (c', p')"
    "cpu_halted c'" "arch_of c' = z" by (auto simp: start_def)
  then show ?thesis
    using load by (simp add: run_program_until_halt_def run_until_halted_def uncaught_def)
qed

definition test_halt_stops_fetching_younger_instructions :: bool where
  "test_halt_stops_fetching_younger_instructions \<longleftrightarrow>
     passes (run_program_until_halt [0x00000073, encode_i 99 0 0x0 1 0x13] default_Config 256)
       (\<lambda>cpu. cpu_halted cpu \<and> instruction_count (cpu_stats cpu) = 1 \<and> has_regs [(1, 0)] cpu \<and>
          cpu_pc cpu = 4)"

text \<open>The same assertions on the state of the machine, evaluated.\<close>

definition machine_passes :: "nat \<Rightarrow> u32 list \<Rightarrow> nat \<Rightarrow> (Arch \<Rightarrow> bool) \<Rightarrow> bool" where
  "machine_passes n ws size_bytes asserts \<longleftrightarrow>
     (case load_words (new_CPU size_bytes default_Config) ws of Inl e \<Rightarrow> False
      | Inr c \<Rightarrow> stable_run n (arch_of c) \<and> (case isa_steps n (arch_of c) of Inl e \<Rightarrow> False
          | Inr z \<Rightarrow> a_halted z \<and> asserts z))"

definition machine_has_regs :: "(u8 \<times> u32) list \<Rightarrow> Arch \<Rightarrow> bool" where
  "machine_has_regs rvs z \<longleftrightarrow> length (a_regs z) = 32 \<and>
     list_all (\<lambda>(r, v). unat r < 32 \<and> isa_get z r = v) rvs"

lemma read_reg_machine:
  "length (a_regs (arch_of cpu)) = 32 \<Longrightarrow> unat r < 32 \<Longrightarrow>
   read_reg cpu r = Inr (isa_get (arch_of cpu) r)"
  by (cases "r = 0")
    (simp_all add: arch_of_def arch_at_def isa_get_def read_reg_in reg_val_def nth_list_update
      unat_eq_zero)

lemma machine_has_regs_has_regs: "machine_has_regs rvs (arch_of cpu) \<Longrightarrow> has_regs rvs cpu"
  by (auto simp: machine_has_regs_def has_regs_def list_all_iff read_reg_machine)

lemma machine_passes_passes:
  assumes "machine_passes n ws size_bytes P" "size_bytes \<le> 2 ^ 32" "3 * n + 2 \<le> 200"
    and "\<And>cpu. cpu_halted cpu \<Longrightarrow> P (arch_of cpu) \<Longrightarrow> asserts cpu"
  shows "passes (run_program_until_halt ws default_Config size_bytes) asserts"
proof -
  obtain c z where "load_words (new_CPU size_bytes default_Config) ws = Inr c"
    "stable_run n (arch_of c)" "isa_steps n (arch_of c) = Inr z" "a_halted z" "P z"
    using assms(1) by (auto simp: machine_passes_def split: sum.splits)
  from run_program_until_halt_machine[OF this(1) assms(2) this(2-4) assms(3)] this(5)
  show ?thesis using assms(4) by (auto simp: passes_def)
qed

lemma halt_on_machine:
  "machine_passes 1 [0x00000073, encode_i 99 0 0x0 1 0x13] 256
     (\<lambda>z. a_retired z = 1 \<and> machine_has_regs [(1, 0)] z \<and> a_pc z = 4)"
  by code_simp

lemma halt_stops_fetching_passes: "test_halt_stops_fetching_younger_instructions"
  unfolding test_halt_stops_fetching_younger_instructions_def
  by (rule machine_passes_passes[OF halt_on_machine])
    (auto intro: machine_has_regs_has_regs simp: arch_of_def arch_at_def)

end
