(* ===== verification/Spec2Isabelle.thy ===== *)
theory Spec2Isabelle
  imports Branch_Predictor Instruction_Table Examples Run_Examples Unit_Tests
begin

text \<open>
  A model of the RV32I five-stage pipelined simulator, of the program around it and of the Spike
  state adapter, with the proof that the pipeline executes the instruction set.

  Parts of the program. \<open>main.cpp\<close> parses the command line, loads an image
  (\<open>program_loader.cpp\<close>), calls \<open>run_pipeline_cycle\<close> (\<open>stages.cpp\<close>) until the CPU halts or a limit is
  reached, and prints registers, statistics, dumps and a JSON of the architectural state
  (\<open>state_dump.cpp\<close>, \<open>pipeline_trace.cpp\<close>). A cycle runs WB, MEM, EX, ID and IF in this order on
  the CPU (\<open>cpu.cpp\<close>) and on four latches, each with a current and a next copy
  (\<open>pipeline_registers.hpp\<close>), using the decoder (\<open>decoder.cpp\<close>, \<open>instruction.cpp\<close>), the forwarding
  and hazard units and the branch predictor. \<open>tools/spike_state_adapter.cpp\<close> turns Spike's output
  into the same JSON, for comparison with the simulator's.

  Conventions. Integers are words of the width of the source, structures are records, enumerations
  datatypes. An object changed in place is an argument returned updated. \<open>'a result\<close> is an
  exception or a value; \<open>'a outcome\<close> is in addition \<open>None\<close> for a computation that never returns,
  and the loops that may not end are defined with \<open>partial_function\<close>, so that returning is
  something to prove. A stream is its text with its format flags (\<open>Cpp_Stream\<close>).

  Theories that model code, in the order of their dependence:
    \<^item> \<open>Prelude\<close>: results, outcomes, folds with errors, lemmas on words.
    \<^item> \<open>Branch_Predictor\<close>: \<open>Config\<close>, \<open>predict\<close>, \<open>update_predictor\<close> on 64 counters.
    \<^item> \<open>Decoder\<close>, \<open>Instruction\<close>: the fields of the six formats; \<open>decode_instruction\<close>.
    \<^item> \<open>Encoder\<close>: the encoders of \<open>tests/simulator_tests.cpp\<close>.
    \<^item> \<open>Pipeline_Registers\<close>, \<open>Forwarding_Unit\<close>, \<open>Hazard_Unit\<close>: latches, \<open>resolve_forwarding\<close>,
      \<open>detect_raw_hazard\<close>.
    \<^item> \<open>Cpu\<close>: registers, memory, write log, statistics; every operation of the class.
    \<^item> \<open>Stages\<close>: \<open>stage_WB\<close> to \<open>stage_IF\<close> and \<open>run_pipeline_cycle\<close>.
    \<^item> \<open>Cpp_Stream\<close>, \<open>State_Dump\<close>, \<open>Pipeline_Trace\<close>: everything that is printed of a state.
    \<^item> \<open>Program_Loader\<close>, \<open>Cli\<close>, \<open>Simulator\<close>: loading, \<open>parse_cli\<close>, the loop, the report, \<open>main\<close>.
    \<^item> \<open>Spike_Adapter\<close>: options, the two regular expressions, \<open>convert\<close>, \<open>main\<close>.

  Specifications. \<open>Isa\<close> is RV32I as a machine that executes one instruction per step
  (\<open>isa_step\<close>): it takes fields and kinds from the decoder, whose classification
  \<open>Instruction_Table\<close> compares with mask and match constants, those of the manual but for ECALL and EBREAK, whose rd
  and rs1 the code does not check, and none of the control signals the pipeline works with. Words that decode to nothing are skipped, as the
  pipeline skips them. The tables the decoder and the hazard unit are compared with are written
  without their functions: \<open>control_of\<close> lists complete records of signals, \<open>immediate_bit\<close> names for
  each bit of an immediate the bit of the word it comes from, \<open>reads_register\<close> reads operands off the
  opcode bits. \<open>state_text\<close> in \<open>State_Json\<close> is the JSON in closed form. Spike is not part of the
  repository, so \<open>output_text\<close> in \<open>Spike_Text\<close> fixes no layout of its output: it is any sequence of
  lines of register entries, lines with a number and other lines, with any padding.

  The correctness of the pipeline. \<open>Datapath\<close> and \<open>Execution\<close>: EX, MEM and WB on one instruction
  do what a machine step does. \<open>Drain\<close>: completing the instructions in EX/MEM and MEM/WB gives the
  registers the forwarding unit anticipates. \<open>Cycle\<close> brings \<open>run_pipeline_cycle\<close> into a normal
  form; \<open>Refinement\<close> states the relation between pipeline and machine and \<open>Pipeline_Step\<close> proves
  that a cycle keeps it, performing at most two machine steps. The locales of \<open>Lockstep\<close> derive
  from such a simulation what holds of whole runs; \<open>Pipeline_Correct\<close> interprets them. A program
  of \<open>n\<close> instructions up to its halt needs at most \<open>3 n + 2\<close> cycles: each instruction accounts
  for at most itself, one stall or two flushed fetches, and the halting instruction for its way to
  WB. Exceptions are precise: the model keeps no state of a cycle that throws, and
  C4 states of the states before it that WB completes every older instruction
  and that the access of the failing one is what throws, before any stage of a younger one has
  run. A cycle performs a second machine step only for an undecodable word discarded in ID, hence
  the bound of \<open>2 k\<close> instructions in \<open>k\<close> cycles.

  The number of cycles. \<open>Machine_Events\<close> reads off a run of the machine what costs the pipeline a
  cycle: a load whose result the next instruction reads, a jump away from the next instruction, a
  branch that does not go where it was predicted to. \<open>Cycle_Count\<close> proves by an invariant of the
  cycles (\<open>accounted\<close>) that these events and the filling of the pipeline are all it costs: the run
  halts after exactly \<open>n + 4\<close> cycles and one more for each stall and each redirection
  (C17), and for the static predictors the count is a function of the machine run
  alone (C18).

  The condition \<open>code_stable\<close>. Fetch runs up to two instructions ahead of a store, so a program
  that overwrites the instructions it is about to execute behaves differently from the machine;
  lemma \<open>self_modifying_runs\<close> of \<open>Examples\<close> runs such a program. \<open>code_stable\<close> says that at no state of the run a store changes, within
  the next two fetches, what is fetched. \<open>Code_Stable\<close> gives a sufficient condition, a region of
  code that no store reaches, under which the pipeline executes the words originally loaded
  (C24), and an executable check.

  The rest. \<open>Cycle_Effects\<close>: statistics, stalls, recovery, invariants. \<open>State_Json\<close> and
  \<open>Memory_Dump\<close>: the JSON determines exactly the state it shows; when dumps return.
  \<open>Cli_Roundtrip\<close> and \<open>Spike_Options\<close>: command lines. \<open>Main_Loop\<close>: the loop of \<open>main\<close> is the run
  that \<open>Pipeline_Correct\<close> speaks of, with the consequences for exit status, state file and
  messages; \<open>Committed\<close>: what a run stopped by a limit reports, relative to the machine.
  \<open>Spike_Compare\<close> and \<open>Spike_Text\<close>: the adapter; \<open>Golden_Test\<close>: the simulator and the adapter
  together (C29). The locales \<open>register_file\<close> and
  \<open>byte_access\<close> of \<open>Cpu\<close> and \<open>counter_table\<close> of \<open>Branch_Predictor\<close> hold what is proved of those
  components from their contracts alone. \<open>Examples\<close> and \<open>Run_Examples\<close> hold the programs, files
  and command lines at which the properties are instantiated; \<open>Unit_Tests\<close> holds unit tests of the
  repository, with the functions that run their programs, and proves that they pass.

  Parameters. What the operating system and the formatting of floating point decide are arguments:
  the record \<open>World\<close> holds the bytes of a path, whether a file can be opened and written, and the
  text of the three ratios of the statistics, which the model keeps as pairs of counters; the
  adapter's functions take the text of a path and whether a file can be opened.

  Not modelled. Console text printed before an exception is not kept, only the message and the
  exit status. The JSON of an interrupted write is not kept either. Failures of memory allocation
  are not represented. Of the unit tests, the longer programs and the tests that search printed
  text are not restated; the general properties of the functions they call cover them. The build
  files, the run script, the linker script and the assembly programs contain no code of the
  simulator.
\<close>

unbundle bit_operations_syntax

section \<open>The pipeline executes the instruction set\<close>

text \<open>
  C1. A program the machine halts on after \<open>n\<close> instructions halts the pipeline within
  \<open>3 n + 2\<close> cycles, with the registers, memory, program counter, instruction count and log of
  writes of the machine.
\<close>

theorem pipeline_reaches_isa_halt:
  assumes "cpu_ok c" "code_stable (arch_of c)"
    and "isa_steps n (arch_of c) = Inr s" "a_halted s" "3 * n + 2 \<le> N"
  shows "\<exists>c' p'. run_cycles N (start c) = Inr (c', p') \<and> cpu_halted c' \<and> arch_of c' = s"
  by (rule run_halts_start[OF cpu_ok_regs_ok[OF assms(1)] assms(2-5)])

theorem pipeline_reaches_isa_halt_witness:
  "\<exists>s c' p'. run_cycles 20 (start (loaded countdown AlwaysTaken)) = Inr (c', p') \<and>
     cpu_halted c' \<and> arch_of c' = s \<and> isa_get s 1 = 0 \<and> a_retired s = 6"
proof -
  obtain s where s: "isa_steps 6 (arch_of (loaded countdown AlwaysTaken)) = Inr s" "a_halted s"
    "isa_get s 1 = 0" "a_retired s = 6"
    using countdown_facts(4) by blast
  show ?thesis
    using pipeline_reaches_isa_halt[OF countdown_facts(1,3) s(1,2), of 20] s(3,4) by auto
qed

text \<open>
  C2. Whenever the pipeline has halted, its state is one the machine reaches and stays in: no
  instruction is lost, repeated or executed with a stale operand.
\<close>

theorem pipeline_halted_state:
  assumes "cpu_ok c" "code_stable (arch_of c)"
    and "run_cycles n (start c) = Inr (c', p')" "cpu_halted c'"
  shows "\<exists>m \<le> 2 * n. isa_steps m (arch_of c) = Inr (arch_of c') \<and> a_halted (arch_of c')"
  by (rule run_halted_start[OF cpu_ok_regs_ok[OF assms(1)] assms(2-4)])

theorem pipeline_halted_state_witness:
  "\<exists>c' p' m. run_cycles 20 (start (loaded countdown AlwaysTaken)) = Inr (c', p') \<and>
     cpu_halted c' \<and> m \<le> 2 * 20 \<and>
     isa_steps m (arch_of (loaded countdown AlwaysTaken)) = Inr (arch_of c')"
proof -
  obtain c' p' where h: "run_cycles 20 (start (loaded countdown AlwaysTaken)) = Inr (c', p')"
    "cpu_halted c'"
    using countdown_halts by blast
  show ?thesis
    using pipeline_halted_state[OF countdown_facts(1,3) h] h by blast
qed

text \<open>
  C3. At any time, completing the instructions in EX/MEM and MEM/WB gives a state of the machine
  whose program counter is the oldest instruction not yet executed, unless the next cycle throws.
\<close>

theorem pipeline_refines_isa:
  assumes "cpu_ok c" "code_stable (arch_of c)"
    and "run_cycles n (start c) = Inr (c', p')" "run_pipeline_cycle c' p' = Inr cp"
  shows "\<exists>m \<le> 2 * n. \<exists>s. isa_steps m (arch_of c) = Inr s \<and>
     res_map (arch_at (commit_pc c' p')) (drain c' p') = Inr s"
  using run_sound_start[OF cpu_ok_regs_ok[OF assms(1)] assms(2,3)] assms(4)
  by (auto simp: refines_def cycle_def)

theorem pipeline_refines_isa_witness:
  "\<exists>m \<le> 2 * 3. \<exists>s. isa_steps m (arch_of (loaded countdown TwoBitSaturating)) = Inr s \<and>
     res_map (arch_at (commit_pc (fst (countdown_at 3)) (snd (countdown_at 3))))
       (drain (fst (countdown_at 3)) (snd (countdown_at 3))) = Inr s"
proof -
  obtain cp where "run_pipeline_cycle (fst (countdown_at 3)) (snd (countdown_at 3)) = Inr cp"
    using countdown_third by (auto simp: cycle_def)
  then show ?thesis
    using pipeline_refines_isa[OF countdown_facts(1,3), of 3 _ "fst (countdown_at 3)"
        "snd (countdown_at 3)"] countdown_third
    by simp
qed

text \<open>
  C4. Exceptions are precise. If the machine throws after \<open>n\<close> instructions, the pipeline throws the
  same exception within \<open>3 n + 1\<close> cycles; the cycle that throws does so in its MEM stage, and the
  state of the CPU at that point, after the WB stage of the same cycle, is the machine's state
  before the failing instruction: registers, memory, write log, halt flag and retired count. So
  everything older has taken effect and nothing younger has.
\<close>

theorem pipeline_throws_as_isa:
  assumes "cpu_ok c" "code_stable (arch_of c)"
    and "isa_steps n (arch_of c) = Inl e" "3 * n + 1 \<le> N"
  shows "run_cycles N (start c) = Inl e \<and>
    (\<exists>k c' p' c1 m s. k < N \<and> run_cycles k (start c) = Inr (c', p') \<and>
       m < n \<and> isa_steps m (arch_of c) = Inr s \<and> isa_step s = Inl e \<and>
       stage_WB c' p' = Inr c1 \<and> arch_at (a_pc s) c1 = s \<and> stage_MEM c1 p' = Inl e)"
  using run_fails_start[OF cpu_ok_regs_ok[OF assms(1)] assms(2-4)]
    run_fails_precisely[OF cpu_ok_regs_ok[OF assms(1)] assms(2-4)]
  by (rule conjI)

theorem pipeline_throws_as_isa_witness:
  "run_cycles 4 (start (loaded bad_load TwoBitSaturating)) = Inl bad_address \<and>
   (\<exists>k c' p' c1. k < 4 \<and> run_cycles k (start (loaded bad_load TwoBitSaturating)) = Inr (c', p') \<and>
      stage_WB c' p' = Inr c1 \<and> stage_MEM c1 p' = Inl bad_address)"
  using pipeline_throws_as_isa[OF bad_load_facts(1,3)[of TwoBitSaturating]
      bad_load_facts(4)[of TwoBitSaturating], of 4] by auto

text \<open>C5. The pipeline throws nothing else: wrong-path and speculative work never throws.\<close>

theorem pipeline_throws_only_as_isa:
  assumes "cpu_ok c" "code_stable (arch_of c)" "run_cycles n (start c) = Inl e"
  shows "\<exists>m. isa_steps m (arch_of c) = Inl e"
  by (rule run_fails_sound_start[OF cpu_ok_regs_ok[OF assms(1)] assms(2,3)])

theorem pipeline_throws_only_as_isa_witness:
  "\<exists>m. isa_steps m (arch_of (loaded bad_load AlwaysTaken)) = Inl bad_address"
proof (rule pipeline_throws_only_as_isa[OF bad_load_facts(1,3)])
  show "run_cycles 4 (start (loaded bad_load AlwaysTaken)) = Inl bad_address"
    by (rule run_fails_start[OF bad_load_facts(2-4)]) simp
qed

text \<open>
  C6. The branch predictor changes the number of cycles only: two CPUs with the same registers,
  memory and program counter, whatever their configurations and predictor states, halt in the
  same state.
\<close>

theorem predictor_independence:
  assumes "cpu_ok c1" "cpu_ok c2" "arch_of c1 = arch_of c2" "code_stable (arch_of c1)"
    and "run_cycles n1 (start c1) = Inr (c1', p1)" "cpu_halted c1'"
    and "run_cycles n2 (start c2) = Inr (c2', p2)" "cpu_halted c2'"
  shows "arch_of c1' = arch_of c2'"
proof -
  obtain m1 where "isa_steps m1 (arch_of c1) = Inr (arch_of c1')" "a_halted (arch_of c1')"
    using run_halted_start[OF cpu_ok_regs_ok[OF assms(1)] assms(4,5,6)] by blast
  moreover obtain m2 where "isa_steps m2 (arch_of c1) = Inr (arch_of c2')"
    "a_halted (arch_of c2')"
    using run_halted_start[OF cpu_ok_regs_ok[OF assms(2)], of n2 c2' p2] assms(3,4,7,8) by auto
  ultimately show ?thesis by (rule isa_halts_once)
qed

theorem predictor_independence_witness:
  "\<exists>c1 p1 c2 p2. run_cycles 20 (start (loaded countdown AlwaysTaken)) = Inr (c1, p1) \<and>
     run_cycles 20 (start (loaded countdown AlwaysNotTaken)) = Inr (c2, p2) \<and>
     arch_of c1 = arch_of c2"
proof -
  obtain c1 p1 where 1: "run_cycles 20 (start (loaded countdown AlwaysTaken)) = Inr (c1, p1)"
    "cpu_halted c1" using countdown_halts by blast
  obtain c2 p2 where 2: "run_cycles 20 (start (loaded countdown AlwaysNotTaken)) = Inr (c2, p2)"
    "cpu_halted c2" using countdown_halts by blast
  have "arch_of (loaded countdown AlwaysTaken) = arch_of (loaded countdown AlwaysNotTaken)"
    by (simp add: arch_of_loaded[of countdown AlwaysTaken]
        arch_of_loaded[of countdown AlwaysNotTaken] example_nonempty example_lengths)
  then show ?thesis
    using predictor_independence[OF countdown_facts(1,1) _ countdown_facts(3) 1 2] 1 2 by blast
qed

text \<open>
  C7. Forwarding: whenever an instruction is in EX and the cycle does not throw, the operands
  \<open>resolve_forwarding\<close> gives it are the register values of the machine before that instruction,
  for every register it reads.
\<close>

theorem operands_are_architectural:
  assumes "cpu_ok c" "code_stable (arch_of c)"
    and "run_cycles n (start c) = Inr (c', p')" "run_pipeline_cycle c' p' = Inr cp"
    and "idex_valid (id_ex p')"
  shows "\<exists>m s. isa_steps m (arch_of c) = Inr s \<and> a_pc s = idex_pc (id_ex p') \<and>
    (let d = decode_instruction (idex_instruction (id_ex p'));
         operands = resolve_forwarding (id_ex p') p' in
     (fst (kind_uses (d_kind d)) \<longrightarrow> fo_rs1_value operands = isa_get s (d_rs1 d)) \<and>
     (snd (kind_uses (d_kind d)) \<longrightarrow> fo_rs2_value operands = isa_get s (d_rs2 d)))"
proof -
  obtain m s where s: "isa_steps m (arch_of c) = Inr s" "refines c' p' s"
    using run_sound_start[OF cpu_ok_regs_ok[OF assms(1)] assms(2,3)] assms(4)
    by (auto simp: cycle_def)
  from refines_operands[OF s(2) assms(5)] s(1) show ?thesis by blast
qed

theorem operands_are_architectural_witness:
  "\<exists>m s. isa_steps m (arch_of (loaded countdown TwoBitSaturating)) = Inr s \<and>
     a_pc s = idex_pc (id_ex (snd (countdown_at 3))) \<and>
     fo_rs1_value (resolve_forwarding (id_ex (snd (countdown_at 3))) (snd (countdown_at 3))) =
       isa_get s (d_rs1 (decode_instruction 0xFFF08093))"
proof -
  obtain cp where run: "run_pipeline_cycle (fst (countdown_at 3)) (snd (countdown_at 3)) = Inr cp"
    using countdown_third by (auto simp: cycle_def)
  have at: "run_cycles 3 (start (loaded countdown TwoBitSaturating)) =
      Inr (fst (countdown_at 3), snd (countdown_at 3))"
    and v: "idex_valid (id_ex (snd (countdown_at 3)))"
    and i: "idex_instruction (id_ex (snd (countdown_at 3))) = 0xFFF08093"
    using countdown_third by simp_all
  have "fst (kind_uses (d_kind (decode_instruction 0xFFF08093)))" by code_simp
  then show ?thesis
    using operands_are_architectural[OF countdown_facts(1,3) at run v] unfolding i Let_def
    by blast
qed

text \<open>
  C8. The datapath: decoding a valid word \<open>i\<close> at \<open>pc\<close> and passing it through EX, MEM and WB
  has the effect the instruction set gives it, exceptions included, for all 39 instructions.
\<close>

theorem datapath_executes_instruction:
  assumes "cpu_ok c" "is_valid_instruction (decode_instruction (ifid_instruction f))"
    and "ifid_valid f"
  shows "let d = decode_instruction (ifid_instruction f); r = id_latch c f;
           a = reg_val c (d_rs1 d); b = reg_val c (d_rs2 d) in
    res_map (arch_at (ex_target r a b)) (finish c (ex_latch r a b)) =
      isa_execute d (arch_at (ifid_pc f) c)"
  using decoded_executes[OF cpu_ok_regs_ok[OF assms(1)] assms(3,2)] by (simp add: Let_def)

theorem datapath_executes_instruction_witness:
  "let f = \<lparr>ifid_valid = True, ifid_pc = 8, ifid_instruction = 0x00200093,
             ifid_predicted_taken = False, ifid_predicted_next_pc = 12\<rparr>;
       c = loaded countdown AlwaysTaken; d = decode_instruction 0x00200093; r = id_latch c f;
       a = reg_val c (d_rs1 d); b = reg_val c (d_rs2 d) in
   res_map (arch_at (ex_target r a b)) (finish c (ex_latch r a b)) =
     isa_execute d (arch_at 8 c)"
proof -
  have "is_valid_instruction (decode_instruction 0x00200093)" by code_simp
  then show ?thesis
    using datapath_executes_instruction[OF countdown_facts(1)[of AlwaysTaken],
        of "\<lparr>ifid_valid = True, ifid_pc = 8, ifid_instruction = 0x00200093,
             ifid_predicted_taken = False, ifid_predicted_next_pc = 12\<rparr>"]
    by (simp add: Let_def)
qed

section \<open>Decoding\<close>

text \<open>
  C9. A word decodes to an instruction kind exactly when it matches the mask and match constants
  of the RV32I encoding of that kind; for ECALL and EBREAK the code leaves rd and rs1 unchecked,
  and so does the mask.
\<close>

theorem decode_recognises_rv32i:
  assumes "k \<noteq> K_Invalid"
  shows "d_kind (decode_instruction i) = k \<longleftrightarrow> i AND fst (rv32i_match k) = snd (rv32i_match k)"
  by (rule decode_kind_iff_match[OF assms])

theorem decode_recognises_rv32i_witness:
  "d_kind (decode_instruction 0x00208233) = K_Add \<longleftrightarrow> 0x00208233 AND 0xFE00707F = (0x33 :: u32)"
  using decode_recognises_rv32i[of K_Add "0x00208233"] by simp

text \<open>
  C10. What a decoded word carries: the control signals of its kind, from a table of complete
  records that uses nothing of the decoder, none for a word of no kind; the fields, as slices of
  the word; and for a word of some kind the format of that kind and its immediate, each bit of
  which is the bit of the word the manual's figure of the format names.
\<close>

theorem decode_signals_and_fields:
  "d_control (decode_instruction i) = control_of (d_kind (decode_instruction i)) \<and>
   d_raw (decode_instruction i) = i \<and>
   d_opcode (decode_instruction i) = ucast (i AND 0x7F) \<and>
   d_rd (decode_instruction i) = ucast (drop_bit 7 i AND 0x1F) \<and>
   d_funct3 (decode_instruction i) = ucast (drop_bit 12 i AND 0x7) \<and>
   d_rs1 (decode_instruction i) = ucast (drop_bit 15 i AND 0x1F) \<and>
   d_rs2 (decode_instruction i) = ucast (drop_bit 20 i AND 0x1F) \<and>
   d_funct7 (decode_instruction i) = ucast (drop_bit 25 i AND 0x7F) \<and>
   (d_kind (decode_instruction i) \<noteq> K_Invalid \<longrightarrow>
      d_format (decode_instruction i) = kind_format (d_kind (decode_instruction i)) \<and>
      (\<forall>n. n < 32 \<longrightarrow> bit (d_immediate (decode_instruction i)) n =
         immediate_bit (d_kind (decode_instruction i)) i n))"
  using decode_immediate[of i 0] decode_immediate[of i]
  by (simp add: decode_control decode_extracted extract_fields)

theorem decode_signals_and_fields_witness:
  "d_format (decode_instruction 0xFE009EE3) = Fmt_B \<and>
   \<not> bit (d_immediate (decode_instruction 0xFE009EE3)) 1 \<and>
   bit (d_immediate (decode_instruction 0xFE009EE3)) 2 \<and>
   bit (d_immediate (decode_instruction 0xFE009EE3)) 31"
proof -
  have k: "d_kind (decode_instruction 0xFE009EE3) = K_Bne" by code_simp
  have b: "\<not> bit (0xFE009EE3 :: u32) 8" "bit (0xFE009EE3 :: u32) 9" "bit (0xFE009EE3 :: u32) 31"
    by code_simp+
  show ?thesis
    using decode_signals_and_fields[of "0xFE009EE3"] b unfolding k
    by (simp add: immediate_bit_def)
qed

section \<open>The simulator as a whole\<close>

text \<open>
  C11. The program, from its arguments to its exit status, for a run without \<open>--help\<close> and
  \<open>--retire-count\<close> whose image loads: when the machine halts on the image after \<open>n\<close> instructions,
  the cycle limit is at least \<open>3 n + 2\<close>, the requested ranges and expectations lie in memory
  (\<open>requests_fit\<close>) and the state file can be written (\<open>can_save\<close>), \<open>main\<close> returns, its state file
  is the JSON of a CPU in the machine's final state, and its exit status is 0 exactly if the
  memory expectations hold there.
\<close>

theorem main_reports_machine_result:
  assumes "parse_cli args = Inr opts" "\<not> show_help opts" "\<not> has_retire_count opts"
    and "load_phase w opts new_stream = Inr (c, s)" "code_stable (arch_of c)"
    and "isa_steps n (arch_of c) = Inr z" "a_halted z" "3 * n + 2 \<le> unat (max_cycles opts)"
    and "requests_fit opts" "can_save w opts"
  shows "\<exists>r c'. main_program w exe args = Some (exit_status r, complaint r, Some r) \<and>
    cpu_halted c' \<and> arch_of c' = z \<and> dumps_state opts c' (state_file r) \<and>
    (exit_status r = 0 \<longleftrightarrow> expectations_hold opts (a_memory z))"
proof -
  from main_runs[OF assms, of exe] obtain r c' where "main_body w exe args = Some (Inr r)"
    "cpu_halted c'" "arch_of c' = z" "dumps_state opts c' (state_file r)"
    "exit_status r = 0 \<longleftrightarrow> expectations_hold opts (a_memory z)"
    by (elim exE conjE)
  then show ?thesis by (intro exI[of _ r] exI[of _ c']) (simp add: main_program_def)
qed

theorem main_reports_machine_result_witness:
  "\<exists>r c'. main_program disk ''sim'' (render_options (demo_options ''countdown.bin'')) =
       Some (exit_status r, complaint r, Some r) \<and> exit_status r = 0 \<and> cpu_halted c' \<and>
     dumps_state (demo_options ''countdown.bin'') c' (state_file r)"
proof -
  obtain s where load: "load_phase disk (demo_options ''countdown.bin'') new_stream =
      Inr (loaded countdown TwoBitSaturating, s)"
    using countdown_loads by blast
  obtain z where z: "isa_steps 6 (arch_of (loaded countdown TwoBitSaturating)) = Inr z" "a_halted z"
    "expectations_hold (demo_options ''countdown.bin'') (a_memory z)"
    using countdown_expected by blast
  have parsed: "parse_cli (render_options (demo_options ''countdown.bin'')) =
      Inr (demo_options ''countdown.bin'')"
    by (rule demo_options_parsed) simp_all
  show ?thesis
    using main_reports_machine_result[OF parsed _ _ load countdown_facts(3) z(1,2) _ demo_requests,
        of "''sim''"] z(3)
    by auto
qed

text \<open>
  C12. What exit status 0 means, for a run without \<open>--help\<close> (which prints the usage and succeeds):
  either the machine halts on the image, within twice as many instructions as the cycle limit if
  there is no \<open>--retire-count\<close>, and its final memory meets every expectation; or the run was asked
  to stop at a retire count, exactly that many instructions are retired, and the memory that meets
  the expectations is that of the machine then or one instruction later.
\<close>

theorem main_success_means_halted:
  assumes "main_program w exe args = Some (0, m, Some r)"
    and "parse_cli args = Inr opts" "\<not> show_help opts"
    and "load_phase w opts new_stream = Inr (c, s)" "code_stable (arch_of c)"
  shows "\<exists>k j u v. isa_steps k (arch_of c) = Inr u \<and> isa_steps j u = Inr v \<and>
    expectations_hold opts (a_memory v) \<and>
    (a_halted u \<and> v = u \<and> (\<not> has_retire_count opts \<longrightarrow> k \<le> 2 * unat (max_cycles opts)) \<or>
     has_retire_count opts \<and> a_retired u = retire_count opts \<and>
       (a_retired v = a_retired u \<or> a_retired v = a_retired u + 1))"
proof -
  have "main_body w exe args = Some (Inr r) \<and> exit_status r = 0"
    using assms(1) by (auto simp: main_program_def split: option.splits sum.splits)
  then show ?thesis using main_success_cases assms(2-5) by blast
qed

theorem main_success_means_halted_witness:
  "\<exists>n z. n \<le> 2 * 100 \<and> isa_steps n (arch_of (loaded countdown TwoBitSaturating)) = Inr z \<and>
     a_halted z \<and> expectations_hold (demo_options ''countdown.bin'') (a_memory z)"
proof -
  obtain s where load: "load_phase disk (demo_options ''countdown.bin'') new_stream =
      Inr (loaded countdown TwoBitSaturating, s)"
    using countdown_loads by blast
  obtain z where z: "isa_steps 6 (arch_of (loaded countdown TwoBitSaturating)) = Inr z" "a_halted z"
    "expectations_hold (demo_options ''countdown.bin'') (a_memory z)"
    using countdown_expected by blast
  have parsed: "parse_cli (render_options (demo_options ''countdown.bin'')) =
      Inr (demo_options ''countdown.bin'')"
    by (rule demo_options_parsed) simp_all
  obtain r where "main_body disk ''sim'' (render_options (demo_options ''countdown.bin'')) =
      Some (Inr r)" "exit_status r = 0"
    using main_runs[OF parsed _ _ load countdown_facts(3) z(1,2) _ demo_requests, of "''sim''"] z(3)
    by auto
  then have "main_program disk ''sim'' (render_options (demo_options ''countdown.bin'')) =
      Some (0, complaint r, Some r)"
    by (simp add: main_program_def)
  from main_success_means_halted[OF this parsed _ load countdown_facts(3)] show ?thesis by auto
qed

text \<open>
  C13. A fault the run comes to: without \<open>--help\<close> and \<open>--retire-count\<close>, if the machine throws after
  \<open>n\<close> instructions on the loaded image and the cycle limit is at least \<open>3 n + 1\<close>, the program ends
  with exit status 1, no report, and the fault's message on the error stream.
\<close>

theorem main_reports_faults:
  assumes "parse_cli args = Inr opts" "\<not> show_help opts" "\<not> has_retire_count opts"
    and "load_phase w opts new_stream = Inr (c, s)" "code_stable (arch_of c)"
    and "isa_steps n (arch_of c) = Inl e" "3 * n + 1 \<le> unat (max_cycles opts)"
  shows "main_program w exe args =
    Some (1, ''error: '' @ what e @ newline @ ''Run with --help for usage.'' @ newline, None)"
  by (simp only: main_program_def main_faults[OF assms] option.case sum.case)

theorem main_reports_faults_witness:
  "main_program disk ''sim'' (render_options (demo_options ''bad.bin'')) =
     Some (1, ''error: '' @ ''memory access exceeds simulated RAM bounds'' @ newline @
              ''Run with --help for usage.'' @ newline, None)"
proof -
  obtain s where load: "load_phase disk (demo_options ''bad.bin'') new_stream =
      Inr (loaded bad_load TwoBitSaturating, s)"
    using bad_load_loads by blast
  have parsed: "parse_cli (render_options (demo_options ''bad.bin'')) = Inr (demo_options ''bad.bin'')"
    by (rule demo_options_parsed) simp_all
  have "what bad_address = ''memory access exceeds simulated RAM bounds''"
    by (simp add: bad_address_def)
  then show ?thesis
    using main_reports_faults[OF parsed _ _ load bad_load_facts(3,4), of "''sim''"]
    by (simp only: demo_options_simps) simp
qed

text \<open>
  C14. The program always returns, for every command line, image and file system, unless it is
  asked to dump more than \<open>2\<^sup>3\<^sup>2 - 16\<close> bytes of memory.
\<close>

theorem main_terminates:
  assumes "\<forall>opts. parse_cli args = Inr opts \<and> dump_memory opts \<longrightarrow>
    dump_memory_length opts \<le> 0xFFFFFFF0"
  shows "main_program w exe args \<noteq> None"
proof -
  obtain y where "main_body w exe args = Some y"
    using main_returns[of args w exe] assms by blast
  then show ?thesis by (cases y) (simp_all only: main_program_def option.case sum.case option.distinct
        not_False_eq_True)
qed

theorem main_terminates_witness: "main_program disk ''sim'' [] \<noteq> None"
proof (rule main_terminates)
  have "parse_cli [] = Inr default_options" by (simp add: parse_cli_def default_options_def)
  then show "\<forall>opts. parse_cli [] = Inr opts \<and> dump_memory opts \<longrightarrow> dump_memory_length opts \<le> 0xFFFFFFF0"
    by (auto simp: default_options_def)
qed

text \<open>
  C15. The loop of \<open>main\<close> ends within the cycle limit, with every counter bounded by the clock,
  no more mispredictions than predictions, so that no ratio printed exceeds 1 but CPI and no
  subtraction wraps, and never more retired instructions than asked for.
\<close>

theorem loop_statistics_bounded:
  assumes "load_phase w opts s = Inr (c, s1)"
    and "simulate opts c empty_pipeline k s2 = Some (Inr (c', p', s3))"
  shows "\<not> keep_running opts c' \<and> clock_cycles (cpu_stats c') \<le> max_cycles opts \<and>
    instruction_count (cpu_stats c') \<le> clock_cycles (cpu_stats c') \<and>
    stall_cycles (cpu_stats c') \<le> clock_cycles (cpu_stats c') \<and>
    branch_mispredictions (cpu_stats c') \<le> branch_predictions (cpu_stats c') \<and>
    branch_predictions (cpu_stats c') \<le> clock_cycles (cpu_stats c') \<and>
    (has_retire_count opts \<longrightarrow> instruction_count (cpu_stats c') \<le> retire_count opts)"
proof -
  note sound = loaded_sound[OF assms(1)]
  obtain n where "run_while (keep opts) cycle n (c, empty_pipeline) = Inr (c', p')"
    using simulate_result(1)[OF sound(1) assms(2)] by blast
  then have "stats_bounded opts c'"
    using run_while_stats[of "(c, empty_pipeline)" opts n] sound(1) loaded_stats[OF assms(1)] by auto
  then show ?thesis
    using simulate_result(2)[OF sound(1) assms(2)] by (simp add: stats_bounded_def Let_def)
qed

theorem loop_statistics_bounded_witness:
  "\<exists>c' p' s. simulate (demo_options ''countdown.bin'') (loaded countdown TwoBitSaturating)
       empty_pipeline 0 new_stream = Some (Inr (c', p', s)) \<and>
     instruction_count (cpu_stats c') \<le> clock_cycles (cpu_stats c') \<and>
     clock_cycles (cpu_stats c') \<le> 100"
proof -
  obtain s where load: "load_phase disk (demo_options ''countdown.bin'') new_stream =
      Inr (loaded countdown TwoBitSaturating, s)"
    using countdown_loads by blast
  obtain c' p' where "run_cycles 100 (start (loaded countdown TwoBitSaturating)) = Inr (c', p')"
    using countdown_facts(4)[of TwoBitSaturating]
      run_halts_start[OF countdown_facts(2,3)[of TwoBitSaturating], of 6 _ 100] by auto
  then obtain s' where sim: "simulate (demo_options ''countdown.bin'')
      (loaded countdown TwoBitSaturating) empty_pipeline 0 new_stream = Some (Inr (c', p', s'))"
    using simulate_run_cycles[OF loaded_sound(1)[OF load] _ loaded_sound(2)[OF load],
        of "demo_options ''countdown.bin''" empty_pipeline 0 new_stream] by (auto simp: start_def)
  have "max_cycles (demo_options ''countdown.bin'') = 100"
    by (simp add: demo_options_def default_options_def)
  then show ?thesis using loop_statistics_bounded[OF load sim] sim by auto
qed

text \<open>
  C16. What the simulator reports when it stops early, for any limit: registers, halt flag and
  retired count are those of the machine before the instruction in MEM/WB, memory and write log
  those after it; and a run stopped by \<open>--retire-count\<close> has retired exactly that many.
\<close>

theorem stopped_state:
  assumes "load_phase w opts s = Inr (c, s1)" "code_stable (arch_of c)"
    and "simulate opts c empty_pipeline 0 s2 = Some (Inr (c', p', s3))"
  shows "\<exists>k j u v. isa_steps k (arch_of c) = Inr u \<and> isa_steps j u = Inr v \<and>
    (\<forall>q. unat q < 32 \<longrightarrow> read_reg c' q = Inr (isa_get u q)) \<and> cpu_halted c' = a_halted u \<and>
    instruction_count (cpu_stats c') = a_retired u \<and>
    cpu_memory c' = a_memory v \<and> cpu_memory_writes c' = a_writes v \<and>
    a_retired v = a_retired u + of_bool (memwb_valid (mem_wb p')) \<and>
    (\<not> cpu_halted c' \<and> clock_cycles (cpu_stats c') < max_cycles opts \<longrightarrow>
       has_retire_count opts \<and> a_retired u = retire_count opts)"
proof -
  note sound = loaded_sound(1)[OF assms(1)]
  obtain k j u v where uv: "isa_steps k (arch_of c) = Inr u" "isa_steps j u = Inr v"
    and t: "trails c' p' u v"
    using simulate_trails[OF assms] by blast
  have "regs_ok c'"
    using simulate_sound(1)[OF sound assms(3)] by (simp add: sound_cpu_def cpu_ok_regs_ok)
  note parts = trails_parts[OF t this]
  have "\<forall>q. unat q < 32 \<longrightarrow> read_reg c' q = Inr (isa_get u q)"
    by (simp add: parts(1) read_reg_in)
  moreover have "\<not> cpu_halted c' \<and> clock_cycles (cpu_stats c') < max_cycles opts \<longrightarrow>
      has_retire_count opts \<and> a_retired u = retire_count opts"
    using simulate_stops[OF assms(1,3)] parts(3) by simp
  ultimately show ?thesis using uv parts(2-) by blast
qed

theorem stopped_state_witness:
  "\<exists>c' p' s k u. simulate retire_options (loaded countdown TwoBitSaturating) empty_pipeline 0
       new_stream = Some (Inr (c', p', s)) \<and>
     isa_steps k (arch_of (loaded countdown TwoBitSaturating)) = Inr u \<and> a_retired u = 2 \<and>
     (\<forall>q. unat q < 32 \<longrightarrow> read_reg c' q = Inr (isa_get u q))"
proof -
  obtain s1 where load: "load_phase disk retire_options new_stream =
      Inr (loaded countdown TwoBitSaturating, s1)"
    using retire_loads by blast
  obtain c' p' s where sim: "simulate retire_options (loaded countdown TwoBitSaturating)
      empty_pipeline 0 new_stream = Some (Inr (c', p', s))"
    "\<not> cpu_halted c'" "clock_cycles (cpu_stats c') < 10"
    using retire_run by blast
  from stopped_state[OF load countdown_facts(3) sim(1)] sim show ?thesis by auto
qed

section \<open>The number of cycles\<close>

text \<open>
  C17. The clock is exact: from empty statistics, a program that halts after \<open>n\<close> steps of the
  machine takes one cycle per step, four to fill and drain the pipeline, and one for each stall,
  each jump to elsewhere and each misprediction; it stalls exactly once for each load whose
  result the next instruction reads, and predicts once per branch it executes.
\<close>

theorem cycle_count_exact:
  assumes "cpu_ok c" "cpu_stats c = zero_stats" "code_stable (arch_of c)"
    and "halts_after n (arch_of c)" "0 < n" "3 * n + 2 \<le> N" "N < 2 ^ 64"
  shows "\<exists>c' p'. run_cycles N (start c) = Inr (c', p') \<and> cpu_halted c' \<and>
    unat (clock_cycles (cpu_stats c')) =
      n + 4 + unat (stall_cycles (cpu_stats c')) + tally jump_away n (arch_of c) +
      unat (branch_mispredictions (cpu_stats c')) \<and>
    unat (stall_cycles (cpu_stats c')) = tally load_use_pair n (arch_of c) \<and>
    branch_predictions (cpu_stats c') = of_nat (tally branch_done n (arch_of c))"
proof -
  note regs = cpu_ok_regs_ok[OF assms(1)]
  obtain z where "isa_steps n (arch_of c) = Inr z" "a_halted z"
    using assms(4) by (auto simp: halts_after_def)
  then obtain c' p' where "run_cycles N (start c) = Inr (c', p')" "cpu_halted c'"
    using run_halts_start[OF regs assms(3) _ _ assms(6)] by blast
  then show ?thesis using halted_account(1-3)[OF regs assms(2-5) _ _ assms(7)] by blast
qed

theorem cycle_count_exact_witness:
  "\<exists>c' p'. run_cycles 20 (start (loaded load_use TwoBitSaturating)) = Inr (c', p') \<and>
     cpu_halted c' \<and> unat (stall_cycles (cpu_stats c')) = 1 \<and>
     unat (clock_cycles (cpu_stats c')) = 8 + unat (branch_mispredictions (cpu_stats c'))"
  using cycle_count_exact[OF load_use_facts(1,2,3,4), of 20] load_use_facts(5,6) by auto

text \<open>
  C18. Under a static predictor the number of cycles depends on the machine's run alone: a branch
  costs a cycle exactly when it does not go where the predictor always expects it to.
\<close>

theorem static_cycle_count:
  assumes "cpu_ok c" "cpu_stats c = zero_stats" "code_stable (arch_of c)"
    and "halts_after n (arch_of c)" "0 < n" "3 * n + 2 \<le> N" "N < 2 ^ 64"
    and "branch_predictor_type (cpu_config c) \<noteq> TwoBitSaturating"
  shows "\<exists>c' p'. run_cycles N (start c) = Inr (c', p') \<and> cpu_halted c' \<and>
    unat (clock_cycles (cpu_stats c')) = n + 4 + tally load_use_pair n (arch_of c) +
      tally jump_away n (arch_of c) +
      tally (branch_away (branch_predictor_type (cpu_config c))) n (arch_of c)"
proof -
  note regs = cpu_ok_regs_ok[OF assms(1)]
  obtain z where "isa_steps n (arch_of c) = Inr z" "a_halted z"
    using assms(4) by (auto simp: halts_after_def)
  then obtain c' p' where run: "run_cycles N (start c) = Inr (c', p')" "cpu_halted c'"
    using run_halts_start[OF regs assms(3) _ _ assms(6)] by blast
  note acc = halted_account[OF regs assms(2-5) run assms(7)]
  show ?thesis using run acc(1,2) acc(4)[OF assms(8)] by auto
qed

theorem static_cycle_count_witness:
  "(\<exists>c' p'. run_cycles 20 (start (loaded countdown AlwaysNotTaken)) = Inr (c', p') \<and>
      cpu_halted c' \<and> unat (clock_cycles (cpu_stats c')) = 11) \<and>
   (\<exists>c' p'. run_cycles 20 (start (loaded countdown AlwaysTaken)) = Inr (c', p') \<and>
      cpu_halted c' \<and> unat (clock_cycles (cpu_stats c')) = 11)"
  using static_cycle_count[OF countdown_facts(1) countdown_counted(1) countdown_facts(3)
      countdown_counted(2), of 20 AlwaysNotTaken]
    static_cycle_count[OF countdown_facts(1) countdown_counted(1) countdown_facts(3)
      countdown_counted(2), of 20 AlwaysTaken]
  by (simp add: countdown_counted)

section \<open>Hazards and prediction\<close>

text \<open>
  C19. The hazard unit stalls exactly on a load in ID/EX whose destination, other than \<open>x0\<close>,
  is a register the instruction in IF/ID reads: by \<open>reads_register\<close>, which takes the operands of
  the word from its opcode bits and register fields, not from the code's table of operands.
\<close>

theorem stall_exactly_on_load_use:
  assumes "idex_control (id_ex p) = control_of k"
  shows "stall (detect_raw_hazard p) \<longleftrightarrow> ifid_valid (if_id p) \<and> idex_valid (id_ex p) \<and>
     k \<in> {K_Lb, K_Lh, K_Lw, K_Lbu, K_Lhu} \<and>
     reads_register (ifid_instruction (if_id p)) (idex_rd (id_ex p))"
  using assms control_of_load[of k] by (auto simp: stall_iff)

theorem stall_exactly_on_load_use_witness:
  "stall (detect_raw_hazard (snd (load_use_at 2)))"
proof -
  have c: "idex_control (id_ex (snd (load_use_at 2))) = control_of K_Lw"
    using load_use_second by simp
  show ?thesis
    using stall_exactly_on_load_use[OF c] load_use_second by simp
qed

text \<open>
  C20. A load-use stall keeps the program counter and IF/ID, puts a bubble into ID/EX and counts
  one stall cycle.
\<close>

theorem stall_inserts_one_bubble:
  assumes "cpu_ok c" "run_pipeline_cycle c p = Inr (c', p')" "stall (detect_raw_hazard p)"
    and "\<not> ex_resolves (id_ex p)" "\<not> halt_is_in_flight p"
  shows "cpu_pc c' = cpu_pc c \<and> if_id p' = if_id p \<and> id_ex p' = empty_IDEX \<and>
    stall_cycles (cpu_stats c') = stall_cycles (cpu_stats c) + 1"
proof -
  have "stalled p" using assms(3,4) by (simp add: stalled_def redirected_def ex_redirects_def)
  then show ?thesis
    using cycle_stalls[OF cpu_ok_regs_ok[OF assms(1)] assms(2) _ assms(5)]
      cycle_counted[OF cpu_ok_regs_ok[OF assms(1)] assms(2)]
    by (simp add: counted_def)
qed

theorem stall_inserts_one_bubble_witness:
  "\<exists>c' p'. run_pipeline_cycle (fst (load_use_at 2)) (snd (load_use_at 2)) = Inr (c', p') \<and>
     cpu_pc c' = cpu_pc (fst (load_use_at 2)) \<and> if_id p' = if_id (snd (load_use_at 2)) \<and>
     id_ex p' = empty_IDEX"
proof -
  obtain c' p' where r: "run_pipeline_cycle (fst (load_use_at 2)) (snd (load_use_at 2)) = Inr (c', p')"
    using load_use_second by (auto simp: cycle_def)
  have s: "cpu_ok (fst (load_use_at 2))" "stall (detect_raw_hazard (snd (load_use_at 2)))"
    "\<not> ex_resolves (id_ex (snd (load_use_at 2)))" "\<not> halt_is_in_flight (snd (load_use_at 2))"
    using load_use_second by (simp_all add: stall_iff ex_resolves_def)
  show ?thesis
    using stall_inserts_one_bubble[OF s(1) r s(2-4)] r by blast
qed

text \<open>
  C21. Recovery: a branch in EX whose predicted next address is not its actual one moves fetch
  to the actual target in the same cycle, discards the instruction in IF/ID, trains the
  predictor with the outcome and counts one wrong prediction.
\<close>

theorem misprediction_recovers:
  assumes "cpu_ok c" "run_pipeline_cycle c p = Inr (c', p')" "\<not> halt_is_in_flight p"
    and "idex_valid (id_ex p)" "branch (idex_control (id_ex p))"
  defines "operands \<equiv> resolve_forwarding (id_ex p) p"
  defines "taken \<equiv> evaluate_branch (branch_condition (idex_control (id_ex p)))
             (fo_rs1_value operands) (fo_rs2_value operands)"
  defines "target \<equiv> (if taken then idex_pc (id_ex p) + idex_immediate (id_ex p)
             else idex_pc (id_ex p) + 4)"
  assumes "idex_predicted_next_pc (id_ex p) \<noteq> target"
  shows "id_ex p' = empty_IDEX \<and>
    (if ifid_valid (if_id p') then ifid_pc (if_id p') = target else cpu_pc c' = target) \<and>
    cpu_predictor c' = update_predictor (cpu_predictor c) (idex_pc (id_ex p)) taken
      (branch_predictor_type (cpu_config c)) \<and>
    branch_mispredictions (cpu_stats c') = branch_mispredictions (cpu_stats c) + 1"
  unfolding target_def taken_def operands_def resolve_forwarding_values
  by (rule branch_recovery[OF cpu_ok_regs_ok[OF assms(1)] assms(2-5)])
    (use assms(9) in \<open>simp add: target_def taken_def operands_def resolve_forwarding_values\<close>)

theorem misprediction_recovers_witness:
  "\<exists>c' p'. run_pipeline_cycle (fst (countdown_at 4)) (snd (countdown_at 4)) = Inr (c', p') \<and>
     id_ex p' = empty_IDEX \<and> branch_mispredictions (cpu_stats c') = 1"
proof -
  obtain c' p' where r: "run_pipeline_cycle (fst (countdown_at 4)) (snd (countdown_at 4)) = Inr (c', p')"
    using countdown_fourth by (auto simp: cycle_def)
  have s: "cpu_ok (fst (countdown_at 4))" "\<not> halt_is_in_flight (snd (countdown_at 4))"
    "idex_valid (id_ex (snd (countdown_at 4)))" "branch (idex_control (id_ex (snd (countdown_at 4))))"
    "branch_mispredictions (cpu_stats (fst (countdown_at 4))) = 0"
    using countdown_fourth by simp_all
  show ?thesis
    using misprediction_recovers[OF s(1) r s(2-4)] countdown_fourth r s(5) by (simp add: Let_def)
qed

text \<open>
  C22. The cycle counts: one clock tick, one instruction per valid MEM/WB, one stall per
  load-use hazard, one prediction per branch in EX, which is wrong exactly if it redirects.
\<close>

theorem cycle_statistics:
  assumes "cpu_ok c" "run_pipeline_cycle c p = Inr (c', p')"
  shows "cpu_stats c' = counted p (cpu_stats c)"
  by (rule cycle_counted[OF cpu_ok_regs_ok[OF assms(1)] assms(2)])

theorem cycle_statistics_witness:
  "\<exists>c' p'. run_pipeline_cycle (fst (countdown_at 3)) (snd (countdown_at 3)) = Inr (c', p') \<and>
     cpu_stats c' = counted (snd (countdown_at 3)) (cpu_stats (fst (countdown_at 3)))"
proof -
  obtain c' p' where r: "run_pipeline_cycle (fst (countdown_at 3)) (snd (countdown_at 3)) = Inr (c', p')"
    using countdown_third by (auto simp: cycle_def)
  have "cpu_ok (fst (countdown_at 3))" using countdown_third by simp
  from cycle_statistics[OF this r] r show ?thesis by blast
qed

text \<open>
  C23. Every cycle keeps the CPU well-formed (32 registers, 64 counters of two bits), its
  configuration, the size of memory, and every logged write inside memory.
\<close>

theorem cycle_keeps_invariants:
  assumes "cpu_ok c" "writes_ok c" "run_pipeline_cycle c p = Inr (c', p')"
  shows "cpu_ok c' \<and> writes_ok c' \<and> cpu_config c' = cpu_config c \<and>
     memory_size c' = memory_size c"
  using cycle_invariants[OF assms] by (simp add: memory_size_def)

theorem cycle_keeps_invariants_witness:
  "\<exists>c' p'. run_pipeline_cycle (loaded countdown AlwaysTaken) empty_pipeline = Inr (c', p') \<and>
     cpu_ok c' \<and> writes_ok c'"
proof -
  let ?c = "loaded countdown AlwaysTaken"
  have ok: "cpu_ok ?c" "writes_ok ?c"
    using loaded_ok[of countdown AlwaysTaken] by (simp_all add: example_nonempty example_lengths)
  obtain c' p' where "run_pipeline_cycle ?c empty_pipeline = Inr (c', p')"
    using first_cycle[OF cpu_ok_regs_ok[OF ok(1)]] by auto
  then show ?thesis using cycle_keeps_invariants[OF ok] by blast
qed

text \<open>
  C24. The pipeline on a program that does not modify its code. If the machine fetches from a
  region of memory whose bytes never change, the condition of the other properties holds and the
  pipeline follows the machine: after any number of cycles, unless the next one throws, completing
  the instructions in EX/MEM and MEM/WB gives a state of the machine, and an instruction in ID/EX
  is the word that was in memory at its address when the run began.
\<close>

theorem unchanged_code_is_followed:
  assumes "cpu_ok c"
    and "\<And>n t. isa_steps n (arch_of c) = Inr t \<Longrightarrow>
     lo \<le> unat (a_pc t) \<and> unat (a_pc t) + 4 \<le> hi \<and> hi \<le> length (a_memory t) \<and>
     take (hi - lo) (drop lo (a_memory t)) = take (hi - lo) (drop lo (cpu_memory c))"
    and "run_cycles n (start c) = Inr (c', p')" "run_pipeline_cycle c' p' = Inr cp"
  shows "code_stable (arch_of c) \<and>
    (\<exists>m \<le> 2 * n. \<exists>s. isa_steps m (arch_of c) = Inr s \<and>
       res_map (arch_at (commit_pc c' p')) (drain c' p') = Inr s \<and>
       (idex_valid (id_ex p') \<longrightarrow>
          isa_fetch (cpu_memory c) (idex_pc (id_ex p')) = Some (idex_instruction (id_ex p'))))"
proof -
  have within: "runs_within lo hi (arch_of c)"
    using assms(2) by (simp add: runs_within_def arch_of_def)
  show ?thesis
    using runs_within_stable[OF within] region_run[OF cpu_ok_regs_ok[OF assms(1)] within assms(3,4)]
    by (rule conjI)
qed

theorem unchanged_code_is_followed_witness:
  "\<exists>c' p'. run_cycles 2 (start spin) = Inr (c', p') \<and> idex_valid (id_ex p') \<and>
     isa_fetch (cpu_memory spin) (idex_pc (id_ex p')) = Some (idex_instruction (id_ex p'))"
proof -
  obtain c p cp where r: "run_cycles 2 (start spin) = Inr (c, p)" "run_pipeline_cycle c p = Inr cp"
    "idex_valid (id_ex p)"
    using spin_second by blast
  have code: "0 \<le> unat (a_pc t) \<and> unat (a_pc t) + 4 \<le> 4 \<and> 4 \<le> length (a_memory t) \<and>
      take (4 - 0) (drop 0 (a_memory t)) = take (4 - 0) (drop 0 (cpu_memory spin))"
    if "isa_steps n (arch_of spin) = Inr t" for n t
    using spin_steps[OF that] by simp
  have "code_stable (arch_of spin) \<and> (\<exists>m \<le> 2 * 2. \<exists>s. isa_steps m (arch_of spin) = Inr s \<and>
      res_map (arch_at (commit_pc c p)) (drain c p) = Inr s \<and>
      (idex_valid (id_ex p) \<longrightarrow>
         isa_fetch (cpu_memory spin) (idex_pc (id_ex p)) = Some (idex_instruction (id_ex p))))"
    by (rule unchanged_code_is_followed[OF spin_ok code r(1,2)])
  then show ?thesis using r by blast
qed

section \<open>State dumps and the comparison with Spike\<close>

text \<open>
  C25. The JSON of a CPU is canonical and complete: the texts of two CPUs are equal exactly when
  their program counters, halt flags, 32 registers, sets of selected bytes and the memory at each
  of them are, whatever the order, overlap and number of the requested ranges.
\<close>

theorem state_json_canonical:
  assumes "memory_size c1 < 2 ^ 32" "ranges_fit (memory_size c1) (selection c1 rs1)"
    and "memory_size c2 < 2 ^ 32" "ranges_fit (memory_size c2) (selection c2 rs2)"
  shows "\<exists>s1 s2. print_architectural_state_json c1 rs1 new_stream = Some (Inr s1) \<and>
    print_architectural_state_json c2 rs2 new_stream = Some (Inr s2) \<and>
    (s_text s1 = s_text s2 \<longleftrightarrow>
       cpu_pc c1 = cpu_pc c2 \<and> cpu_halted c1 = cpu_halted c2 \<and>
       (\<forall>r. unat r < 32 \<longrightarrow> read_reg c1 r = read_reg c2 r) \<and>
       covered (selection c1 rs1) = covered (selection c2 rs2) \<and>
       (\<forall>i \<in> covered (selection c1 rs1). cpu_memory c1 ! i = cpu_memory c2 ! i))"
proof -
  from json_of_selection[OF assms(1,2), of "[]"] obtain l1 where
    1: "print_architectural_state_json c1 rs1 new_stream = Some (Inr (plain (json_text c1 l1)))"
    "separated 0 l1" "list_all (\<lambda>r. snd r \<le> memory_size c1) l1"
    "run_bytes l1 = covered (selection c1 rs1)"
    by (auto simp: new_stream_plain)
  from json_of_selection[OF assms(3,4), of "[]"] obtain l2 where
    2: "print_architectural_state_json c2 rs2 new_stream = Some (Inr (plain (json_text c2 l2)))"
    "separated 0 l2" "list_all (\<lambda>r. snd r \<le> memory_size c2) l2"
    "run_bytes l2 = covered (selection c2 rs2)"
    by (auto simp: new_stream_plain)
  note same = json_text_eq_iff[OF 1(2,3) assms(1) 2(2,3) assms(3), unfolded 1(4) 2(4) same_view_def]
  show ?thesis
    using 1(1) 2(1) same
    by (intro exI[of _ "plain (json_text c1 l1)"] exI[of _ "plain (json_text c2 l2)"] conjI)
      (simp_all only: plain_simps)
qed

theorem state_json_canonical_witness:
  "\<exists>s1 s2. print_architectural_state_json (loaded countdown AlwaysTaken)
        [\<lparr>range_start = 0, range_count = 8\<rparr>, \<lparr>range_start = 4, range_count = 12\<rparr>] new_stream =
      Some (Inr s1) \<and>
    print_architectural_state_json (loaded countdown AlwaysTaken)
        [\<lparr>range_start = 0, range_count = 16\<rparr>] new_stream = Some (Inr s2) \<and>
    s_text s1 = s_text s2"
proof -
  have m: "memory_size (loaded countdown AlwaysTaken) = 32"
    by (simp add: loaded_eq memory_size_def new_CPU_def example_nonempty example_lengths)
  have "{0..<8} \<union> {4..<16} = {0..<16 :: nat}" by auto
  then show ?thesis
    using state_json_canonical[of "loaded countdown AlwaysTaken"
        "[\<lparr>range_start = 0, range_count = 8\<rparr>, \<lparr>range_start = 4, range_count = 12\<rparr>]"
        "loaded countdown AlwaysTaken" "[\<lparr>range_start = 0, range_count = 16\<rparr>]"]
    by (simp add: m selection_def ranges_fit_def range_end_def)
qed

text \<open>
  C26. Merging ranges: if one leaves memory the result is the error the code names; otherwise the
  result lists, in ascending order and with a gap between neighbours, ranges that cover exactly
  the requested bytes, or the bytes written if none were requested.
\<close>

theorem normalized_ranges:
  assumes "memory_size c < 2 ^ 32"
  shows "if ranges_fit (memory_size c) (selection c requested)
    then \<exists>rs. normalize_memory_ranges c requested = Some (Inr (map as_range rs)) \<and>
      separated 0 rs \<and> list_all (\<lambda>r. snd r \<le> memory_size c) rs \<and>
      run_bytes rs = covered (selection c requested)
    else normalize_memory_ranges c requested = Some (Inl (selection_error requested))"
  by (rule normalize_spec[OF assms])

theorem normalized_ranges_witness:
  "(\<exists>rs. normalize_memory_ranges (new_CPU 32 default_Config)
       [\<lparr>range_start = 12, range_count = 4\<rparr>, \<lparr>range_start = 8, range_count = 6\<rparr>] =
       Some (Inr (map as_range rs)) \<and> run_bytes rs = {8..<16}) \<and>
   normalize_memory_ranges (new_CPU 32 default_Config) [\<lparr>range_start = 30, range_count = 4\<rparr>] =
     Some (Inl (Out_of_range ''architectural-state memory range exceeds simulated RAM bounds''))"
proof -
  have m: "memory_size (new_CPU 32 default_Config) = 32" by (simp add: memory_size_def new_CPU_def)
  have "{12..<16} \<union> {8..<14} = {8..<16 :: nat}" by auto
  then show ?thesis
    using normalized_ranges[of "new_CPU 32 default_Config"
        "[\<lparr>range_start = 12, range_count = 4\<rparr>, \<lparr>range_start = 8, range_count = 6\<rparr>]"]
      normalized_ranges[of "new_CPU 32 default_Config" "[\<lparr>range_start = 30, range_count = 4\<rparr>]"]
    by (auto simp: m selection_def selection_error_def ranges_fit_def range_end_def)
qed

text \<open>
  C27. A memory dump inside memory returns for at most \<open>2\<^sup>3\<^sup>2 - 16\<close> bytes and runs forever for
  more: the 32-bit offset steps over the byte count and wraps.
\<close>

theorem memory_dump_returns:
  assumes "range_end a n \<le> memory_size c" "memory_size c \<le> 2 ^ 32"
  shows "if n \<le> 0xFFFFFFF0 then \<exists>s'. print_memory_dump c a n s = Some (Inr s')
    else print_memory_dump c a n s = None"
  using memory_dump_returns_iff[OF assms, of s] by (cases "n \<le> 0xFFFFFFF0") simp_all

theorem memory_dump_returns_witness:
  "print_memory_dump (new_CPU 4294967295 default_Config) 0 0xFFFFFFFF new_stream = None \<and>
   (\<exists>s'. print_memory_dump (new_CPU 4294967295 default_Config) 8 24 new_stream = Some (Inr s'))"
proof -
  have "memory_size (new_CPU 4294967295 default_Config) = 4294967295"
    by (simp add: memory_size_def new_CPU_def)
  then show ?thesis
    using memory_dump_returns[of 0 "0xFFFFFFFF" "new_CPU 4294967295 default_Config" new_stream]
      memory_dump_returns[of 8 24 "new_CPU 4294967295 default_Config" new_stream]
    by (simp add: range_end_def)
qed





text \<open>
  C30. The trace leaves left adjustment set on the stream when its last latch is a bubble; a
  register dump printed after it then pads numbers on the right, so that the eight hexadecimal
  digits of a value \<open>v\<close> read as \<open>v\<close> times a power of 16.
\<close>

theorem trace_leaves_left_adjustment:
  "let s = print_pipeline_trace cpu p (plain t) in s_left s = (\<not> memwb_valid (mem_wb p)) \<and>
    (\<not> memwb_valid (mem_wb p) \<longrightarrow> (\<forall>i < 32. \<exists>s' digits. print_register_line c i s = Inr s' \<and>
       s_text s' = s_text s @ ''  x'' @ left_field 10 2 i @ '' = 0x'' @ digits @ '' ('' @
         nat_text 10 (unat (reg_val c (of_nat i))) @ '')'' @ newline \<and>
       text_value 16 digits = unat (reg_val c (of_nat i)) *
         16 ^ (8 - length (nat_text 16 (unat (reg_val c (of_nat i)))))))"
proof -
  define s where "s = print_pipeline_trace cpu p (plain t)"
  have "adjusted False (plain t)" by (simp add: adjusted_def)
  then have adj: "adjusted (\<not> memwb_valid (mem_wb p)) s"
    unfolding s_def by (rule print_pipeline_trace_adjusted)
  have "\<exists>s' digits. print_register_line c i s = Inr s' \<and>
       s_text s' = s_text s @ ''  x'' @ left_field 10 2 i @ '' = 0x'' @ digits @ '' ('' @
         nat_text 10 (unat (reg_val c (of_nat i))) @ '')'' @ newline \<and>
       text_value 16 digits = unat (reg_val c (of_nat i)) *
         16 ^ (8 - length (nat_text 16 (unat (reg_val c (of_nat i)))))"
    if "\<not> memwb_valid (mem_wb p)" "i < 32" for i
    using register_line_left[of s i c] adj that text_value_left_field[of 16 8] by auto
  then show ?thesis using adj unfolding Let_def s_def[symmetric] by (simp add: adjusted_def)
qed

theorem trace_leaves_left_adjustment_witness:
  "s_left (print_pipeline_trace (new_CPU 32 default_Config) empty_pipeline (plain [])) \<and>
   left_field 10 2 1 = ''10'' \<and>
   (\<exists>s'. print_register_line (new_CPU 32 default_Config) 1
      (print_pipeline_trace (new_CPU 32 default_Config) empty_pipeline (plain [])) = Inr s')"
proof -
  have bubble: "\<not> memwb_valid (mem_wb empty_pipeline)" by (simp add: empty_pipeline_def empty_MEMWB_def)
  note left = trace_leaves_left_adjustment[of "new_CPU 32 default_Config" empty_pipeline "[]"
      "new_CPU 32 default_Config", unfolded Let_def]
  from left[THEN conjunct2, rule_format, OF bubble, of 1]
  have "\<exists>s'. print_register_line (new_CPU 32 default_Config) 1
      (print_pipeline_trace (new_CPU 32 default_Config) empty_pipeline (plain [])) = Inr s'"
    by auto
  moreover have "left_field 10 2 1 = ''10''" by code_simp
  ultimately show ?thesis using left[THEN conjunct1] bubble by blast
qed

section \<open>The command line\<close>

text \<open>
  C31. The options the parser can return are exactly the well-formed ones, with a memory of 1 to
  \<open>2\<^sup>3\<^sup>2 - 1\<close> bytes, expectations that fit a word access and a state file wherever ranges are
  given, and each of them is read back from its own rendering as arguments.
\<close>

theorem command_line_roundtrip:
  "((\<exists>args. parse_cli args = Inr opts) \<longleftrightarrow> options_ok opts) \<and>
   (options_ok opts \<longrightarrow> parse_cli (render_options opts) = Inr opts)"
  using parse_cli_options_ok parse_render by blast

theorem command_line_roundtrip_witness:
  "parse_cli (render_options (demo_options ''a.bin'')) = Inr (demo_options ''a.bin'')"
proof -
  have "options_ok (demo_options ''a.bin'')"
    by (simp add: options_ok_def options_shape_def demo_options_def default_options_def
        default_Config_def)
  then show ?thesis using command_line_roundtrip[of "demo_options ''a.bin''"] by blast
qed

section \<open>Architectural state\<close>

text \<open>
  C32. The register file: after any sequence of in-range writes, a register other than \<open>x0\<close>
  reads the last value written to it, or its old value, and \<open>x0\<close> reads zero.
\<close>

theorem register_file_last_write:
  assumes "length (cpu_regs c) = 32" "\<forall>w \<in> set ws. unat (fst w) < 32" "unat r < 32"
  shows "\<exists>c'. xregs.wr_list c ws = Inr c' \<and> read_reg c' 0 = Inr 0 \<and>
    (r \<noteq> 0 \<longrightarrow> read_reg c' r =
       (case map_of (rev ws) r of Some v \<Rightarrow> Inr v | None \<Rightarrow> read_reg c r))"
proof -
  obtain c' where "xregs.wr_list c ws = Inr c'" "length (cpu_regs c') = 32"
    using xregs.wr_list_in[OF assms(1,2)] by blast
  then show ?thesis using xregs.rd_zero xregs.rd_wr_list[OF assms(1), of ws c' r] by blast
qed

theorem register_file_last_write_witness:
  "\<exists>c'. xregs.wr_list (new_CPU 4 default_Config) [(5, 1), (0, 9), (5, 2)] = Inr c' \<and>
     read_reg c' 0 = Inr 0 \<and> read_reg c' 5 = Inr 2"
  using register_file_last_write[of "new_CPU 4 default_Config" "[(5, 1), (0, 9), (5, 2)]" 5]
  by (auto simp: new_CPU_def kNumRegisters_def)

text \<open>
  C33. Memory is little-endian and byte-exact: what a word write stores at \<open>a\<close>, a word read at
  \<open>a\<close> returns, and the four byte reads return its bytes from the least significant up.
\<close>

theorem word_write_read:
  assumes "cpu_ok c" "write_u32 c a v = Inr c'"
  shows "read_u32 c' a = Inr v \<and>
    (\<forall>k < 4. read_u8 c' (a + of_nat k) = Inr (ucast (drop_bit (8 * k) v)))"
proof -
  have len: "length (cpu_memory c) \<le> 2 ^ 32" using assms(1) by (simp add: cpu_ok_def)
  show ?thesis
    using mem32.rd_after_wr[OF len assms(2)] word_write_bytes[OF len assms(2)] by blast
qed

theorem word_write_read_witness:
  "\<exists>c'. write_u32 (new_CPU 8 default_Config) 4 0x11223344 = Inr c' \<and>
     read_u32 c' 4 = Inr 0x11223344"
proof -
  have ok: "cpu_ok (new_CPU 8 default_Config)" by (rule new_CPU_ok) simp
  obtain c' where "write_u32 (new_CPU 8 default_Config) 4 0x11223344 = Inr c'"
    using mem32.wr_in[of "new_CPU 8 default_Config" 4 "0x11223344"] by (auto simp: new_CPU_def)
  then show ?thesis using word_write_read[OF ok] by blast
qed

text \<open>
  C34. An access of 1, 2 or 4 bytes fails exactly when it would leave memory, also at the end of
  the address space where the address of its last byte wraps, and always with the same exception.
\<close>

theorem access_fails_exactly_outside:
  assumes "cpu_ok c"
  shows "(read_u8 c a = Inl e \<longleftrightarrow> e = bad_address \<and> memory_size c < unat a + 1) \<and>
    (read_u16 c a = Inl e \<longleftrightarrow> e = bad_address \<and> memory_size c < unat a + 2) \<and>
    (read_u32 c a = Inl e \<longleftrightarrow> e = bad_address \<and> memory_size c < unat a + 4) \<and>
    (write_u8 c a v1 = Inl e \<longleftrightarrow> e = bad_address \<and> memory_size c < unat a + 1) \<and>
    (write_u16 c a v2 = Inl e \<longleftrightarrow> e = bad_address \<and> memory_size c < unat a + 2) \<and>
    (write_u32 c a v4 = Inl e \<longleftrightarrow> e = bad_address \<and> memory_size c < unat a + 4)"
proof -
  have len: "length (cpu_memory c) \<le> 2 ^ 32" using assms by (simp add: cpu_ok_def)
  show ?thesis
    unfolding memory_size_def mem8.rd_fails_iff[OF len] mem16.rd_fails_iff[OF len]
      mem32.rd_fails_iff[OF len] mem8.wr_fails_iff[OF len] mem16.wr_fails_iff[OF len]
      mem32.wr_fails_iff[OF len]
    by simp
qed

theorem access_fails_exactly_outside_witness:
  "read_u32 (new_CPU 8 default_Config) 0xFFFFFFFE = Inl bad_address"
  using access_fails_exactly_outside[OF new_CPU_ok[of 8 default_Config], of "0xFFFFFFFE" bad_address]
  by (simp add: memory_size_def new_CPU_def)

text \<open>
  C35. Loading a nonempty image that fits puts exactly its bytes at the base address, leaves the
  rest of memory and the registers alone, moves the program counter there, clears the halt flag
  and the log of writes; an image that does not fit is refused.
\<close>

theorem load_program_places_image:
  assumes "img \<noteq> []"
  shows "load_program c img base =
    (if unat base + length img \<le> memory_size c then
       Inr (c\<lparr>cpu_memory := splice_at (cpu_memory c) (unat base) img, cpu_pc := base,
              cpu_halted := False, cpu_memory_writes := []\<rparr>)
     else Inl bad_address)"
  using load_program_in[OF assms, of base c] load_program_out[OF assms, of c base]
  by (simp add: memory_size_def)

theorem load_program_places_image_witness:
  "load_program (new_CPU 2 default_Config) [1, 2, 3] 0 = Inl bad_address"
  using load_program_places_image[of "[1, 2, 3]" "new_CPU 2 default_Config" 0]
  by (simp add: memory_size_def new_CPU_def)

section \<open>The branch predictor\<close>

text \<open>
  C36. The counters stay two-bit values, and one outcome moves the counter of every address that
  shares the slot one state towards it, saturating, and no other.
\<close>

theorem counter_moves_one_state:
  assumes "predictor_ok bp"
  shows "predictor_ok (update_predictor bp a t ty) \<and>
    counter_state (update_predictor bp a t TwoBitSaturating) b =
      (if index_for b = index_for a then train (counter_state bp a) t else counter_state bp b)"
  using update_bounded[OF assms] counter_state_update[OF assms] by blast

theorem counter_moves_one_state_witness:
  "counter_state (update_predictor new_predictor 4 True TwoBitSaturating) 260 =
     train (counter_state new_predictor 4) True"
  using counter_moves_one_state[OF new_predictor_ok, of 4 True TwoBitSaturating 260]
  by (simp add: index_for_def kEntryCount_def)

text \<open>
  C37. A branch that always goes one way is mispredicted at most twice, however often it
  executes and whatever its counter was.
\<close>

theorem constant_branch_learnt:
  assumes "predictor_ok bp"
  shows "two_bit.misses bp a (replicate n t) \<le> 2"
  by (rule two_bit.learning_misses[OF assms])

theorem constant_branch_learnt_witness:
  "two_bit.misses new_predictor 64 (replicate 1000 True) \<le> 2"
  by (rule constant_branch_learnt[OF new_predictor_ok])

text \<open>
  C38. A loop branch costs one misprediction per pass, for any number of passes: from a counter on
  the taken side, a sequence of passes, each of which takes the branch at least once and then leaves
  the loop, is mispredicted exactly as often as there are passes, and the branch is predicted taken
  at the start of the next one.
\<close>

theorem loop_passes_cost_one_each:
  assumes "predictor_ok bp" "predict bp a TwoBitSaturating" "0 \<notin> set rounds"
  shows "two_bit.misses bp a (concat (map (\<lambda>n. replicate n True @ [False]) rounds)) = length rounds \<and>
    predict (two_bit.trained bp a (concat (map (\<lambda>n. replicate n True @ [False]) rounds))) a
      TwoBitSaturating"
  using two_bit.loop_passes[OF assms(1) _ assms(3), of a] assms(2)
    predict_counter_state[OF assms(1)] predict_counter_state[OF two_bit.inv_trained[OF assms(1)]]
  by simp

theorem loop_passes_cost_one_each_witness:
  "two_bit.misses \<lparr>counters = replicate 64 2\<rparr> 12
     (concat (map (\<lambda>n. replicate n True @ [False]) [9, 1, 4])) = 3"
proof -
  have "predictor_ok \<lparr>counters = replicate 64 2\<rparr>"
    by (simp add: predictor_ok_def kEntryCount_def list_all_length word_le_nat_alt)
  moreover have "predict \<lparr>counters = replicate 64 2\<rparr> 12 TwoBitSaturating"
    by (simp add: kWeaklyTaken_def)
  ultimately show ?thesis
    using loop_passes_cost_one_each[of "\<lparr>counters = replicate 64 2\<rparr>" 12 "[9, 1, 4]"] by simp
qed

section \<open>Encodings\<close>

text \<open>C39. Decoding inverts the encoders of the tests for R- and I-type instructions.\<close>

theorem encode_decode_r_i:
  assumes "unat f7 < 128" "unat rs2 < 32" "unat rs1 < 32" "unat f3 < 8" "unat rd < 32"
    and "unat opc < 128" "- 2048 \<le> sint imm" "sint imm < 2048"
  shows "decode_r_type (encode_r f7 rs2 rs1 f3 rd) =
      \<lparr>r_opcode = 0x33, r_rd = rd, r_funct3 = f3, r_rs1 = rs1, r_rs2 = rs2, r_funct7 = f7\<rparr> \<and>
    decode_i_type (encode_i imm rs1 f3 rd opc) =
      \<lparr>i_opcode = opc, i_rd = rd, i_funct3 = f3, i_rs1 = rs1, i_imm = imm\<rparr>"
  using encode_r_roundtrip[OF assms(1-5)] encode_i_roundtrip[OF assms(3-8)] by blast

theorem encode_decode_r_i_witness:
  "i_imm (decode_i_type (encode_i (- 3) 2 0 1 0x13)) = - 3"
  using encode_decode_r_i[of 0 0 2 0 1 "0x13" "- 3"] by simp

text \<open>
  C40. Decoding inverts the encoders for S-, B- and J-type instructions, whose immediates are
  scattered over the word, for every offset in range.
\<close>

theorem encode_decode_s_b_j:
  assumes "unat rs2 < 32" "unat rs1 < 32" "unat f3 < 8" "unat rd < 32"
    and "- 2048 \<le> sint simm" "sint simm < 2048"
    and "- 4096 \<le> sint bimm" "sint bimm < 4096" "even bimm"
    and "- 1048576 \<le> sint jimm" "sint jimm < 1048576" "even jimm"
  shows "decode_s_type (encode_s simm rs2 rs1 f3) =
      \<lparr>s_opcode = 0x23, s_funct3 = f3, s_rs1 = rs1, s_rs2 = rs2, s_imm = simm\<rparr> \<and>
    decode_b_type (encode_b bimm rs2 rs1 f3) =
      \<lparr>b_opcode = 0x63, b_funct3 = f3, b_rs1 = rs1, b_rs2 = rs2, b_imm = bimm\<rparr> \<and>
    decode_j_type (encode_j jimm rd) = \<lparr>j_opcode = 0x6F, j_rd = rd, j_imm = jimm\<rparr>"
  using encode_s_roundtrip[OF assms(1-3,5,6)] encode_b_roundtrip[OF assms(1-3,7-9)]
    encode_j_roundtrip[OF assms(4,10-12)] by blast

theorem encode_decode_s_b_j_witness:
  "b_imm (decode_b_type (encode_b (- 8) 2 1 0)) = - 8 \<and>
   j_imm (decode_j_type (encode_j (- 2048) 1)) = - 2048"
  using encode_decode_s_b_j[of 2 1 0 1 4 "- 8" "- 2048"] by simp

end
